(* ===== verification/Prelude.thy ===== *)
theory Prelude
  imports Main "HOL-Library.Word"
begin

text \<open>
  Shared ground of the development: the machine integers of the kernel, the way its
  two build profiles treat arithmetic, and the few operations of the Rust language and
  of its \<open>core\<close>/\<open>alloc\<close> libraries that the kernel's own code is written in
  (slices, iterators, big-endian bytes, UTF-8, decimal formatting).  Everything is
  executable.  The lemmas of this theory are the library the component theories use.

  Conventions.  A Rust \<open>String\<close> or \<open>&str\<close> is a HOL \<open>string\<close>: HOL characters are
  bytes, so a string is exactly the UTF-8 byte sequence Rust keeps.  A \<open>Vec\<close> or a
  slice is a list.  Where an operation of the source can panic, its model returns an
  \<open>outcome\<close>; a Rust \<open>Result\<close> is a sum with the error on the left; \<open>Option\<close> is
  \<open>option\<close>.
\<close>

unbundle bit_operations_syntax

text \<open>Rules by which an operation keeps the invariant of its component.\<close>

named_theorems invariant_rules

section \<open>Machine integers and build profiles\<close>

type_synonym u8 = "8 word"
type_synonym u16 = "16 word"
type_synonym u32 = "32 word"
type_synonym u64 = "64 word"
type_synonym usize = "64 word"

text \<open>\<open>i32\<close> values are kept as their 32 bits and read with \<open>sint\<close>; an \<open>i64\<close> result is
  the integer it denotes.\<close>

type_synonym i32 = "32 word"
type_synonym i64 = int

text \<open>
  The two profiles of the kernel crate.  Cargo compiles \<open>dev\<close> with overflow checks (an
  overflowing \<open>+\<close>, \<open>-\<close>, \<open>*\<close> panics) and \<open>release\<close> without (it wraps).
\<close>

datatype profile = Dev | Release

text \<open>Why a kernel panic was raised; \<open>Explicit\<close> carries the message of \<open>panic!\<close> or \<open>expect\<close>.\<close>

datatype panic = Overflow | Index_Out_Of_Range | Slice_Out_Of_Range | Explicit string

datatype 'a outcome = Ret 'a | Panic panic

fun obind :: "'a outcome \<Rightarrow> ('a \<Rightarrow> 'b outcome) \<Rightarrow> 'b outcome" where
  "obind (Ret x) f = f x"
| "obind (Panic e) f = Panic e"

fun returns :: "'a outcome \<Rightarrow> bool" where
  "returns (Ret x) = True"
| "returns (Panic e) = False"

definition arith_add :: "profile \<Rightarrow> 'w::len word \<Rightarrow> 'w word \<Rightarrow> 'w word outcome" where
  "arith_add p a b =
     (if p = Dev \<and> 2 ^ LENGTH('w) \<le> unat a + unat b then Panic Overflow else Ret (a + b))"

definition arith_sub :: "profile \<Rightarrow> 'w::len word \<Rightarrow> 'w word \<Rightarrow> 'w word outcome" where
  "arith_sub p a b = (if p = Dev \<and> a < b then Panic Overflow else Ret (a - b))"

definition arith_mul :: "profile \<Rightarrow> 'w::len word \<Rightarrow> 'w word \<Rightarrow> 'w word outcome" where
  "arith_mul p a b =
     (if p = Dev \<and> 2 ^ LENGTH('w) \<le> unat a * unat b then Panic Overflow else Ret (a * b))"

definition saturating_add :: "'w::len word \<Rightarrow> 'w word \<Rightarrow> 'w word" where
  "saturating_add a b = (if 2 ^ LENGTH('w) \<le> unat a + unat b then - 1 else a + b)"

definition checked_sub :: "'w::len word \<Rightarrow> 'w word \<Rightarrow> 'w word option" where
  "checked_sub a b = (if a < b then None else Some (a - b))"

section \<open>Slices, vectors and iterators\<close>

text \<open>\<open>&xs[a..b]\<close>: panics unless \<open>a \<le> b \<le> xs.len()\<close>; \<open>&xs[a..]\<close> panics when \<open>a > xs.len()\<close>.\<close>

definition slice :: "nat \<Rightarrow> nat \<Rightarrow> 'a list \<Rightarrow> 'a list outcome" where
  "slice a b xs =
     (if a \<le> b \<and> b \<le> length xs then Ret (take (b - a) (drop a xs)) else Panic Slice_Out_Of_Range)"

definition slice_from :: "nat \<Rightarrow> 'a list \<Rightarrow> 'a list outcome" where
  "slice_from a xs = (if a \<le> length xs then Ret (drop a xs) else Panic Slice_Out_Of_Range)"

text \<open>\<open>buf[..n].copy_from_slice(src)\<close> with \<open>n = src.len() \<le> buf.len()\<close>.\<close>

definition copy_into :: "'a list \<Rightarrow> 'a list \<Rightarrow> 'a list" where
  "copy_into src buf = src @ drop (length src) buf"

text \<open>\<open>iter().position(P)\<close>, and \<open>iter_mut().find(P)\<close> followed by a mutation \<open>f\<close> of what was found.\<close>

fun position :: "('a \<Rightarrow> bool) \<Rightarrow> 'a list \<Rightarrow> nat option" where
  "position P [] = None"
| "position P (x # xs) = (if P x then Some 0 else map_option Suc (position P xs))"

fun update_first :: "('a \<Rightarrow> bool) \<Rightarrow> ('a \<Rightarrow> 'a) \<Rightarrow> 'a list \<Rightarrow> 'a list" where
  "update_first P f [] = []"
| "update_first P f (x # xs) = (if P x then f x # xs else x # update_first P f xs)"

text \<open>\<open>Vec::remove(i)\<close> for an index in range.\<close>

definition remove_at :: "nat \<Rightarrow> 'a list \<Rightarrow> 'a list" where
  "remove_at i xs = take i xs @ drop (Suc i) xs"

section \<open>Big-endian bytes\<close>

definition u16_from_be_bytes :: "u8 \<Rightarrow> u8 \<Rightarrow> u16" where
  "u16_from_be_bytes a b = push_bit 8 (ucast a) OR ucast b"

definition u16_to_be_bytes :: "u16 \<Rightarrow> u8 list" where
  "u16_to_be_bytes w = [ucast (drop_bit 8 w), ucast w]"

definition u32_from_be_bytes :: "u8 \<Rightarrow> u8 \<Rightarrow> u8 \<Rightarrow> u8 \<Rightarrow> u32" where
  "u32_from_be_bytes a b c d =
     push_bit 24 (ucast a) OR push_bit 16 (ucast b) OR push_bit 8 (ucast c) OR ucast d"

section \<open>Text\<close>

definition byte_of :: "char \<Rightarrow> u8" where
  "byte_of c = of_char c"

definition bytes :: "string \<Rightarrow> u8 list" where
  "bytes s = map byte_of s"

definition chr :: "u8 \<Rightarrow> char" where
  "chr b = char_of (unat b)"

text \<open>
  Well-formed UTF-8 as \<open>core::str::from_utf8\<close> accepts it (Table 3-7 of the Unicode
  standard: no overlong forms, no surrogates, nothing above U+10FFFF).
\<close>

definition cont :: "u8 \<Rightarrow> bool" where
  "cont b \<longleftrightarrow> 0x80 \<le> b \<and> b \<le> 0xBF"

definition utf8_2 :: "u8 \<Rightarrow> u8 \<Rightarrow> bool" where
  "utf8_2 a b \<longleftrightarrow> 0xC2 \<le> a \<and> a \<le> 0xDF \<and> cont b"

definition utf8_3 :: "u8 \<Rightarrow> u8 \<Rightarrow> u8 \<Rightarrow> bool" where
  "utf8_3 a b c \<longleftrightarrow> cont c \<and>
     (a = 0xE0 \<and> 0xA0 \<le> b \<and> b \<le> 0xBF
      \<or> 0xE1 \<le> a \<and> a \<le> 0xEC \<and> cont b
      \<or> a = 0xED \<and> 0x80 \<le> b \<and> b \<le> 0x9F
      \<or> 0xEE \<le> a \<and> a \<le> 0xEF \<and> cont b)"

definition utf8_4 :: "u8 \<Rightarrow> u8 \<Rightarrow> u8 \<Rightarrow> u8 \<Rightarrow> bool" where
  "utf8_4 a b c d \<longleftrightarrow> cont c \<and> cont d \<and>
     (a = 0xF0 \<and> 0x90 \<le> b \<and> b \<le> 0xBF
      \<or> 0xF1 \<le> a \<and> a \<le> 0xF3 \<and> cont b
      \<or> a = 0xF4 \<and> 0x80 \<le> b \<and> b \<le> 0x8F)"

text \<open>Splits a byte sequence into the encodings of its characters; \<open>None\<close> if it is not UTF-8.\<close>

fun utf8_split :: "u8 list \<Rightarrow> u8 list list option" where
  "utf8_split [] = Some []"
| "utf8_split [a] = (if a < 0x80 then Some [[a]] else None)"
| "utf8_split [a, b] =
     (if a < 0x80 then map_option ((#) [a]) (utf8_split [b])
      else if utf8_2 a b then Some [[a, b]] else None)"
| "utf8_split [a, b, c] =
     (if a < 0x80 then map_option ((#) [a]) (utf8_split [b, c])
      else if utf8_2 a b then map_option ((#) [a, b]) (utf8_split [c])
      else if utf8_3 a b c then Some [[a, b, c]] else None)"
| "utf8_split (a # b # c # d # r) =
     (if a < 0x80 then map_option ((#) [a]) (utf8_split (b # c # d # r))
      else if utf8_2 a b then map_option ((#) [a, b]) (utf8_split (c # d # r))
      else if utf8_3 a b c then map_option ((#) [a, b, c]) (utf8_split (d # r))
      else if utf8_4 a b c d then map_option ((#) [a, b, c, d]) (utf8_split r)
      else None)"

definition from_utf8 :: "u8 list \<Rightarrow> string option" where
  "from_utf8 bs = (if utf8_split bs = None then None else Some (map chr bs))"

text \<open>\<open>char::encode_utf8\<close>: what \<open>{}\<close> prints for the character with code point \<open>c\<close>.\<close>

definition char_to_utf8 :: "u32 \<Rightarrow> u8 list" where
  "char_to_utf8 c =
     (if c < 0x80 then [ucast c]
      else if c < 0x800 then [ucast (0xC0 OR drop_bit 6 c), ucast (0x80 OR (c AND 0x3F))]
      else if c < 0x10000 then
        [ucast (0xE0 OR drop_bit 12 c), ucast (0x80 OR (drop_bit 6 c AND 0x3F)),
         ucast (0x80 OR (c AND 0x3F))]
      else
        [ucast (0xF0 OR drop_bit 18 c), ucast (0x80 OR (drop_bit 12 c AND 0x3F)),
         ucast (0x80 OR (drop_bit 6 c AND 0x3F)), ucast (0x80 OR (c AND 0x3F))])"

text \<open>The decimal digits \<open>{}\<close> prints for an unsigned integer.\<close>

fun show_nat :: "nat \<Rightarrow> string" where
  "show_nat n = (if n < 10 then [char_of (48 + n)] else show_nat (n div 10) @ [char_of (48 + n mod 10)])"

declare show_nat.simps [simp del]

text \<open>\<open>{:x}\<close>.\<close>

fun show_hex :: "nat \<Rightarrow> string" where
  "show_hex n =
     (if n < 16 then [if n < 10 then char_of (48 + n) else char_of (87 + n)]
      else show_hex (n div 16) @ show_hex (n mod 16))"

declare show_hex.simps [simp del]

definition show_int :: "int \<Rightarrow> string" where
  "show_int i = (if i < 0 then ''-'' @ show_nat (nat (- i)) else show_nat (nat i))"

section \<open>Runs of a transition system\<close>

text \<open>
  The states a step relation reaches from a set of start states.  The interface
  \<open>invariant_system\<close> is the contract every stateful component meets: a start predicate,
  a step relation, and an invariant that holds at the start and that every step keeps.
\<close>

inductive reachable :: "('s \<Rightarrow> bool) \<Rightarrow> ('s \<Rightarrow> 's \<Rightarrow> bool) \<Rightarrow> 's \<Rightarrow> bool"
  for start :: "'s \<Rightarrow> bool" and step :: "'s \<Rightarrow> 's \<Rightarrow> bool" where
  reachable_start: "start s \<Longrightarrow> reachable start step s"
| reachable_step: "reachable start step s \<Longrightarrow> step s t \<Longrightarrow> reachable start step t"

locale invariant_system =
  fixes start :: "'s \<Rightarrow> bool"
    and step :: "'s \<Rightarrow> 's \<Rightarrow> bool"
    and inv :: "'s \<Rightarrow> bool"
  assumes inv_start: "start s \<Longrightarrow> inv s"
    and inv_step: "inv s \<Longrightarrow> step s t \<Longrightarrow> inv t"
begin

lemma inv_reachable: "reachable start step s \<Longrightarrow> inv s"
  by (induction rule: reachable.induct) (auto intro: inv_start inv_step)

end

text \<open>
  A detailed system simulates an abstract one: each of its steps from a state with the invariant is
  a sequence of abstract steps between the abstractions.
\<close>

locale simulation = invariant_system start step inv
  for start :: "'s \<Rightarrow> bool" and step :: "'s \<Rightarrow> 's \<Rightarrow> bool" and inv :: "'s \<Rightarrow> bool" +
  fixes astart :: "'a \<Rightarrow> bool"
    and astep :: "'a \<Rightarrow> 'a \<Rightarrow> bool"
    and absf :: "'s \<Rightarrow> 'a"
  assumes sim_start: "start s \<Longrightarrow> astart (absf s)"
    and sim_step: "inv s \<Longrightarrow> inv t \<Longrightarrow> step s t \<Longrightarrow> astep\<^sup>*\<^sup>* (absf s) (absf t)"
begin

lemma astep_reachable: "astep\<^sup>*\<^sup>* a b \<Longrightarrow> reachable astart astep a \<Longrightarrow> reachable astart astep b"
  by (induction rule: rtranclp_induct) (auto intro: reachable_step)

lemma sim_reachable: "reachable start step s \<Longrightarrow> reachable astart astep (absf s)"
proof (induction rule: reachable.induct)
  case (reachable_start s)
  then show ?case using sim_start by (blast intro: reachable.reachable_start)
next
  case (reachable_step s t)
  then show ?case using sim_step [of s t] inv_reachable inv_step astep_reachable by blast
qed

end

section \<open>Library lemmas\<close>

subsection \<open>Outcomes and arithmetic\<close>

lemma obind_eq_Ret [simp]: "obind m f = Ret y \<longleftrightarrow> (\<exists>x. m = Ret x \<and> f x = Ret y)"
  by (cases m) auto

lemma returns_iff: "returns m \<longleftrightarrow> (\<exists>x. m = Ret x)"
  by (cases m) auto

lemma returns_obind [simp]: "returns (obind m f) \<longleftrightarrow> (\<exists>x. m = Ret x \<and> returns (f x))"
  by (cases m) auto

lemma arith_add_ok:
  fixes a b :: "'w::len word"
  assumes "unat a + unat b < 2 ^ LENGTH('w)"
  shows "arith_add p a b = Ret (a + b)"
  using assms by (simp add: arith_add_def)

lemma unat_saturating_add:
  "unat a + n < 2 ^ LENGTH('w) \<Longrightarrow> unat (saturating_add a (of_nat n)) = unat (a :: 'w::len word) + n"
  by (simp add: saturating_add_def unat_of_nat unat_word_ariths)

lemma arith_sub_ok: "b \<le> a \<Longrightarrow> arith_sub p a b = Ret (a - b)"
  by (auto simp: arith_sub_def)

lemma arith_mul_ok:
  fixes a b :: "'w::len word"
  assumes "unat a * unat b < 2 ^ LENGTH('w)"
  shows "arith_mul p a b = Ret (a * b)"
  using assms by (simp add: arith_mul_def)

lemma arith_add_ex:
  fixes a b :: "'w::len word"
  assumes "unat a + unat b < 2 ^ LENGTH('w)"
  shows "\<exists>c. arith_add p a b = Ret c \<and> unat c = unat a + unat b"
  using assms arith_add_ok [OF assms, of p] unat_add_lem [THEN iffD1, OF assms] by blast

lemma arith_mul_ex:
  fixes a b :: "'w::len word"
  assumes "unat a * unat b < 2 ^ LENGTH('w)"
  shows "\<exists>c. arith_mul p a b = Ret c \<and> unat c = unat a * unat b"
  using assms arith_mul_ok [OF assms, of p] unat_mult_lem [THEN iffD1, OF assms] by blast

lemma arith_release [simp]:
  "arith_add Release a b = Ret (a + b)"
  "arith_sub Release a b = Ret (a - b)"
  "arith_mul Release a b = Ret (a * b)"
  by (simp_all add: arith_add_def arith_sub_def arith_mul_def)

subsection \<open>Words and natural numbers\<close>

lemma unat_eqI: "unat a = unat b \<Longrightarrow> a = b"
  by (rule unsigned_word_eqI)

lemma unat_u8_less: "unat (a :: u8) < 256"
proof -
  have "unat a < 2 ^ LENGTH(8)" by (rule unsigned_less)
  then show ?thesis by simp
qed

lemma unat_of_nat_u8: "n < 256 \<Longrightarrow> unat (of_nat n :: u8) = n"
  by (simp only: unat_of_nat) simp

lemma unat_of_nat_u64: "n < 2 ^ 64 \<Longrightarrow> unat (of_nat n :: u64) = n"
  by (simp only: unat_of_nat) simp

lemma unat_add_of_nat:
  assumes "unat a + n < 2 ^ 64"
  shows "unat (a + of_nat n :: u64) = unat a + n"
proof -
  have "unat (of_nat n :: u64) = n" using assms by (intro unat_of_nat_u64) simp
  then show ?thesis using assms by (simp add: unat_word_ariths(1))
qed

subsection \<open>Slices, vectors and iterators\<close>

lemma length_copy_into: "length src \<le> length buf \<Longrightarrow> length (copy_into src buf) = length buf"
  by (simp add: copy_into_def)

lemma take_copy_into: "take (length src) (copy_into src buf) = src"
  by (simp add: copy_into_def)

lemma drop_copy_into: "n \<ge> length src \<Longrightarrow> drop n (copy_into src buf) = drop n buf"
  by (simp add: copy_into_def)

lemma position_eq_Some:
  "position P xs = Some i \<longleftrightarrow> i < length xs \<and> P (xs ! i) \<and> (\<forall>j<i. \<not> P (xs ! j))"
proof (induction xs arbitrary: i)
  case Nil
  then show ?case by simp
next
  case (Cons x xs)
  show ?case
  proof (cases i)
    case 0
    then show ?thesis by auto
  next
    case (Suc k)
    have "(\<forall>j<Suc k. \<not> P ((x # xs) ! j)) \<longleftrightarrow> \<not> P x \<and> (\<forall>j<k. \<not> P (xs ! j))"
      by (auto simp: All_less_Suc2)
    with Suc Cons.IH [of k] show ?thesis by auto
  qed
qed

lemma find_append:
  "List.find P (xs @ ys) = (case List.find P xs of None \<Rightarrow> List.find P ys | Some x \<Rightarrow> Some x)"
  by (induction xs) auto

lemma find_map_key:
  "(\<And>x. k (f x) = k x) \<Longrightarrow> List.find (\<lambda>x. k x = v) (map f xs) = map_option f (List.find (\<lambda>x. k x = v) xs)"
  by (induction xs) auto

lemma find_Some_in: "List.find P xs = Some x \<Longrightarrow> x \<in> set xs \<and> P x"
  by (auto simp: find_Some_iff)

lemma find_distinct_key:
  assumes "distinct (map f xs)" "x \<in> set xs"
  shows "List.find (\<lambda>y. f y = f x) xs = Some x"
  using assms by (induction xs) (auto simp: image_iff)

lemma length_update_first [simp]: "length (update_first P f xs) = length xs"
  by (induction xs) auto

lemma map_update_first:
  "(\<And>x. P x \<Longrightarrow> g (f x) = g x) \<Longrightarrow> map g (update_first P f xs) = map g xs"
  by (induction xs) auto

lemma set_update_first: "y \<in> set (update_first P f xs) \<Longrightarrow> y \<in> set xs \<or> (\<exists>x \<in> set xs. P x \<and> y = f x)"
  by (induction xs) (auto split: if_splits)

lemma find_update_first_key:
  assumes "\<And>x. k (f x) = k x"
  shows "List.find (\<lambda>x. k x = v) (update_first (\<lambda>x. k x = w) f xs) =
    (if v = w then map_option f (List.find (\<lambda>x. k x = v) xs) else List.find (\<lambda>x. k x = v) xs)"
  by (induction xs) (auto simp: assms)

lemma set_remove_at_subset: "set (remove_at i xs) \<subseteq> set xs"
  by (auto simp: remove_at_def dest: in_set_takeD in_set_dropD)

lemma map_remove_at: "map f (remove_at i xs) = remove_at i (map f xs)"
  by (simp add: remove_at_def take_map drop_map)

lemma distinct_remove_at: "distinct xs \<Longrightarrow> distinct (remove_at i xs)"
  by (simp add: remove_at_def set_take_disj_set_drop_if_distinct)

subsection \<open>Big-endian bytes\<close>

lemma length_u16_to_be_bytes [simp]: "length (u16_to_be_bytes w) = 2"
  by (simp add: u16_to_be_bytes_def)

lemma u16_be_bytes_inverse:
  "u16_from_be_bytes (ucast (drop_bit 8 w)) (ucast w) = w"
  by (rule bit_word_eqI)
    (auto simp: u16_from_be_bytes_def bit_or_iff bit_push_bit_iff bit_unsigned_iff bit_drop_bit_eq)

lemma u16_to_from_be_bytes: "u16_to_be_bytes (u16_from_be_bytes a b) = [a, b]"
proof -
  have "ucast (drop_bit 8 (u16_from_be_bytes a b)) = a"
    by (rule bit_word_eqI)
      (auto simp: u16_from_be_bytes_def bit_or_iff bit_push_bit_iff bit_unsigned_iff bit_drop_bit_eq
        dest: bit_imp_le_length)
  moreover have "ucast (u16_from_be_bytes a b) = b"
    by (rule bit_word_eqI)
      (auto simp: u16_from_be_bytes_def bit_or_iff bit_push_bit_iff bit_unsigned_iff)
  ultimately show ?thesis by (simp add: u16_to_be_bytes_def)
qed

end
