(* ===== verification/Keyboard.thy ===== *)
theory Keyboard
  imports Prelude
begin

text \<open>
  The PS/2 keyboard driver (\<open>kernel/src/drivers/keyboard.rs\<close>): the 256-byte ring buffer
  between the interrupt handler and the readers, and the decoding of scancodes.  The
  \<open>pc-keyboard\<close> crate is the parameter \<open>pc_keyboard\<close>; the values the two I/O ports return
  are arguments of the operations that read them.  The interface \<open>bounded_fifo\<close> states
  what the readers rely on; its client lemmas are proved once and the ring buffer is
  shown to provide it.
\<close>

section \<open>The ring buffer\<close>

definition KEY_BUF_SIZE :: nat where
  "KEY_BUF_SIZE = 256"

record key_buffer =
  kb_buf :: "u8 list"
  kb_read :: nat
  kb_write :: nat
  kb_count :: nat

definition key_buffer_new :: key_buffer where
  "key_buffer_new =
     \<lparr>kb_buf = replicate KEY_BUF_SIZE 0, kb_read = 0, kb_write = 0, kb_count = 0\<rparr>"

definition push :: "u8 \<Rightarrow> key_buffer \<Rightarrow> key_buffer outcome" where
  "push byte b =
     (if kb_count b < KEY_BUF_SIZE then
        (if kb_write b < length (kb_buf b) then
           Ret (b\<lparr>kb_buf := (kb_buf b)[kb_write b := byte],
                  kb_write := (kb_write b + 1) mod KEY_BUF_SIZE,
                  kb_count := kb_count b + 1\<rparr>)
         else Panic Index_Out_Of_Range)
      else Ret b)"

definition pop :: "key_buffer \<Rightarrow> (u8 option \<times> key_buffer) outcome" where
  "pop b =
     (if kb_count b = 0 then Ret (None, b)
      else if kb_read b < length (kb_buf b) then
        Ret (Some (kb_buf b ! kb_read b),
             b\<lparr>kb_read := (kb_read b + 1) mod KEY_BUF_SIZE, kb_count := kb_count b - 1\<rparr>)
      else Panic Index_Out_Of_Range)"

section \<open>Scancodes\<close>

text \<open>A decoded key of the \<open>pc-keyboard\<close> crate: a character (its code point) or a raw key code.\<close>

datatype 'kc decoded_key = Unicode u32 | RawKey 'kc

text \<open>
  What the driver uses of the crate: the decoder's state \<open>'kb\<close>, its two operations, the
  two key codes the driver names, and how a key code prints.
\<close>

record ('kb, 'ev, 'kc) pc_keyboard =
  add_byte :: "'kb \<Rightarrow> u8 \<Rightarrow> (unit + 'ev option) \<times> 'kb"
  process_keyevent :: "'kb \<Rightarrow> 'ev \<Rightarrow> 'kc decoded_key option \<times> 'kb"
  Backspace :: 'kc
  Delete :: 'kc
  debug_key :: "'kc \<Rightarrow> u8 list"

text \<open>The driver's state: \<open>KEYBOARD\<close>, \<open>KEY_BUFFER\<close>, and what was echoed to the serial port.\<close>

record 'kb keyboard =
  KEYBOARD :: 'kb
  KEY_BUFFER :: key_buffer
  kbd_serial :: "u8 list"

definition decode_scancode ::
    "('kb, 'ev, 'kc) pc_keyboard \<Rightarrow> u8 \<Rightarrow> 'kb keyboard \<Rightarrow> u8 option \<times> 'kb keyboard" where
  "decode_scancode K scancode k =
     (case add_byte K (KEYBOARD k) scancode of
        (Inr (Some key_event), kb1) \<Rightarrow>
          (case process_keyevent K kb1 key_event of
             (Some (Unicode character), kb2) \<Rightarrow>
               (Some (ucast character),
                k\<lparr>KEYBOARD := kb2, kbd_serial := kbd_serial k @ char_to_utf8 character\<rparr>)
           | (Some (RawKey key), kb2) \<Rightarrow>
               ((if key = Backspace K then Some 0x08
                 else if key = Delete K then Some 0x7F
                 else None),
                k\<lparr>KEYBOARD := kb2, kbd_serial := kbd_serial k @ debug_key K key @ [0x20]\<rparr>)
           | (None, kb2) \<Rightarrow> (None, k\<lparr>KEYBOARD := kb2\<rparr>))
      | (_, kb1) \<Rightarrow> (None, k\<lparr>KEYBOARD := kb1\<rparr>))"

text \<open>\<open>data\<close> is the byte the data port (0x60) returns.\<close>

definition handle_interrupt ::
    "('kb, 'ev, 'kc) pc_keyboard \<Rightarrow> u8 \<Rightarrow> 'kb keyboard \<Rightarrow> 'kb keyboard outcome" where
  "handle_interrupt K data k =
     (case decode_scancode K data k of
        (Some byte, k1) \<Rightarrow> obind (push byte (KEY_BUFFER k1)) (\<lambda>b. Ret (k1\<lparr>KEY_BUFFER := b\<rparr>))
      | (None, k1) \<Rightarrow> Ret k1)"

definition try_read_char :: "'kb keyboard \<Rightarrow> (u8 option \<times> 'kb keyboard) outcome" where
  "try_read_char k = obind (pop (KEY_BUFFER k)) (\<lambda>(c, b). Ret (c, k\<lparr>KEY_BUFFER := b\<rparr>))"

definition KEYBOARD_STATUS_PORT :: u16 where
  "KEYBOARD_STATUS_PORT = 0x64"

definition STATUS_OUTPUT_BUFFER_FULL :: u8 where
  "STATUS_OUTPUT_BUFFER_FULL = 0x01"

text \<open>\<open>status\<close> and \<open>data\<close> are what the status port (0x64) and the data port return.\<close>

definition poll_char ::
    "('kb, 'ev, 'kc) pc_keyboard \<Rightarrow> u8 \<Rightarrow> u8 \<Rightarrow> 'kb keyboard \<Rightarrow> u8 option \<times> 'kb keyboard" where
  "poll_char K status data k =
     (if status AND STATUS_OUTPUT_BUFFER_FULL = 0 then (None, k) else decode_scancode K data k)"

text \<open>
  \<open>try_read_char().or_else(|| poll_char())\<close>, the expression every reader (the shell and
  the read system call) uses to fetch one byte.
\<close>

definition read_key ::
    "('kb, 'ev, 'kc) pc_keyboard \<Rightarrow> u8 \<Rightarrow> u8 \<Rightarrow> 'kb keyboard \<Rightarrow> (u8 option \<times> 'kb keyboard) outcome" where
  "read_key K status data k =
     obind (try_read_char k)
       (\<lambda>(c, k1). case c of Some ch \<Rightarrow> Ret (Some ch, k1) | None \<Rightarrow> Ret (poll_char K status data k1))"

section \<open>Bounded queues\<close>

text \<open>A sequence of queue operations, and what it returns: the results of its pops and the queue.\<close>

datatype 'a fifo_op = Push 'a | Pop

fun fifo_run :: "('a \<Rightarrow> 'q \<Rightarrow> 'q outcome) \<Rightarrow> ('q \<Rightarrow> ('a option \<times> 'q) outcome) \<Rightarrow>
    'a fifo_op list \<Rightarrow> 'q \<Rightarrow> ('a option list \<times> 'q) outcome" where
  "fifo_run psh pp [] q = Ret ([], q)"
| "fifo_run psh pp (Push x # ops) q = obind (psh x q) (fifo_run psh pp ops)"
| "fifo_run psh pp (Pop # ops) q =
     obind (pp q) (\<lambda>(r, q1). obind (fifo_run psh pp ops q1) (\<lambda>(rs, q2). Ret (r # rs, q2)))"

text \<open>The same on a list of at most \<open>cap\<close> elements: the bytes accepted, the bytes popped, the rest.\<close>

fun list_run :: "nat \<Rightarrow> 'a fifo_op list \<Rightarrow> 'a list \<Rightarrow> 'a list \<times> 'a option list \<times> 'a list" where
  "list_run cap [] xs = ([], [], xs)"
| "list_run cap (Push x # ops) xs =
     (if length xs < cap then
        (let (acc, rs, ys) = list_run cap ops (xs @ [x]) in (x # acc, rs, ys))
      else list_run cap ops xs)"
| "list_run cap (Pop # ops) [] =
     (let (acc, rs, ys) = list_run cap ops [] in (acc, None # rs, ys))"
| "list_run cap (Pop # ops) (x # xs) =
     (let (acc, rs, ys) = list_run cap ops xs in (acc, Some x # rs, ys))"

lemma list_run_fifo:
  "list_run cap ops xs = (acc, rs, ys) \<Longrightarrow> xs @ acc = List.map_filter id rs @ ys"
  by (induction cap ops xs arbitrary: acc rs ys rule: list_run.induct)
    (auto simp: map_filter_simps split: if_splits prod.splits)

locale bounded_fifo =
  fixes empty :: 'q
    and psh :: "'a \<Rightarrow> 'q \<Rightarrow> 'q outcome"
    and pp :: "'q \<Rightarrow> ('a option \<times> 'q) outcome"
    and contents :: "'q \<Rightarrow> 'a list"
    and invar :: "'q \<Rightarrow> bool"
    and cap :: nat
  assumes invar_empty: "invar empty"
    and contents_empty: "contents empty = []"
    and push_ok: "invar q \<Longrightarrow> \<exists>q'. psh x q = Ret q' \<and> invar q' \<and>
          contents q' = (if length (contents q) < cap then contents q @ [x] else contents q)"
    and pop_nil: "invar q \<Longrightarrow> contents q = [] \<Longrightarrow> pp q = Ret (None, q)"
    and pop_cons: "invar q \<Longrightarrow> contents q = x # xs \<Longrightarrow>
          \<exists>q'. pp q = Ret (Some x, q') \<and> invar q' \<and> contents q' = xs"
begin

lemma run_refines_list:
  assumes "invar q"
  shows "\<exists>q'. fifo_run psh pp ops q = Ret (fst (snd (list_run cap ops (contents q))), q') \<and>
    invar q' \<and> contents q' = snd (snd (list_run cap ops (contents q)))"
  using assms
proof (induction ops arbitrary: q)
  case Nil
  then show ?case by simp
next
  case (Cons a ops)
  show ?case
  proof (cases a)
    case (Push x)
    from push_ok [OF Cons.prems, of x] obtain q1 where q1: "psh x q = Ret q1" "invar q1"
      "contents q1 = (if length (contents q) < cap then contents q @ [x] else contents q)" by blast
    with Cons.IH [OF q1(2)] Push show ?thesis by (auto split: prod.splits if_splits)
  next
    case Pop
    show ?thesis
    proof (cases "contents q")
      case Nil
      with Cons.IH [OF Cons.prems] Pop pop_nil [OF Cons.prems Nil] show ?thesis
        by (auto split: prod.splits)
    next
      case xs: (Cons x xs)
      from pop_cons [OF Cons.prems xs] obtain q1 where "pp q = Ret (Some x, q1)" "invar q1" "contents q1 = xs"
        by blast
      with Cons.IH [of q1] Pop xs show ?thesis by (auto split: prod.splits)
    qed
  qed
qed

end

section \<open>The ring buffer is a bounded queue\<close>

definition kb_inv :: "key_buffer \<Rightarrow> bool" where
  "kb_inv b \<longleftrightarrow> length (kb_buf b) = KEY_BUF_SIZE \<and> kb_read b < KEY_BUF_SIZE \<and>
     kb_write b = (kb_read b + kb_count b) mod KEY_BUF_SIZE \<and> kb_count b \<le> KEY_BUF_SIZE"

definition kb_contents :: "key_buffer \<Rightarrow> u8 list" where
  "kb_contents b = map (\<lambda>i. kb_buf b ! ((kb_read b + i) mod KEY_BUF_SIZE)) [0..<kb_count b]"

lemma length_kb_contents [simp]: "length (kb_contents b) = kb_count b"
  by (simp add: kb_contents_def)

lemma kb_contents_eq_Nil [simp]: "kb_contents b = [] \<longleftrightarrow> kb_count b = 0"
  by (metis length_0_conv length_kb_contents)

lemma mod_add_inj_le:
  fixes i j :: nat
  assumes "i \<le> j" "j < n" "(r + i) mod n = (r + j) mod n"
  shows "i = j"
proof -
  from assms have "n dvd (r + j) - (r + i)"
    by (metis mod_eq_dvd_iff_nat add_le_cancel_left)
  with assms show ?thesis by (auto dest!: dvd_imp_le)
qed

lemma mod_add_inj: "i < n \<Longrightarrow> j < n \<Longrightarrow> (r + i) mod n = (r + j) mod n \<Longrightarrow> i = (j::nat)"
  by (metis mod_add_inj_le nat_le_linear)

lemma kb_inv_new: "kb_inv key_buffer_new" and kb_contents_new: "kb_contents key_buffer_new = []"
  by (simp_all add: kb_inv_def key_buffer_new_def KEY_BUF_SIZE_def kb_contents_def)

lemma push_contents:
  assumes "kb_inv b" "kb_count b < KEY_BUF_SIZE"
  shows "\<exists>b'. push x b = Ret b' \<and> kb_inv b' \<and> kb_contents b' = kb_contents b @ [x]"
proof -
  let ?b = "b\<lparr>kb_buf := (kb_buf b)[kb_write b := x],
    kb_write := (kb_write b + 1) mod KEY_BUF_SIZE, kb_count := kb_count b + 1\<rparr>"
  have w: "kb_write b < length (kb_buf b)" "kb_write b = (kb_read b + kb_count b) mod KEY_BUF_SIZE"
    using assms by (auto simp: kb_inv_def KEY_BUF_SIZE_def)
  have old: "kb_write b \<noteq> (kb_read b + i) mod KEY_BUF_SIZE" if "i < kb_count b" for i
    using mod_add_inj [of "kb_count b" KEY_BUF_SIZE i "kb_read b"] that assms w(2) by auto
  have "kb_contents ?b = kb_contents b @ [x]"
    using old w by (auto simp: kb_contents_def nth_list_update)
  moreover have "kb_inv ?b"
    using assms by (auto simp: kb_inv_def mod_Suc_eq)
  ultimately show ?thesis using assms w by (simp add: push_def)
qed

lemma pop_contents:
  assumes "kb_inv b" "kb_contents b = x # xs"
  shows "\<exists>b'. pop b = Ret (Some x, b') \<and> kb_inv b' \<and> kb_contents b' = xs"
proof -
  obtain n where n: "kb_count b = Suc n"
    using assms(2) length_kb_contents [of b] by (cases "kb_count b") auto
  have r: "kb_read b < length (kb_buf b)" "kb_read b < KEY_BUF_SIZE"
    using assms(1) by (auto simp: kb_inv_def)
  let ?b = "b\<lparr>kb_read := (kb_read b + 1) mod KEY_BUF_SIZE, kb_count := kb_count b - 1\<rparr>"
  have "[0..<Suc n] = 0 # map Suc [0..<n]" by (simp add: map_Suc_upt upt_conv_Cons del: upt_Suc)
  then have "kb_contents b = kb_buf b ! kb_read b # kb_contents ?b"
    using r by (simp add: kb_contents_def n comp_def mod_simps del: upt_Suc)
  moreover have "kb_inv ?b"
    using assms(1) r n by (auto simp: kb_inv_def mod_simps)
  ultimately show ?thesis using assms(2) r n by (simp add: pop_def)
qed

interpretation key_fifo: bounded_fifo key_buffer_new push pop kb_contents kb_inv KEY_BUF_SIZE
proof unfold_locales
  fix q :: key_buffer and x :: u8
  assume q: "kb_inv q"
  show "\<exists>q'. push x q = Ret q' \<and> kb_inv q' \<and>
    kb_contents q' = (if length (kb_contents q) < KEY_BUF_SIZE then kb_contents q @ [x] else kb_contents q)"
    using q push_contents [OF q] by (cases "kb_count q < KEY_BUF_SIZE") (auto simp: push_def)
next
  fix q :: key_buffer
  assume "kb_inv q" "kb_contents q = []"
  then show "pop q = Ret (None, q)"
    using length_kb_contents [of q] by (simp add: pop_def)
qed (auto simp: kb_inv_new kb_contents_new pop_contents)

section \<open>What the readers get\<close>

text \<open>
  Claim C26.  Any sequence of pushes (by the interrupt handler) and pops (by the readers)
  on a fresh key buffer runs without an index panic and returns exactly what a list of
  capacity 256 returns: pops come out in the order of the accepted pushes, a push on a
  full buffer is dropped, and what was accepted is what was popped followed by what is
  still stored.
\<close>

theorem key_buffer_is_bounded_fifo:
  "\<exists>popped b acc. fifo_run push pop ops key_buffer_new = Ret (popped, b) \<and>
     list_run KEY_BUF_SIZE ops [] = (acc, popped, kb_contents b) \<and>
     acc = List.map_filter id popped @ kb_contents b \<and> kb_inv b"
proof -
  obtain b where b: "fifo_run push pop ops key_buffer_new =
      Ret (fst (snd (list_run KEY_BUF_SIZE ops [])), b)"
    "kb_inv b" "kb_contents b = snd (snd (list_run KEY_BUF_SIZE ops []))"
    using key_fifo.run_refines_list [OF kb_inv_new, of ops] by (auto simp: kb_contents_new)
  obtain acc popped rest where l: "list_run KEY_BUF_SIZE ops [] = (acc, popped, rest)"
    by (cases "list_run KEY_BUF_SIZE ops []") auto
  with b list_run_fifo [OF l] show ?thesis by auto
qed

lemma decode_scancode_buffer [simp]: "KEY_BUFFER (snd (decode_scancode K sc k)) = KEY_BUFFER k"
  by (simp add: decode_scancode_def split: prod.splits sum.splits option.splits decoded_key.splits)

lemma read_key_buffered:
  assumes "kb_inv (KEY_BUFFER k)" "kb_contents (KEY_BUFFER k) = c # cs"
  shows "\<exists>k'. read_key K status data k = Ret (Some c, k') \<and> kb_inv (KEY_BUFFER k') \<and>
    kb_contents (KEY_BUFFER k') = cs \<and> KEYBOARD k' = KEYBOARD k"
  using pop_contents [OF assms] by (auto simp: read_key_def try_read_char_def)

text \<open>A decoder in which every scancode is the character of the same code, for examples.\<close>

definition echo_decoder :: "(unit, u8, bool) pc_keyboard" where
  "echo_decoder = \<lparr>add_byte = (\<lambda>kb b. (Inr (Some b), kb)),
     process_keyevent = (\<lambda>kb b. (Some (Unicode (ucast b)), kb)),
     Backspace = True, Delete = False, debug_key = (\<lambda>_. [])\<rparr>"

definition idle_keyboard :: "unit keyboard" where
  "idle_keyboard = \<lparr>KEYBOARD = (), KEY_BUFFER = key_buffer_new, kbd_serial = []\<rparr>"

end
