(* ===== verification/Process_Table.thy ===== *)
theory Process_Table
  imports Prelude
begin

text \<open>
  The process control block and the global state of the process subsystem
  (\<open>kernel/src/process/mod.rs\<close>, and the statics of \<open>scheduler.rs\<close>), with its
  initialisation.  The operations on this state are in \<open>Signal\<close>, \<open>Scheduler\<close> and
  \<open>Process\<close>.
\<close>

section \<open>Process control blocks\<close>

datatype process_state = Ready | Running | Blocked | Zombie

datatype priority = Idle | Low | Normal | High | RealTime

text \<open>The discriminants of \<open>#[repr(u8)]\<close>, which the derived order compares.\<close>

fun priority_rank :: "priority \<Rightarrow> nat" where
  "priority_rank Idle = 0"
| "priority_rank Low = 1"
| "priority_rank Normal = 2"
| "priority_rank High = 3"
| "priority_rank RealTime = 4"

lemma priority_rank_inject [simp]: "priority_rank a = priority_rank b \<longleftrightarrow> a = b"
  by (cases a; cases b) auto

instantiation priority :: linorder
begin

definition less_eq_priority :: "priority \<Rightarrow> priority \<Rightarrow> bool" where
  "less_eq_priority a b \<longleftrightarrow> priority_rank a \<le> priority_rank b"

definition less_priority :: "priority \<Rightarrow> priority \<Rightarrow> bool" where
  "less_priority a b \<longleftrightarrow> priority_rank a < priority_rank b"

instance
  by standard (auto simp: less_eq_priority_def less_priority_def)

end

record process =
  pid :: u32
  parent_pid :: u32
  proc_name :: string
  proc_state :: process_state
  proc_priority :: priority
  kernel_rsp :: u64
  exit_code :: i32
  pending_signals :: u32

section \<open>The state of the process subsystem\<close>

text \<open>The statics of \<open>process\<close> and \<open>process::scheduler\<close>, and the lines logged on the serial port.\<close>

record procs =
  PROCESS_TABLE :: "process list"
  NEXT_PID :: u32
  CURRENT_PID :: u32
  TICK :: u64
  proc_log :: "string list"

text \<open>The statics as the kernel image initialises them.\<close>

definition procs_static :: procs where
  "procs_static = \<lparr>PROCESS_TABLE = [], NEXT_PID = 1, CURRENT_PID = 0, TICK = 0, proc_log = []\<rparr>"

definition process_new :: "string \<Rightarrow> u32 \<Rightarrow> procs \<Rightarrow> process \<times> procs" where
  "process_new nm parent s =
     (\<lparr>pid = NEXT_PID s, parent_pid = parent, proc_name = nm, proc_state = Ready,
       proc_priority = Normal, kernel_rsp = 0, exit_code = 0, pending_signals = 0\<rparr>,
      s\<lparr>NEXT_PID := NEXT_PID s + 1\<rparr>)"

definition scheduler_init :: "procs \<Rightarrow> procs" where
  "scheduler_init s = s\<lparr>TICK := 0, CURRENT_PID := 0\<rparr>"

definition idle_process :: process where
  "idle_process =
     \<lparr>pid = 0, parent_pid = 0, proc_name = ''idle'', proc_state = Running,
      proc_priority = Idle, kernel_rsp = 0, exit_code = 0, pending_signals = 0\<rparr>"

definition process_init :: "procs \<Rightarrow> procs" where
  "process_init s =
     (let s1 = s\<lparr>PROCESS_TABLE := PROCESS_TABLE s @ [idle_process]\<rparr>;
          (init_proc, s2) = process_new ''init'' 0 s1;
          s3 = s2\<lparr>PROCESS_TABLE := PROCESS_TABLE s2 @ [init_proc]\<rparr>
      in scheduler_init s3)"

text \<open>The state after boot.\<close>

definition boot_procs :: procs where
  "boot_procs = process_init procs_static"

section \<open>Looking processes up\<close>

abbreviation has_pid :: "u32 \<Rightarrow> process \<Rightarrow> bool" where
  "has_pid q p \<equiv> pid p = q"

abbreviation find_pid :: "u32 \<Rightarrow> procs \<Rightarrow> process option" where
  "find_pid q s \<equiv> List.find (has_pid q) (PROCESS_TABLE s)"

definition pids :: "procs \<Rightarrow> u32 list" where
  "pids s = map pid (PROCESS_TABLE s)"

lemma find_pid_None: "find_pid q s = None \<longleftrightarrow> q \<notin> set (pids s)"
  by (auto simp: pids_def find_None_iff)

lemma boot_procs_eq:
  "boot_procs = \<lparr>PROCESS_TABLE =
      [idle_process,
       \<lparr>pid = 1, parent_pid = 0, proc_name = ''init'', proc_state = Ready,
        proc_priority = Normal, kernel_rsp = 0, exit_code = 0, pending_signals = 0\<rparr>],
      NEXT_PID = 2, CURRENT_PID = 0, TICK = 0, proc_log = []\<rparr>"
  by (simp add: boot_procs_def process_init_def procs_static_def process_new_def scheduler_init_def)

end
