(* ===== verification/Signal.thy ===== *)
theory Signal
  imports Process_Table
begin

text \<open>
  Signals (\<open>kernel/src/process/signal.rs\<close>): \<open>kill\<close> records a signal in the target's
  pending mask, \<open>dispatch_signals\<close> applies the default actions to one process.
\<close>

section \<open>Signal numbers\<close>

definition SIGHUP :: u8 where "SIGHUP = 1"
definition SIGINT :: u8 where "SIGINT = 2"
definition SIGQUIT :: u8 where "SIGQUIT = 3"
definition SIGILL :: u8 where "SIGILL = 4"
definition SIGTRAP :: u8 where "SIGTRAP = 5"
definition SIGABRT :: u8 where "SIGABRT = 6"
definition SIGFPE :: u8 where "SIGFPE = 8"
definition SIGKILL :: u8 where "SIGKILL = 9"
definition SIGSEGV :: u8 where "SIGSEGV = 11"
definition SIGPIPE :: u8 where "SIGPIPE = 13"
definition SIGALRM :: u8 where "SIGALRM = 14"
definition SIGTERM :: u8 where "SIGTERM = 15"
definition SIGCHLD :: u8 where "SIGCHLD = 17"
definition SIGSTOP :: u8 where "SIGSTOP = 19"
definition SIGCONT :: u8 where "SIGCONT = 18"

lemmas signal_numbers = SIGHUP_def SIGINT_def SIGQUIT_def SIGILL_def SIGTRAP_def SIGABRT_def
  SIGFPE_def SIGKILL_def SIGSEGV_def SIGPIPE_def SIGALRM_def SIGTERM_def SIGCHLD_def SIGSTOP_def
  SIGCONT_def

datatype sig_action = Default | Ignore | Handler u64

section \<open>Sending and dispatching\<close>

text \<open>\<open>1u32 << sig\<close>, for the shift amounts below 32 that the callers ensure.\<close>

definition sig_bit :: "u8 \<Rightarrow> u32" where
  "sig_bit sig = push_bit (unat sig) 1"

definition kill :: "u32 \<Rightarrow> u8 \<Rightarrow> procs \<Rightarrow> (string + unit) \<times> procs" where
  "kill q sig s =
     (if 31 < sig then (Inl ''kill: invalid signal'', s)
      else case find_pid q s of
        Some _ \<Rightarrow>
          (Inr (),
           s\<lparr>PROCESS_TABLE := update_first (has_pid q)
               (\<lambda>p. if sig \<noteq> 0 then p\<lparr>pending_signals := pending_signals p OR sig_bit sig\<rparr> else p)
               (PROCESS_TABLE s)\<rparr>)
      | None \<Rightarrow> (Inl ''kill: process not found'', s))"

definition terminating_sig :: "u32 \<Rightarrow> u8 option" where
  "terminating_sig pending =
     (if pending AND sig_bit SIGKILL \<noteq> 0 then Some SIGKILL
      else if pending AND sig_bit SIGTERM \<noteq> 0 then Some SIGTERM
      else if pending AND sig_bit SIGINT \<noteq> 0 then Some SIGINT
      else if pending AND sig_bit SIGQUIT \<noteq> 0 then Some SIGQUIT
      else None)"

definition deliver :: "process \<Rightarrow> process" where
  "deliver p =
     (if pending_signals p = 0 then p
      else case terminating_sig (pending_signals p) of
        Some sig \<Rightarrow> p\<lparr>proc_state := Zombie, exit_code := 128 + ucast sig, pending_signals := 0\<rparr>
      | None \<Rightarrow> p\<lparr>pending_signals := 0\<rparr>)"

definition dispatch_signals :: "u32 \<Rightarrow> procs \<Rightarrow> procs" where
  "dispatch_signals q s = s\<lparr>PROCESS_TABLE := update_first (has_pid q) deliver (PROCESS_TABLE s)\<rparr>"

section \<open>Properties of delivery\<close>

lemma and_sig_bit_eq_0: "unat sig < 32 \<Longrightarrow> w AND sig_bit sig = 0 \<longleftrightarrow> \<not> bit w (unat sig)"
  by (simp add: sig_bit_def and_exp_eq_0_iff_not_bit push_bit_eq_mult)

lemma bit_sig_bit: "bit (sig_bit sig) n \<longleftrightarrow> n = unat sig \<and> n < 32"
  by (auto simp: sig_bit_def push_bit_eq_mult bit_exp_iff)

lemma deliver_fields [simp]:
  "pid (deliver p) = pid p" "parent_pid (deliver p) = parent_pid p"
  "proc_name (deliver p) = proc_name p" "pending_signals (deliver p) = 0"
  by (simp_all add: deliver_def split: option.splits)

lemma deliver_no_signal: "pending_signals p = 0 \<Longrightarrow> deliver p = p"
  by (simp add: deliver_def)

lemma dispatch_frame [simp]:
  "NEXT_PID (dispatch_signals q s) = NEXT_PID s"
  "CURRENT_PID (dispatch_signals q s) = CURRENT_PID s"
  "TICK (dispatch_signals q s) = TICK s" "proc_log (dispatch_signals q s) = proc_log s"
  "pids (dispatch_signals q s) = pids s"
  by (simp_all add: dispatch_signals_def pids_def map_update_first)

lemma find_pid_dispatch:
  "find_pid r (dispatch_signals q s) =
     (if r = q then map_option deliver (find_pid r s) else find_pid r s)"
  using find_update_first_key [of pid deliver r q] by (simp add: dispatch_signals_def)

text \<open>The signals whose default action terminates, in the order \<open>dispatch_signals\<close> prefers them.\<close>

definition terminating_signals :: "u8 list" where
  "terminating_signals = [SIGKILL, SIGTERM, SIGINT, SIGQUIT]"

lemma terminating_sig_eq:
  "terminating_sig w = List.find (\<lambda>g. bit w (unat g)) terminating_signals"
  by (simp add: terminating_sig_def terminating_signals_def and_sig_bit_eq_0 signal_numbers)

lemma deliver_eq:
  "pending_signals p \<noteq> 0 \<Longrightarrow> deliver p =
     (case List.find (\<lambda>g. bit (pending_signals p) (unat g)) terminating_signals of
        Some g \<Rightarrow> p\<lparr>proc_state := Zombie, exit_code := 128 + ucast g, pending_signals := 0\<rparr>
      | None \<Rightarrow> p\<lparr>pending_signals := 0\<rparr>)"
  by (simp add: deliver_def terminating_sig_eq)

lemma kill_ok:
  assumes "find_pid q s = Some p" "sig \<le> 31" "sig \<noteq> 0"
  shows "fst (kill q sig s) = Inr ()"
    and "find_pid q (snd (kill q sig s)) =
      Some (p\<lparr>pending_signals := pending_signals p OR sig_bit sig\<rparr>)"
    and "r \<noteq> q \<Longrightarrow> find_pid r (snd (kill q sig s)) = find_pid r s"
  using assms
  by (auto simp: kill_def find_update_first_key [of pid] simp flip: not_le)

lemma kill_frame [simp]:
  "NEXT_PID (snd (kill q sig s)) = NEXT_PID s" "CURRENT_PID (snd (kill q sig s)) = CURRENT_PID s"
  "TICK (snd (kill q sig s)) = TICK s" "pids (snd (kill q sig s)) = pids s"
  by (simp_all add: kill_def pids_def map_update_first split: option.splits)

text \<open>
  Claim C16.  Sending a signal between 1 and 31 to an existing process and then dispatching
  that process's signals applies the default action: if the signal, or one already
  pending, is SIGKILL, SIGTERM, SIGINT or SIGQUIT, the process becomes a zombie whose exit
  code is 128 plus the first of those in that order; any other signal is discarded.  The
  pending mask is then empty and no other process has changed.
\<close>

theorem kill_dispatch_default_action:
  assumes "find_pid q s = Some p" and "0 < sig" and "sig \<le> 31"
  shows "fst (kill q sig s) = Inr () \<and>
    find_pid q (dispatch_signals q (snd (kill q sig s))) =
      Some (case List.find (\<lambda>g. g = sig \<or> bit (pending_signals p) (unat g)) terminating_signals of
          Some g \<Rightarrow> p\<lparr>proc_state := Zombie, exit_code := 128 + ucast g, pending_signals := 0\<rparr>
        | None \<Rightarrow> p\<lparr>pending_signals := 0\<rparr>) \<and>
    (\<forall>r. r \<noteq> q \<longrightarrow> find_pid r (dispatch_signals q (snd (kill q sig s))) = find_pid r s)"
proof -
  let ?p = "p\<lparr>pending_signals := pending_signals p OR sig_bit sig\<rparr>"
  have sig: "sig \<noteq> 0" "unat sig < 32" using assms(2,3) by (auto simp: word_le_nat_alt)
  note k = kill_ok [OF assms(1,3) sig(1)]
  have b: "bit (pending_signals ?p) (unat g) \<longleftrightarrow> g = sig \<or> bit (pending_signals p) (unat g)" for g
    using sig by (auto simp: bit_or_iff bit_sig_bit word_unat_eq_iff)
  have "bit (pending_signals ?p) (unat sig)" using b by simp
  then have "pending_signals ?p \<noteq> 0" by (metis bit_0_eq bot_apply bot_bool_def)
  then have "deliver ?p = (case List.find (\<lambda>g. g = sig \<or> bit (pending_signals p) (unat g)) terminating_signals of
          Some g \<Rightarrow> p\<lparr>proc_state := Zombie, exit_code := 128 + ucast g, pending_signals := 0\<rparr>
        | None \<Rightarrow> p\<lparr>pending_signals := 0\<rparr>)"
    unfolding deliver_eq [OF \<open>pending_signals ?p \<noteq> 0\<close>] b by (simp split: option.splits)
  with k show ?thesis by (simp add: find_pid_dispatch)
qed

theorem kill_dispatch_default_action_witness:
  "fst (kill 1 SIGTERM boot_procs) = Inr () \<and>
   map_option proc_state (find_pid 1 (dispatch_signals 1 (snd (kill 1 SIGTERM boot_procs)))) = Some Zombie \<and>
   map_option exit_code (find_pid 1 (dispatch_signals 1 (snd (kill 1 SIGTERM boot_procs)))) = Some 143"
  using kill_dispatch_default_action [of 1 boot_procs _ SIGTERM]
  by (simp add: boot_procs_eq idle_process_def terminating_signals_def signal_numbers)

end
