(* ===== verification/Scheduler.thy ===== *)
theory Scheduler
  imports Signal
begin

text \<open>
  The round-robin scheduler (\<open>kernel/src/process/scheduler.rs\<close>): the tick counter, the
  current PID, the scan for the next runnable process, and the timer tick.  The lemmas
  show that the scan is the first runnable process after the current one in cyclic
  order, and that every runnable process gets the processor.
\<close>

section \<open>Operations\<close>

definition TIMESLICE :: u64 where
  "TIMESLICE = 10"

definition ticks :: "procs \<Rightarrow> u64" where
  "ticks s = TICK s"

definition current_pid :: "procs \<Rightarrow> u32" where
  "current_pid s = CURRENT_PID s"

definition runnable :: "process \<Rightarrow> bool" where
  "runnable p \<longleftrightarrow> proc_state p = Ready \<or> proc_state p = Running"

text \<open>The loop \<open>for i in 1..=n\<close> over the slots after \<open>start\<close>: the PID it stores, if any.\<close>

fun schedule_scan :: "process list \<Rightarrow> nat \<Rightarrow> nat list \<Rightarrow> u32 option" where
  "schedule_scan table start [] = None"
| "schedule_scan table start (i # is) =
     (let idx = (start + i) mod length table
      in if runnable (table ! idx) then Some (pid (table ! idx)) else schedule_scan table start is)"

definition schedule :: "procs \<Rightarrow> procs" where
  "schedule s =
     (let table = PROCESS_TABLE s; current = CURRENT_PID s; n = length table
      in if n = 0 then s\<lparr>CURRENT_PID := 0\<rparr>
         else
           let (start, s1) =
                 (case position (has_pid current) table of
                    Some idx \<Rightarrow> (idx, s)
                  | None \<Rightarrow> (0, s\<lparr>proc_log := proc_log s @
                      [''[SCHED] current PID '' @ show_nat (unat current) @ '' not found; restarting from slot 0'']\<rparr>))
           in case schedule_scan table start [1..<Suc n] of
                Some q \<Rightarrow> s1\<lparr>CURRENT_PID := q\<rparr>
              | None \<Rightarrow> s1)"

definition force_schedule :: "procs \<Rightarrow> procs" where
  "force_schedule s = schedule s"

definition tick :: "profile \<Rightarrow> procs \<Rightarrow> procs outcome" where
  "tick prof s =
     obind (arith_add prof (TICK s) 1)
       (\<lambda>t. let s1 = s\<lparr>TICK := TICK s + 1\<rparr>;
                s2 = dispatch_signals (current_pid s1) s1
            in Ret (if t mod TIMESLICE = 0 then schedule s2 else s2))"

text \<open>\<open>n\<close> consecutive timer ticks.\<close>

fun run_ticks :: "profile \<Rightarrow> nat \<Rightarrow> procs \<Rightarrow> procs outcome" where
  "run_ticks prof 0 s = Ret s"
| "run_ticks prof (Suc n) s = obind (tick prof s) (run_ticks prof n)"

section \<open>The scan\<close>

text \<open>The slot the scan starts after: the current process's, or 0 when it is not in the table.\<close>

definition start_slot :: "procs \<Rightarrow> nat" where
  "start_slot s = (case position (has_pid (CURRENT_PID s)) (PROCESS_TABLE s) of Some i \<Rightarrow> i | None \<Rightarrow> 0)"

lemma start_slot_less: "PROCESS_TABLE s \<noteq> [] \<Longrightarrow> start_slot s < length (PROCESS_TABLE s)"
  by (auto simp: start_slot_def position_eq_Some split: option.splits)

lemma start_slot_current:
  assumes "distinct (pids s)" "i < length (PROCESS_TABLE s)" "CURRENT_PID s = pid (PROCESS_TABLE s ! i)"
  shows "start_slot s = i"
proof -
  have "position (has_pid (CURRENT_PID s)) (PROCESS_TABLE s) = Some i"
    using assms nth_eq_iff_index_eq [of "map pid (PROCESS_TABLE s)"]
    by (fastforce simp: position_eq_Some pids_def)
  then show ?thesis by (simp add: start_slot_def)
qed

lemma schedule_frame [simp]:
  "PROCESS_TABLE (schedule s) = PROCESS_TABLE s" "NEXT_PID (schedule s) = NEXT_PID s"
  "TICK (schedule s) = TICK s" "pids (schedule s) = pids s"
  by (auto simp: schedule_def Let_def pids_def split: option.splits prod.splits)

lemma schedule_scan_eq_find:
  "schedule_scan t c is = map_option pid (List.find runnable (map (\<lambda>i. t ! ((c + i) mod length t)) is))"
  by (induction "is") (auto simp: Let_def)

lemma CURRENT_PID_schedule:
  assumes "PROCESS_TABLE s \<noteq> []"
  shows "CURRENT_PID (schedule s) =
    (case schedule_scan (PROCESS_TABLE s) (start_slot s) [1..<Suc (length (PROCESS_TABLE s))] of
       Some q \<Rightarrow> q | None \<Rightarrow> CURRENT_PID s)"
  using assms
  by (auto simp: schedule_def start_slot_def Let_def simp del: upt_Suc split: option.splits prod.splits)

lemma scan_slots: "map (\<lambda>i. t ! ((c + i) mod length t)) [1..<Suc (length t)] = rotate (Suc c) t"
  by (rule nth_equalityI) (auto simp: nth_rotate mod_simps add_ac simp del: upt_Suc rotate_Suc)

text \<open>
  Claim C7.  The scheduler's scan is round robin: on a non-empty table it selects the
  first runnable process of the table rotated to start just after the current slot (slot
  0 when the current PID is not in the table), wrapping around to the current process
  last; a zombie or blocked process is never selected, and when nothing is runnable the
  current PID stays.
\<close>

theorem schedule_round_robin:
  assumes "PROCESS_TABLE s \<noteq> []"
  shows "CURRENT_PID (schedule s) =
    (case List.find runnable (rotate (Suc (start_slot s)) (PROCESS_TABLE s)) of
       Some p \<Rightarrow> pid p | None \<Rightarrow> CURRENT_PID s)"
  unfolding CURRENT_PID_schedule [OF assms] schedule_scan_eq_find scan_slots
  by (simp split: option.splits del: rotate_Suc)

theorem schedule_round_robin_witness:
  "CURRENT_PID (schedule boot_procs) = 1"
  using schedule_round_robin [of boot_procs]
  by (simp add: boot_procs_eq idle_process_def start_slot_def runnable_def)

section \<open>Fairness\<close>

lemma schedule_scan_skip:
  "\<forall>i \<in> set is. \<not> runnable (t ! ((c + i) mod length t)) \<Longrightarrow>
    schedule_scan t c (is @ js) = schedule_scan t c js"
  by (induction "is") (auto simp: Let_def)

lemma schedule_scan_first:
  assumes "runnable (t ! ((c + d) mod length t))" "1 \<le> d" "d \<le> length t"
  obtains i where "1 \<le> i" "i \<le> d" "runnable (t ! ((c + i) mod length t))"
    "schedule_scan t c [1..<Suc (length t)] = Some (pid (t ! ((c + i) mod length t)))"
proof -
  let ?P = "\<lambda>i. 1 \<le> i \<and> runnable (t ! ((c + i) mod length t))"
  define i where "i = (LEAST i. ?P i)"
  have d: "?P d" using assms by simp
  have i: "?P i" "i \<le> d" "\<And>j. j < i \<Longrightarrow> \<not> ?P j"
    unfolding i_def by (rule LeastI [of ?P, OF d], rule Least_le [of ?P, OF d], rule not_less_Least)
  have "[1..<Suc (length t)] = [1..<i] @ i # [Suc i..<Suc (length t)]"
    using i(1,2) assms(3) upt_add_eq_append [of 1 i "Suc (length t) - i"] upt_conv_Cons [of i "Suc (length t)"]
    by simp
  moreover have "schedule_scan t c ([1..<i] @ js) = schedule_scan t c js" for js
    using i(3) by (intro schedule_scan_skip) auto
  ultimately have "schedule_scan t c [1..<Suc (length t)] = Some (pid (t ! ((c + i) mod length t)))"
    using i(1) by (simp add: Let_def)
  with i that show thesis by blast
qed

lemma schedule_reaches:
  assumes "distinct (pids s)" "runnable (PROCESS_TABLE s ! ((start_slot s + d) mod length (PROCESS_TABLE s)))"
    and "1 \<le> d" "d \<le> length (PROCESS_TABLE s)"
  shows "\<exists>k \<ge> 1. k \<le> d \<and> CURRENT_PID ((schedule ^^ k) s) =
    pid (PROCESS_TABLE s ! ((start_slot s + d) mod length (PROCESS_TABLE s)))"
  using assms
proof (induction d arbitrary: s rule: less_induct)
  case (less d)
  let ?t = "PROCESS_TABLE s" and ?n = "length (PROCESS_TABLE s)" and ?c = "start_slot s"
  from schedule_scan_first [OF less.prems(2-4)] obtain i where i: "1 \<le> i" "i \<le> d"
    "runnable (?t ! ((?c + i) mod ?n))"
    "schedule_scan ?t ?c [1..<Suc ?n] = Some (pid (?t ! ((?c + i) mod ?n)))" .
  have n: "?n \<noteq> 0" using less.prems(3,4) by linarith
  have cur: "CURRENT_PID (schedule s) = pid (?t ! ((?c + i) mod ?n))"
    using n i(4) CURRENT_PID_schedule [of s] by auto
  show ?case
  proof (cases "i = d")
    case True
    with cur less.prems(3) show ?thesis by (intro exI [of _ 1]) auto
  next
    case False
    have c': "start_slot (schedule s) = (?c + i) mod ?n"
      using start_slot_current [of "schedule s" "(?c + i) mod ?n"] less.prems(1) n cur by simp
    have slot: "((?c + i) mod ?n + (d - i)) mod ?n = (?c + d) mod ?n"
      using i(2) mod_add_left_eq [of "?c + i" ?n "d - i"] by simp
    have di: "d - i < d" "1 \<le> d - i" "d - i \<le> ?n" using i(1,2) False less.prems(4) by linarith+
    obtain k where "k \<ge> 1" "k \<le> d - i" "CURRENT_PID ((schedule ^^ k) (schedule s)) =
        pid (?t ! ((?c + d) mod ?n))"
      using less.IH [of "d - i" "schedule s", unfolded c' schedule_frame slot, OF di(1) less.prems(1,2) di(2,3)] by auto
    then show ?thesis using i by (intro exI [of _ "Suc k"]) (auto simp: funpow_Suc_right simp del: funpow.simps)
  qed
qed

text \<open>From any slot, every index of the table is at a cyclic distance between 1 and its length.\<close>

lemma cyclic_distance:
  assumes "c < n" "j < (n::nat)"
  obtains d where "1 \<le> d" "d \<le> n" "(c + d) mod n = j"
proof (cases "c < j")
  case True
  with assms that [of "j - c"] show thesis by auto
next
  case False
  with assms that [of "n + j - c"] show thesis by auto
qed

lemma schedule_fair:
  assumes "distinct (pids s)" "p \<in> set (PROCESS_TABLE s)" "runnable p"
  shows "\<exists>k \<ge> 1. k \<le> length (PROCESS_TABLE s) \<and> CURRENT_PID ((schedule ^^ k) s) = pid p"
proof -
  obtain j where j: "j < length (PROCESS_TABLE s)" "PROCESS_TABLE s ! j = p"
    using assms(2) by (auto simp: in_set_conv_nth)
  then have "start_slot s < length (PROCESS_TABLE s)" by (intro start_slot_less) auto
  from cyclic_distance [OF this j(1)] obtain d where
    d: "1 \<le> d" "d \<le> length (PROCESS_TABLE s)" "(start_slot s + d) mod length (PROCESS_TABLE s) = j" .
  with schedule_reaches [OF assms(1) _ d(1,2)] assms(3) j(2) show ?thesis by fastforce
qed

section \<open>Timer ticks\<close>

definition no_signals :: "procs \<Rightarrow> bool" where
  "no_signals s \<longleftrightarrow> (\<forall>p \<in> set (PROCESS_TABLE s). pending_signals p = 0)"

lemma dispatch_no_signals: "no_signals s \<Longrightarrow> dispatch_signals q s = s"
proof -
  have "\<forall>p \<in> set t. pending_signals p = 0 \<Longrightarrow> update_first (has_pid q) deliver t = t" for t
    by (induction t) (auto simp: deliver_no_signal)
  then show "no_signals s \<Longrightarrow> ?thesis" by (simp add: no_signals_def dispatch_signals_def)
qed

lemma no_signals_frame [simp]:
  "no_signals (schedule s) = no_signals s" "no_signals (s\<lparr>TICK := n\<rparr>) = no_signals s"
  "pids (s\<lparr>TICK := n\<rparr>) = pids s"
  by (simp_all add: no_signals_def pids_def)

lemma schedule_TICK: "schedule (s\<lparr>TICK := n\<rparr>) = (schedule s)\<lparr>TICK := n\<rparr>"
  by (auto simp: schedule_def Let_def split: option.splits prod.splits)

lemma tick_quiet:
  assumes "no_signals s" "unat (TICK s) + 1 < 2 ^ 64"
  shows "tick prof s =
    Ret (if (unat (TICK s) + 1) mod 10 = 0 then schedule (s\<lparr>TICK := TICK s + 1\<rparr>) else s\<lparr>TICK := TICK s + 1\<rparr>)"
proof -
  have "unat (TICK s + 1) = unat (TICK s) + 1"
    using assms(2) by (simp add: unat_add_lem [THEN iffD1])
  then have "(TICK s + 1) mod TIMESLICE = 0 \<longleftrightarrow> (unat (TICK s) + 1) mod 10 = 0"
    by (simp add: TIMESLICE_def word_unat_eq_iff unat_mod)
  moreover have "arith_add prof (TICK s) 1 = Ret (TICK s + 1)"
    using assms(2) by (intro arith_add_ok) simp
  ultimately show ?thesis
    using assms(1) by (simp add: tick_def current_pid_def dispatch_no_signals Let_def)
qed

text \<open>The ticks up to the next end of a time slice end in exactly one scheduling decision.\<close>

lemma run_ticks_to_slice:
  assumes "no_signals s" "unat (TICK s) + n < 2 ^ 64" "0 < n" "n \<le> 10" "(unat (TICK s) + n) mod 10 = 0"
  shows "run_ticks prof n s = Ret (schedule (s\<lparr>TICK := TICK s + of_nat n\<rparr>))"
  using assms
proof (induction n arbitrary: s)
  case 0
  then show ?case by simp
next
  case (Suc n)
  have t1: "unat (TICK s + 1) = unat (TICK s) + 1"
    using Suc.prems(2) by (simp add: unat_add_lem [THEN iffD1])
  show ?case
  proof (cases "n = 0")
    case True
    then show ?thesis using Suc.prems by (simp add: tick_quiet)
  next
    case False
    then have "(unat (TICK s) + 1) mod 10 \<noteq> 0" using Suc.prems(4,5) by presburger
    then have "run_ticks prof (Suc n) s = run_ticks prof n (s\<lparr>TICK := TICK s + 1\<rparr>)"
      using Suc.prems by (simp add: tick_quiet)
    also have "\<dots> = Ret (schedule (s\<lparr>TICK := TICK s + 1\<rparr>\<lparr>TICK := TICK s + 1 + of_nat n\<rparr>))"
      using Suc.IH [of "s\<lparr>TICK := TICK s + 1\<rparr>"] Suc.prems False by (simp add: t1)
    finally show ?thesis by (simp add: add.assoc)
  qed
qed

lemma run_ticks_add: "run_ticks prof (m + n) s = obind (run_ticks prof m s) (run_ticks prof n)"
proof (induction m arbitrary: s)
  case (Suc m)
  then show ?case by (cases "tick prof s") auto
qed simp

lemma run_ticks_schedules:
  assumes "no_signals s" "unat (TICK s) + 10 * k < 2 ^ 64"
  shows "\<exists>m \<le> 10 * k. \<exists>t. run_ticks prof m s = Ret ((schedule ^^ k) s\<lparr>TICK := t\<rparr>)"
  using assms
proof (induction k arbitrary: s)
  case 0
  show ?case by (intro exI [of _ 0] conjI exI [of _ "TICK s"]) auto
next
  case (Suc k)
  define n where "n = 10 - unat (TICK s) mod 10"
  have n: "0 < n" "n \<le> 10" "(unat (TICK s) + n) mod 10 = 0" unfolding n_def by presburger+
  define s1 where "s1 = schedule (s\<lparr>TICK := TICK s + of_nat n\<rparr>)"
  have run: "run_ticks prof n s = Ret s1"
    using run_ticks_to_slice [OF Suc.prems(1) _ n] Suc.prems(2) n(2) by (simp add: s1_def)
  have "unat (TICK s + of_nat n) = unat (TICK s) + n"
    using n(2) Suc.prems(2) by (simp add: unat_add_lem [THEN iffD1] unat_of_nat)
  then have "unat (TICK s1) + 10 * k < 2 ^ 64" "no_signals s1"
    using Suc.prems n(2) by (simp_all add: s1_def)
  with Suc.IH obtain m t where m: "m \<le> 10 * k" "run_ticks prof m s1 = Ret ((schedule ^^ k) s1\<lparr>TICK := t\<rparr>)"
    by blast
  have "(schedule ^^ k) (schedule s\<lparr>TICK := x\<rparr>) = (schedule ^^ k) (schedule s)\<lparr>TICK := x\<rparr>" for x
    by (induction k) (auto simp: schedule_TICK)
  then have "run_ticks prof (n + m) s = Ret ((schedule ^^ Suc k) s\<lparr>TICK := t\<rparr>)"
    using m(2) run by (simp add: run_ticks_add s1_def schedule_TICK funpow_swap1)
  with m(1) n(2) show ?case by (intro exI [of _ "n + m"]) auto
qed

text \<open>
  Claim C8.  No runnable process starves: while no signal is pending and the tick counter
  does not reach its 64-bit limit, every Ready or Running process of a table with distinct
  PIDs becomes the current process within one time slice (10 timer ticks) per process in
  the table, and the ticks up to then do not panic in either build profile.
\<close>

theorem tick_starvation_free:
  assumes "distinct (pids s)" and "no_signals s"
    and "p \<in> set (PROCESS_TABLE s)" and "runnable p"
    and "unat (TICK s) + 10 * length (PROCESS_TABLE s) < 2 ^ 64"
  shows "\<exists>m \<le> 10 * length (PROCESS_TABLE s). \<exists>s'.
    run_ticks prof m s = Ret s' \<and> CURRENT_PID s' = pid p \<and> PROCESS_TABLE s' = PROCESS_TABLE s"
proof -
  obtain k where k: "k \<le> length (PROCESS_TABLE s)" "CURRENT_PID ((schedule ^^ k) s) = pid p"
    using schedule_fair [OF assms(1,3,4)] by blast
  have "unat (TICK s) + 10 * k < 2 ^ 64" using assms(5) k(1) by linarith
  with run_ticks_schedules [OF assms(2)] obtain m t where
    m: "m \<le> 10 * k" "run_ticks prof m s = Ret ((schedule ^^ k) s\<lparr>TICK := t\<rparr>)" by blast
  have "PROCESS_TABLE ((schedule ^^ k) s) = PROCESS_TABLE s" by (induction k) auto
  with m k show ?thesis by (intro exI [of _ m]) auto
qed

theorem tick_starvation_free_witness:
  "\<exists>m \<le> 20. \<exists>s'. run_ticks Dev m boot_procs = Ret s' \<and> CURRENT_PID s' = 1 \<and>
     PROCESS_TABLE s' = PROCESS_TABLE boot_procs"
proof -
  let ?init = "PROCESS_TABLE boot_procs ! 1"
  have "distinct (pids boot_procs)" "no_signals boot_procs" "?init \<in> set (PROCESS_TABLE boot_procs)"
    "runnable ?init" "pid ?init = 1" "length (PROCESS_TABLE boot_procs) = 2" "TICK boot_procs = 0"
    by (simp_all add: boot_procs_eq idle_process_def pids_def no_signals_def runnable_def)
  with tick_starvation_free [of boot_procs ?init Dev] show ?thesis by simp
qed

end
