(* ===== verification/Process.thy ===== *)
theory Process
  imports Scheduler
begin

text \<open>
  Process lifecycle (\<open>kernel/src/process/mod.rs\<close>): \<open>fork\<close>, \<open>execve\<close>, \<open>exit\<close>,
  \<open>waitpid\<close> and the queries.  Each body that the source runs inside
  \<open>without_interrupts\<close> with the table locked is one definition; \<open>exit\<close> and \<open>waitpid\<close>,
  which leave the critical section in between, are composed from them.
\<close>

section \<open>Operations\<close>

definition getpid :: "procs \<Rightarrow> u32" where
  "getpid s = current_pid s"

definition fork :: "procs \<Rightarrow> (string + u32) \<times> procs" where
  "fork s =
     (case find_pid (current_pid s) s of
        None \<Rightarrow> (Inl ''fork: current process not found'', s)
      | Some parent \<Rightarrow>
          let child = \<lparr>pid = NEXT_PID s, parent_pid = pid parent, proc_name = proc_name parent,
                       proc_state = Ready, proc_priority = proc_priority parent,
                       kernel_rsp = kernel_rsp parent, exit_code = 0, pending_signals = 0\<rparr>
          in (Inr (pid child),
              s\<lparr>NEXT_PID := NEXT_PID s + 1, PROCESS_TABLE := PROCESS_TABLE s @ [child]\<rparr>))"

text \<open>\<open>path.rsplit('/').next()\<close>: what follows the last slash.\<close>

definition rsplit_slash_next :: "string \<Rightarrow> string" where
  "rsplit_slash_next path = rev (takeWhile (\<lambda>c. c \<noteq> CHR ''/'') (rev path))"

definition execve :: "string \<Rightarrow> procs \<Rightarrow> (string + unit) \<times> procs" where
  "execve path s =
     (case find_pid (current_pid s) s of
        None \<Rightarrow> (Inl ''execve: current process not found'', s)
      | Some _ \<Rightarrow>
          (Inr (),
           s\<lparr>PROCESS_TABLE := update_first (has_pid (current_pid s))
               (\<lambda>p. p\<lparr>proc_name := rsplit_slash_next path, pending_signals := 0\<rparr>)
               (PROCESS_TABLE s)\<rparr>))"

text \<open>The critical section of \<open>exit\<close>: the caller becomes a zombie, its children go to init.\<close>

definition exit_mark :: "i32 \<Rightarrow> procs \<Rightarrow> procs" where
  "exit_mark code s =
     (let t1 = update_first (has_pid (current_pid s))
                 (\<lambda>p. p\<lparr>proc_state := Zombie, exit_code := code\<rparr>) (PROCESS_TABLE s);
          t2 = map (\<lambda>child. if parent_pid child = current_pid s then child\<lparr>parent_pid := 1\<rparr> else child) t1
      in s\<lparr>PROCESS_TABLE := t2\<rparr>)"

text \<open>\<open>exit\<close> up to its final \<open>loop { hlt() }\<close>, which never returns.\<close>

definition exit :: "i32 \<Rightarrow> procs \<Rightarrow> procs" where
  "exit code s =
     (let s1 = exit_mark code s;
          s2 = s1\<lparr>proc_log := proc_log s1 @
                 [''[PROC] pid '' @ show_nat (unat (getpid s1)) @ '' exiting with code '' @ show_int (sint code)]\<rparr>
      in force_schedule s2)"

definition current_is_zombie :: "procs \<Rightarrow> bool" where
  "current_is_zombie s =
     (case find_pid (current_pid s) s of Some p \<Rightarrow> proc_state p = Zombie | None \<Rightarrow> False)"

text \<open>\<open>target.map_or(true, |wanted| p.pid == wanted)\<close>\<close>

definition wanted :: "u32 option \<Rightarrow> process \<Rightarrow> bool" where
  "wanted target p = (case target of None \<Rightarrow> True | Some q \<Rightarrow> pid p = q)"

text \<open>One pass of the \<open>waitpid\<close> loop's critical section.\<close>

definition waitpid_once :: "u32 option \<Rightarrow> procs \<Rightarrow> (string + (u32 \<times> i32) option) \<times> procs" where
  "waitpid_once target s =
     (let table = PROCESS_TABLE s; cur = current_pid s
      in if \<not> list_ex (\<lambda>p. parent_pid p = cur \<and> wanted target p) table
         then (Inl ''waitpid: no child'', s)
         else case position (\<lambda>p. parent_pid p = cur \<and> proc_state p = Zombie \<and> wanted target p) table of
             Some idx \<Rightarrow>
               (Inr (Some (pid (table ! idx), exit_code (table ! idx))),
                s\<lparr>PROCESS_TABLE := remove_at idx table\<rparr>)
           | None \<Rightarrow> (Inr None, s))"

text \<open>
  The interrupts that end one \<open>hlt\<close>: a timer tick, or one that does not touch the
  process subsystem.
\<close>

datatype irq = Timer_Irq | Other_Irq

fun take_irqs :: "profile \<Rightarrow> irq list \<Rightarrow> procs \<Rightarrow> procs outcome" where
  "take_irqs prof [] s = Ret s"
| "take_irqs prof (Timer_Irq # is) s = obind (tick prof s) (take_irqs prof is)"
| "take_irqs prof (Other_Irq # is) s = take_irqs prof is s"

text \<open>
  The \<open>waitpid\<close> loop.  Each element of the environment lists the interrupts taken during
  one \<open>hlt\<close>; \<open>None\<close> means the caller is still waiting when the environment ends.
\<close>

fun waitpid :: "profile \<Rightarrow> irq list list \<Rightarrow> u32 option \<Rightarrow> procs \<Rightarrow>
    ((string + u32 \<times> i32) \<times> procs) option outcome" where
  "waitpid prof hlts target s =
     (case waitpid_once target s of
        (Inl e, s1) \<Rightarrow> Ret (Some (Inl e, s1))
      | (Inr (Some r), s1) \<Rightarrow> Ret (Some (Inr r, s1))
      | (Inr None, s1) \<Rightarrow>
          (case hlts of
             [] \<Rightarrow> Ret None
           | is # rest \<Rightarrow> obind (take_irqs prof is s1) (waitpid prof rest target)))"

declare waitpid.simps [simp del]

section \<open>The steps of the subsystem and their invariant\<close>

text \<open>
  Every atomic change of the process state: the critical sections of the system calls,
  the scheduler, the log line of \<open>exit\<close>, and the timer tick.  \<open>fresh_step\<close> restricts
  them to runs on which the 32-bit PID counter has not wrapped around.
\<close>

inductive proc_step :: "profile \<Rightarrow> procs \<Rightarrow> procs \<Rightarrow> bool" for prof :: profile where
  step_fork: "proc_step prof s (snd (fork s))"
| step_execve: "proc_step prof s (snd (execve path s))"
| step_exit: "proc_step prof s (exit_mark code s)"
| step_log: "proc_step prof s (s\<lparr>proc_log := lines\<rparr>)"
| step_schedule: "proc_step prof s (schedule s)"
| step_wait: "proc_step prof s (snd (waitpid_once target s))"
| step_kill: "proc_step prof s (snd (kill q sig s))"
| step_tick: "tick prof s = Ret t \<Longrightarrow> proc_step prof s t"

definition fresh_step :: "profile \<Rightarrow> procs \<Rightarrow> procs \<Rightarrow> bool" where
  "fresh_step prof s t \<longleftrightarrow> proc_step prof s t \<and> NEXT_PID t \<noteq> 0"

text \<open>
  What holds of each process: its PID and its parent's were handed out by the counter
  \<open>n\<close>, only a zombie has an exit code, nothing is ever blocked, signal 0 is never pending.
\<close>

definition proc_ok :: "nat \<Rightarrow> process \<Rightarrow> bool" where
  "proc_ok n p \<longleftrightarrow> unat (pid p) < n \<and> unat (parent_pid p) < n \<and>
     (proc_state p \<noteq> Zombie \<longrightarrow> exit_code p = 0) \<and> proc_state p \<noteq> Blocked \<and>
     \<not> bit (pending_signals p) 0"

definition proc_inv :: "procs \<Rightarrow> bool" where
  "proc_inv s \<longleftrightarrow> distinct (pids s) \<and> 2 \<le> unat (NEXT_PID s) \<and>
     (\<forall>p \<in> set (PROCESS_TABLE s). proc_ok (unat (NEXT_PID s)) p)"

lemma proc_inv_boot: "proc_inv boot_procs"
  by (simp add: boot_procs_eq proc_inv_def pids_def idle_process_def proc_ok_def)

lemma proc_inv_log [simp]: "proc_inv (s\<lparr>proc_log := l\<rparr>) = proc_inv s"
  "proc_inv (s\<lparr>TICK := n\<rparr>) = proc_inv s" "proc_inv (s\<lparr>CURRENT_PID := c\<rparr>) = proc_inv s"
  by (simp_all add: proc_inv_def pids_def)

text \<open>Replacing a process by one with the same PID that is still well formed keeps the invariant.\<close>

lemma proc_inv_update_first:
  assumes "proc_inv s" "\<And>p. pid (f p) = pid p"
    and "\<And>p. proc_ok (unat (NEXT_PID s)) p \<Longrightarrow> proc_ok (unat (NEXT_PID s)) (f p)"
  shows "proc_inv (s\<lparr>PROCESS_TABLE := update_first P f (PROCESS_TABLE s)\<rparr>)"
  using assms
  by (auto simp: proc_inv_def pids_def map_update_first dest!: set_update_first)

lemma proc_inv_fork:
  assumes "proc_inv s" "NEXT_PID (snd (fork s)) \<noteq> 0"
  shows "proc_inv (snd (fork s))"
proof (cases "find_pid (current_pid s) s")
  case None
  with assms show ?thesis by (simp add: fork_def)
next
  case (Some parent)
  with assms(2) have "NEXT_PID s + 1 \<noteq> 0" by (simp add: fork_def Let_def)
  then have n: "unat (NEXT_PID s + 1) = Suc (unat (NEXT_PID s))" by (metis One_nat_def add.commute plus_1_eq_Suc unatSuc)
  have par: "proc_ok (unat (NEXT_PID s)) parent" "parent \<in> set (PROCESS_TABLE s)"
    using assms(1) Some by (auto simp: proc_inv_def dest: find_Some_in)
  have "NEXT_PID s \<notin> set (pids s)"
    using assms(1) by (auto simp: proc_inv_def pids_def proc_ok_def)
  moreover have "proc_ok (Suc m) p" if "proc_ok m p" for m p
    using that by (auto simp: proc_ok_def)
  ultimately show ?thesis
    using assms(1) Some par n
    by (auto simp: fork_def Let_def proc_inv_def pids_def proc_ok_def)
qed

lemma proc_inv_exit:
  assumes "proc_inv s"
  shows "proc_inv (exit_mark code s)"
proof -
  let ?s1 = "s\<lparr>PROCESS_TABLE := update_first (has_pid (current_pid s))
     (\<lambda>p. p\<lparr>proc_state := Zombie, exit_code := code\<rparr>) (PROCESS_TABLE s)\<rparr>"
  have "proc_inv ?s1" by (rule proc_inv_update_first [OF assms]) (auto simp: proc_ok_def)
  then show ?thesis
    by (auto simp: exit_mark_def proc_inv_def pids_def proc_ok_def comp_def if_distrib cong: if_cong)
qed

lemma proc_inv_wait: "proc_inv s \<Longrightarrow> proc_inv (snd (waitpid_once target s))"
  using set_remove_at_subset
  by (fastforce simp: waitpid_once_def Let_def proc_inv_def pids_def map_remove_at distinct_remove_at
      split: option.splits)

lemma proc_inv_kill: "proc_inv s \<Longrightarrow> proc_inv (snd (kill q sig s))"
  by (auto simp: kill_def proc_ok_def bit_or_iff bit_sig_bit unat_eq_zero
      intro!: proc_inv_update_first split: option.splits)

lemma proc_inv_dispatch: "proc_inv s \<Longrightarrow> proc_inv (dispatch_signals q s)"
  unfolding dispatch_signals_def
  by (erule proc_inv_update_first) (auto simp: deliver_def proc_ok_def split: option.splits)

lemma proc_inv_schedule [simp]: "proc_inv (schedule s) = proc_inv s"
  by (simp add: proc_inv_def)

lemma proc_inv_tick: "proc_inv s \<Longrightarrow> tick prof s = Ret t \<Longrightarrow> proc_inv t"
  by (auto simp: tick_def Let_def proc_inv_dispatch split: if_splits)

lemma tick_ok:
  assumes "proc_inv s" "unat (TICK s) + 1 < 2 ^ 64"
  shows "\<exists>t. tick prof s = Ret t \<and> proc_inv t \<and> pids t = pids s \<and> NEXT_PID t = NEXT_PID s \<and>
    unat (TICK t) = unat (TICK s) + 1"
proof -
  have a: "arith_add prof (TICK s) 1 = Ret (TICK s + 1)" by (rule arith_add_ok) (simp add: assms(2) [simplified])
  have "unat (TICK s + 1) = unat (TICK s) + 1"
    using assms(2) by (simp add: unat_word_ariths)
  then obtain t where "tick prof s = Ret t" "pids t = pids s" "NEXT_PID t = NEXT_PID s"
    "unat (TICK t) = unat (TICK s) + 1"
    by (simp add: tick_def a Let_def)
  then show ?thesis using proc_inv_tick [OF assms(1)] by blast
qed

lemma proc_inv_execve: "proc_inv s \<Longrightarrow> proc_inv (snd (execve path s))"
  by (auto simp: execve_def proc_ok_def intro!: proc_inv_update_first split: option.splits)

lemmas proc_inv_steps [invariant_rules] = proc_inv_fork proc_inv_execve proc_inv_exit proc_inv_wait proc_inv_kill
  proc_inv_tick

interpretation proc_sys: invariant_system "(=) boot_procs" "fresh_step prof" proc_inv for prof
proof
  show "proc_inv s" if "boot_procs = s" for s
    using that proc_inv_boot by simp
  show "proc_inv t" if "proc_inv s" "fresh_step prof s t" for s t
    using that(2) unfolding fresh_step_def
    by (auto elim!: proc_step.cases intro: that(1) proc_inv_steps)
qed

section \<open>Properties\<close>

text \<open>
  Claim C6.  In every state the process subsystem can reach from boot, by any interleaving
  of fork, execve, exit, wait, kill, scheduling and timer ticks in which the PID counter
  has not wrapped, the PIDs in the table are distinct and below the counter, only zombies
  carry a non-zero exit code, no process is Blocked, and signal 0 is never pending.
\<close>

theorem reachable_procs_wellformed:
  assumes "reachable ((=) boot_procs) (fresh_step prof) s"
  shows "distinct (pids s) \<and>
    (\<forall>p \<in> set (PROCESS_TABLE s). pid p < NEXT_PID s \<and> parent_pid p < NEXT_PID s \<and>
       (exit_code p \<noteq> 0 \<longrightarrow> proc_state p = Zombie) \<and> proc_state p \<noteq> Blocked \<and>
       \<not> bit (pending_signals p) 0)"
  using proc_sys.inv_reachable [OF assms]
  by (auto simp: proc_inv_def proc_ok_def word_less_nat_alt)

theorem reachable_procs_wellformed_witness:
  "distinct (pids (snd (fork (schedule boot_procs)))) \<and>
   pids (snd (fork (schedule boot_procs))) = [0, 1, 2]"
proof -
  have b: "reachable ((=) boot_procs) (fresh_step Dev) boot_procs"
    by (simp add: reachable.reachable_start)
  have "fresh_step Dev boot_procs (schedule boot_procs)"
    by (auto simp: fresh_step_def boot_procs_eq intro: proc_step.step_schedule)
  with b have r: "reachable ((=) boot_procs) (fresh_step Dev) (schedule boot_procs)"
    by (rule reachable.reachable_step)
  have p: "pids (snd (fork (schedule boot_procs))) = [0, 1, 2]"
    and n: "NEXT_PID (snd (fork (schedule boot_procs))) = 3"
    by (simp_all add: boot_procs_eq idle_process_def schedule_def runnable_def fork_def current_pid_def
        pids_def Let_def)
  have "fresh_step Dev (schedule boot_procs) (snd (fork (schedule boot_procs)))"
    unfolding fresh_step_def n by (simp add: proc_step.step_fork)
  with r have "reachable ((=) boot_procs) (fresh_step Dev) (snd (fork (schedule boot_procs)))"
    by (rule reachable.reachable_step)
  from reachable_procs_wellformed [OF this] p show ?thesis by simp
qed

text \<open>
  Claim C15.  In a well-formed state a fork by an existing current process succeeds: the child has a PID no process had, the caller as
  parent, the caller's name, priority and stack pointer, state Ready, and no pending
  signal or exit code; every other process is unchanged and the caller stays current.
\<close>

theorem fork_creates_child:
  assumes "proc_inv s" and "find_pid (CURRENT_PID s) s = Some parent"
  shows "fst (fork s) = Inr (NEXT_PID s) \<and> NEXT_PID s \<notin> set (pids s) \<and>
    find_pid (NEXT_PID s) (snd (fork s)) =
      Some (parent\<lparr>pid := NEXT_PID s, parent_pid := CURRENT_PID s, proc_state := Ready,
                   exit_code := 0, pending_signals := 0\<rparr>) \<and>
    (\<forall>r. r \<noteq> NEXT_PID s \<longrightarrow> find_pid r (snd (fork s)) = find_pid r s) \<and>
    CURRENT_PID (snd (fork s)) = CURRENT_PID s"
proof -
  have fresh: "NEXT_PID s \<notin> set (pids s)"
    using assms(1) by (auto simp: proc_inv_def pids_def proc_ok_def)
  then have none: "find_pid (NEXT_PID s) s = None" by (simp add: find_pid_None)
  have "pid parent = CURRENT_PID s" using assms(2) by (auto dest: find_Some_in)
  with assms(2) fresh none show ?thesis
    by (auto simp: fork_def current_pid_def Let_def find_append split: option.splits)
qed

theorem fork_creates_child_witness:
  "fst (fork boot_procs) = Inr 2 \<and> map_option parent_pid (find_pid 2 (snd (fork boot_procs))) = Some 0"
  using fork_creates_child [OF proc_inv_boot, of idle_process]
  by (simp add: boot_procs_eq idle_process_def)

lemma find_pid_exit_mark:
  "find_pid r (exit_mark code s) =
     map_option (\<lambda>p. if parent_pid p = CURRENT_PID s then p\<lparr>parent_pid := 1\<rparr> else p)
       (if r = CURRENT_PID s then map_option (\<lambda>p. p\<lparr>proc_state := Zombie, exit_code := code\<rparr>) (find_pid r s)
        else find_pid r s)"
  by (simp add: exit_mark_def current_pid_def Let_def find_update_first_key [of pid] find_map_key [of pid])

lemma pids_exit_mark [simp]: "pids (exit_mark code s) = pids s"
  by (simp add: exit_mark_def pids_def Let_def map_update_first comp_def if_distrib cong: if_cong)

lemma exit_frame:
  "PROCESS_TABLE (exit code s) = PROCESS_TABLE (exit_mark code s)"
  "NEXT_PID (exit code s) = NEXT_PID s"
  by (simp_all add: exit_def force_schedule_def exit_mark_def Let_def)

text \<open>After an exit, with any process current: the caller is a zombie, no entry has been dropped.\<close>

lemma exit_leaves_zombie:
  assumes "find_pid (CURRENT_PID s) s = Some c" "parent_pid c \<noteq> pid c"
  shows "find_pid (pid c) ((exit code s)\<lparr>CURRENT_PID := q\<rparr>) = Some (c\<lparr>proc_state := Zombie, exit_code := code\<rparr>)"
    "pids ((exit code s)\<lparr>CURRENT_PID := q\<rparr>) = pids s"
proof -
  have c: "pid c = CURRENT_PID s" using assms(1) by (auto dest: find_Some_in)
  have "find_pid (pid c) (exit_mark code s) = Some (c\<lparr>proc_state := Zombie, exit_code := code\<rparr>)"
    unfolding find_pid_exit_mark using assms c by simp
  then show "find_pid (pid c) ((exit code s)\<lparr>CURRENT_PID := q\<rparr>) = Some (c\<lparr>proc_state := Zombie, exit_code := code\<rparr>)"
    by (simp add: exit_frame)
  show "pids ((exit code s)\<lparr>CURRENT_PID := q\<rparr>) = pids s"
    using pids_exit_mark [of code s] by (simp add: pids_def exit_frame)
qed

text \<open>Reaping: with a zombie child of the wanted PID, one pass returns it and removes exactly it.\<close>

lemma waitpid_once_zombie:
  assumes "distinct (pids s)" "find_pid q s = Some c" "parent_pid c = CURRENT_PID s" "proc_state c = Zombie"
  shows "\<exists>s'. waitpid_once (Some q) s = (Inr (Some (q, exit_code c)), s') \<and>
    pids s' = remove1 q (pids s) \<and> (\<forall>r. find_pid r s' = (if r = q then None else find_pid r s))"
proof -
  have "c \<in> set (PROCESS_TABLE s)" "pid c = q"
    using assms(2) by (auto dest: find_Some_in)
  then obtain xs ys where t: "PROCESS_TABLE s = xs @ c # ys" by (auto dest: split_list)
  have d: "q \<notin> set (map pid xs)" "q \<notin> set (map pid ys)"
    using assms(1) t \<open>pid c = q\<close> by (auto simp: pids_def)
  have "pid (xs ! j) \<noteq> q" if "j < length xs" for j
    using d(1) nth_mem [OF that] by auto
  then have pos: "position (\<lambda>p. parent_pid p = CURRENT_PID s \<and> proc_state p = Zombie \<and> wanted (Some q) p)
      (xs @ c # ys) = Some (length xs)"
    using assms(3,4) \<open>pid c = q\<close> by (auto simp: position_eq_Some wanted_def nth_append)
  have ex: "list_ex (\<lambda>p. parent_pid p = CURRENT_PID s \<and> wanted (Some q) p) (xs @ c # ys)"
    using assms(3) \<open>pid c = q\<close> by (simp add: wanted_def)
  have none: "List.find (has_pid q) zs = None" if "q \<notin> set (map pid zs)" for zs
    using that by (auto simp: find_None_iff)
  have "pids (s\<lparr>PROCESS_TABLE := xs @ ys\<rparr>) = remove1 q (pids s)"
    using d \<open>pid c = q\<close> by (simp add: pids_def t remove1_append)
  moreover have "find_pid r (s\<lparr>PROCESS_TABLE := xs @ ys\<rparr>) = (if r = q then None else find_pid r s)" for r
    using none d \<open>pid c = q\<close> by (auto simp: t find_append split: option.splits)
  ultimately show ?thesis
    using ex pos \<open>pid c = q\<close> by (simp add: waitpid_once_def Let_def current_pid_def t remove_at_def)
qed

text \<open>
  Claim C13.  Exit status round trip: when the current process exits with a code and its
  parent then waits for it, the wait returns at once with that PID and that exact code;
  the child is gone from the table, its own children now belong to init, and every other
  process is unchanged.
\<close>

theorem exit_wait_roundtrip:
  assumes "distinct (pids s)" and "find_pid (CURRENT_PID s) s = Some c" and "parent_pid c \<noteq> pid c"
  shows "\<exists>s'. waitpid prof hlts (Some (pid c)) ((exit code s)\<lparr>CURRENT_PID := parent_pid c\<rparr>) =
      Ret (Some (Inr (pid c, code), s')) \<and>
    pids s' = remove1 (pid c) (pids s) \<and>
    (\<forall>r. find_pid r s' = (if r = pid c then None
       else map_option (\<lambda>p. if parent_pid p = pid c then p\<lparr>parent_pid := 1\<rparr> else p) (find_pid r s)))"
proof -
  let ?s = "(exit code s)\<lparr>CURRENT_PID := parent_pid c\<rparr>"
  have c: "pid c = CURRENT_PID s" using assms(2) by (auto dest: find_Some_in)
  have f: "find_pid r ?s = find_pid r (exit_mark code s)" for r by (simp add: exit_frame)
  note z = exit_leaves_zombie(1) [OF assms(2,3), where code = code and q = "parent_pid c"]
  have d: "distinct (pids ?s)" "pids ?s = pids s"
    using assms(1) exit_leaves_zombie(2) [OF assms(2,3), where code = code and q = "parent_pid c"] by simp_all
  obtain s' where "waitpid_once (Some (pid c)) ?s = (Inr (Some (pid c, code)), s')"
    "pids s' = remove1 (pid c) (pids s)" "\<forall>r. find_pid r s' = (if r = pid c then None else find_pid r ?s)"
    using waitpid_once_zombie [OF d(1) z] d(2) by auto
  then show ?thesis
    unfolding f find_pid_exit_mark using c by (auto simp: waitpid.simps)
qed

text \<open>Boot, one scheduling decision, a fork by init: process 2, child of init, is made current.\<close>

definition two_procs :: procs where
  "two_procs = (snd (fork (schedule boot_procs)))\<lparr>CURRENT_PID := 2\<rparr>"

lemma two_procs_eq:
  "PROCESS_TABLE two_procs = PROCESS_TABLE boot_procs @
     [\<lparr>pid = 2, parent_pid = 1, proc_name = ''init'', proc_state = Ready, proc_priority = Normal,
       kernel_rsp = 0, exit_code = 0, pending_signals = 0\<rparr>]"
  "NEXT_PID two_procs = 3" "CURRENT_PID two_procs = 2" "TICK two_procs = 0"
  by (simp_all add: two_procs_def boot_procs_eq idle_process_def schedule_def runnable_def fork_def
      current_pid_def Let_def)

theorem exit_wait_roundtrip_witness:
  "\<exists>s'. waitpid Dev [] (Some 2) ((exit 7 two_procs)\<lparr>CURRENT_PID := 1\<rparr>) = Ret (Some (Inr (2, 7), s')) \<and>
     pids s' = [0, 1]"
proof -
  let ?c = "PROCESS_TABLE two_procs ! 2"
  have "distinct (pids two_procs)" "find_pid (CURRENT_PID two_procs) two_procs = Some ?c"
    "parent_pid ?c \<noteq> pid ?c" "pid ?c = 2" "parent_pid ?c = 1" "pids two_procs = [0, 1, 2]"
    by (simp_all add: two_procs_eq boot_procs_eq idle_process_def pids_def)
  with exit_wait_roundtrip [of two_procs ?c Dev "[]" 7] show ?thesis by auto
qed

text \<open>
  Claim C14.  Whatever interrupts arrive while it waits, a wait that succeeds returns the
  PID and exit code of a process that, at that moment, was a zombie child of the current
  process matching the request, and removes exactly that process from the table.
\<close>

theorem waitpid_reaps_zombie_child:
  assumes "waitpid prof hlts target s = Ret (Some (Inr (q, code), s'))"
  shows "\<exists>s0 i irqs. take_irqs prof irqs s = Ret s0 \<and> i < length (PROCESS_TABLE s0) \<and>
    (let c = PROCESS_TABLE s0 ! i in
       pid c = q \<and> exit_code c = code \<and> proc_state c = Zombie \<and>
       parent_pid c = CURRENT_PID s0 \<and> wanted target c) \<and>
    s' = s0\<lparr>PROCESS_TABLE := remove_at i (PROCESS_TABLE s0)\<rparr>"
  using assms
proof (induction hlts arbitrary: s)
  case Nil
  then show ?case
    by (auto simp: waitpid.simps waitpid_once_def Let_def current_pid_def position_eq_Some
        intro!: exI [of _ "[]"] split: if_splits option.splits)
next
  case (Cons irqs hlts)
  show ?case
  proof (cases "\<exists>s1. waitpid_once target s = (Inr None, s1)")
    case True
    then obtain s2 where "take_irqs prof irqs s = Ret s2"
      and w: "waitpid prof hlts target s2 = Ret (Some (Inr (q, code), s'))"
      using Cons.prems
      by (auto simp: waitpid.simps [of prof "irqs # hlts"] waitpid_once_def Let_def split: if_splits option.splits)
    moreover have "take_irqs prof (is @ js) s = obind (take_irqs prof is s) (take_irqs prof js)" for "is" js s
    proof (induction "is" arbitrary: s)
      case (Cons i "is")
      then show ?case by (cases i; cases "tick prof s") auto
    qed simp
    ultimately show ?thesis using Cons.IH [OF w] by (metis obind.simps(1))
  next
    case False
    with Cons.prems show ?thesis
      by (auto simp: waitpid.simps [of prof "irqs # hlts"] waitpid_once_def Let_def current_pid_def
          position_eq_Some intro!: exI [of _ "[]"] split: if_splits option.splits)
  qed
qed

theorem waitpid_reaps_zombie_child_witness:
  "\<exists>s0 i irqs. take_irqs Dev irqs ((exit_mark 7 two_procs)\<lparr>CURRENT_PID := 1\<rparr>) = Ret s0 \<and>
     i < length (PROCESS_TABLE s0) \<and>
     pid (PROCESS_TABLE s0 ! i) = 2 \<and> exit_code (PROCESS_TABLE s0 ! i) = 7 \<and>
     proc_state (PROCESS_TABLE s0 ! i) = Zombie"
proof -
  let ?s = "(exit_mark 7 two_procs)\<lparr>CURRENT_PID := 1\<rparr>"
  have "waitpid Dev [] None ?s = Ret (Some (Inr (2, 7), snd (waitpid_once None ?s)))"
    by (simp add: waitpid.simps waitpid_once_def wanted_def exit_mark_def two_procs_eq boot_procs_eq
        idle_process_def current_pid_def Let_def)
  from waitpid_reaps_zombie_child [OF this] show ?thesis by (fastforce simp: Let_def)
qed

section \<open>Where the lifecycle breaks\<close>

lemma take_irqs_timer: "take_irqs prof (replicate n Timer_Irq) s = run_ticks prof n s"
  by (induction n arbitrary: s) (auto intro: arg_cong [where f = "obind _"])

text \<open>
  Claim C30.  A wait can miss its own child.  The loop re-reads the current PID on every
  pass, and a timer tick changes it while the caller sleeps: init waits for its live child
  2, one time slice passes, and the second pass runs as process 2 and fails with "no
  child" although process 2 is still in the table with init as its parent.
\<close>

theorem waitpid_loses_child:
  "\<exists>s'. waitpid prof [replicate 10 Timer_Irq] (Some 2) (two_procs\<lparr>CURRENT_PID := 1\<rparr>) =
      Ret (Some (Inl ''waitpid: no child'', s')) \<and>
    map_option parent_pid (find_pid 2 s') = Some 1"
proof -
  let ?s = "two_procs\<lparr>CURRENT_PID := 1\<rparr>"
  have once: "waitpid_once (Some 2) ?s = (Inr None, ?s)"
    by (simp add: waitpid_once_def wanted_def two_procs_eq boot_procs_eq idle_process_def current_pid_def Let_def)
  have "no_signals ?s"
    by (simp add: no_signals_def two_procs_eq boot_procs_eq idle_process_def)
  then have "run_ticks prof 10 ?s = Ret (schedule (?s\<lparr>TICK := 10\<rparr>))"
    using run_ticks_to_slice [of ?s 10 prof] by (simp add: two_procs_eq)
  moreover have "CURRENT_PID (schedule (?s\<lparr>TICK := 10\<rparr>)) = 2"
    by (simp add: schedule_def two_procs_eq boot_procs_eq idle_process_def runnable_def Let_def)
  ultimately show ?thesis
    unfolding waitpid.simps [of prof "[_]"] once
    by (simp add: take_irqs_timer waitpid.simps waitpid_once_def wanted_def two_procs_eq boot_procs_eq
        idle_process_def current_pid_def Let_def)
qed

text \<open>
  Claim C31.  A process killed by a signal orphans its children for good: unlike \<open>exit\<close>,
  \<open>dispatch_signals\<close> does not hand them to init, so once the dead process is reaped by its
  parent each of its children still names the vanished PID as its parent.
\<close>

theorem signal_death_orphans_children:
  assumes "distinct (pids s)" and "find_pid q s = Some c" and "terminating_sig (pending_signals c) = Some sig"
    and "parent_pid c \<noteq> q" and "find_pid r s = Some d" and "parent_pid d = q" and "r \<noteq> q"
  shows "\<exists>s'. waitpid prof hlts (Some q) ((dispatch_signals q s)\<lparr>CURRENT_PID := parent_pid c\<rparr>) =
      Ret (Some (Inr (q, 128 + ucast sig), s')) \<and>
    find_pid r s' = Some d \<and> find_pid (parent_pid d) s' = None"
proof -
  let ?s = "(dispatch_signals q s)\<lparr>CURRENT_PID := parent_pid c\<rparr>"
  have "pending_signals c \<noteq> 0" using assms(3) by (auto simp: terminating_sig_def)
  then have dc: "deliver c = c\<lparr>proc_state := Zombie, exit_code := 128 + ucast sig, pending_signals := 0\<rparr>"
    using assms(3) by (simp add: deliver_def)
  have f: "find_pid x ?s = find_pid x (dispatch_signals q s)" for x by simp
  have "find_pid q ?s = Some (deliver c)" "find_pid r ?s = Some d"
    unfolding f find_pid_dispatch using assms by auto
  moreover have "distinct (pids ?s)"
    using assms(1) dispatch_frame(5) [of q s] by (simp add: pids_def)
  ultimately obtain s' where
    "waitpid_once (Some q) ?s = (Inr (Some (q, 128 + ucast sig)), s')"
    "\<forall>x. find_pid x s' = (if x = q then None else find_pid x ?s)"
    using waitpid_once_zombie [of ?s q "deliver c"] dc by auto
  then show ?thesis
    using \<open>find_pid r ?s = Some d\<close> assms(6,7) by (auto simp: waitpid.simps)
qed

text \<open>Process 2 has forked process 3 and has SIGKILL pending.\<close>

definition three_procs :: procs where
  "three_procs = snd (kill 2 SIGKILL (snd (fork two_procs)))"

theorem signal_death_orphans_children_witness:
  "\<exists>s'. waitpid Dev [] (Some 2) ((dispatch_signals 2 three_procs)\<lparr>CURRENT_PID := 1\<rparr>) =
      Ret (Some (Inr (2, 137), s')) \<and>
    map_option parent_pid (find_pid 3 s') = Some 2 \<and> find_pid 2 s' = None"
proof -
  let ?c = "PROCESS_TABLE three_procs ! 2" and ?d = "PROCESS_TABLE three_procs ! 3"
  note [simp] = three_procs_def kill_def fork_def two_procs_eq boot_procs_eq idle_process_def
    current_pid_def Let_def pids_def signal_numbers sig_bit_def terminating_sig_def
  have "distinct (pids three_procs)" "find_pid 2 three_procs = Some ?c"
    "terminating_sig (pending_signals ?c) = Some 9" "parent_pid ?c = 1"
    "find_pid 3 three_procs = Some ?d" "parent_pid ?d = 2"
    by simp_all
  with signal_death_orphans_children [of three_procs 2 ?c 9 3 ?d Dev "[]"] show ?thesis
    by (auto simp del: three_procs_def)
qed

end
