(* ===== verification/Vga.thy ===== *)
theory Vga
  imports Prelude
begin

text \<open>
  The VGA text console (\<open>kernel/src/drivers/vga.rs\<close>): the writer's cursor and colour, and
  the text buffer at physical address 0xB8000 as bytes of memory.  The lemmas bound every
  write to the 4000 bytes of the buffer and show that the byte-level routines implement a
  25 by 80 grid of cells.
\<close>

section \<open>The writer\<close>

definition BUFFER_WIDTH :: nat where
  "BUFFER_WIDTH = 80"

definition BUFFER_HEIGHT :: nat where
  "BUFFER_HEIGHT = 25"

definition VGA_BUFFER_ADDR :: nat where
  "VGA_BUFFER_ADDR = 0xB8000"

datatype color = Black | Blue | Green | Cyan | Red | Magenta | Brown | LightGray | DarkGray
  | LightBlue | LightGreen | LightCyan | LightRed | Pink | Yellow | White

text \<open>The discriminants of \<open>#[repr(u8)]\<close>.\<close>

fun color_u8 :: "color \<Rightarrow> u8" where
  "color_u8 Black = 0" | "color_u8 Blue = 1" | "color_u8 Green = 2" | "color_u8 Cyan = 3"
| "color_u8 Red = 4" | "color_u8 Magenta = 5" | "color_u8 Brown = 6" | "color_u8 LightGray = 7"
| "color_u8 DarkGray = 8" | "color_u8 LightBlue = 9" | "color_u8 LightGreen = 10"
| "color_u8 LightCyan = 11" | "color_u8 LightRed = 12" | "color_u8 Pink = 13"
| "color_u8 Yellow = 14" | "color_u8 White = 15"

definition color_code_new :: "color \<Rightarrow> color \<Rightarrow> u8" where
  "color_code_new fg bg = push_bit 4 (color_u8 bg) OR color_u8 fg"

text \<open>Physical memory, and the writer's fields with the memory it writes to.\<close>

type_synonym mem = "nat \<Rightarrow> u8"

record writer =
  column_position :: nat
  color_code :: u8
  row :: nat
  vmem :: mem

definition cell_offset :: "nat \<Rightarrow> nat \<Rightarrow> nat" where
  "cell_offset r c = (r * BUFFER_WIDTH + c) * 2"

definition write_char_at :: "nat \<Rightarrow> nat \<Rightarrow> u8 \<Rightarrow> u8 \<Rightarrow> mem \<Rightarrow> mem" where
  "write_char_at r c ascii clr m =
     (let ptr = VGA_BUFFER_ADDR + cell_offset r c in m(ptr := ascii, ptr + 1 := clr))"

text \<open>16-bit accesses are little-endian.\<close>

definition write_raw_at :: "nat \<Rightarrow> nat \<Rightarrow> u16 \<Rightarrow> mem \<Rightarrow> mem" where
  "write_raw_at r c cell m =
     (let ptr = VGA_BUFFER_ADDR + cell_offset r c
      in m(ptr := ucast cell, ptr + 1 := ucast (drop_bit 8 cell)))"

definition read_char_at :: "nat \<Rightarrow> nat \<Rightarrow> mem \<Rightarrow> u16" where
  "read_char_at r c m =
     (let ptr = VGA_BUFFER_ADDR + cell_offset r c
      in push_bit 8 (ucast (m (ptr + 1))) OR ucast (m ptr))"

text \<open>The loops of \<open>scroll\<close>: one row copied up, all rows, and the last row cleared.\<close>

definition copy_row_up :: "nat \<Rightarrow> mem \<Rightarrow> mem" where
  "copy_row_up r m =
     fold (\<lambda>c m. write_raw_at (r - 1) c (read_char_at r c m) m) [0..<BUFFER_WIDTH] m"

definition clear_row :: "nat \<Rightarrow> u8 \<Rightarrow> mem \<Rightarrow> mem" where
  "clear_row r clr m = fold (\<lambda>c. write_char_at r c 0x20 clr) [0..<BUFFER_WIDTH] m"

definition scroll :: "writer \<Rightarrow> writer" where
  "scroll w =
     w\<lparr>vmem := clear_row (BUFFER_HEIGHT - 1) (color_code w)
                 (fold copy_row_up [1..<BUFFER_HEIGHT] (vmem w))\<rparr>"

definition new_line :: "writer \<Rightarrow> writer" where
  "new_line w =
     (let w1 = w\<lparr>column_position := 0\<rparr>
      in if row w1 < BUFFER_HEIGHT - 1 then w1\<lparr>row := row w1 + 1\<rparr> else scroll w1)"

definition write_byte :: "u8 \<Rightarrow> writer \<Rightarrow> writer" where
  "write_byte b w =
     (if b = 0x0A then new_line w
      else
        let w1 = (if BUFFER_WIDTH \<le> column_position w then new_line w else w)
        in w1\<lparr>vmem := write_char_at (row w1) (column_position w1) b (color_code w1) (vmem w1),
              column_position := column_position w1 + 1\<rparr>)"

definition write_string :: "u8 list \<Rightarrow> writer \<Rightarrow> writer" where
  "write_string s w =
     fold (\<lambda>b. write_byte (if 0x20 \<le> b \<and> b \<le> 0x7E \<or> b = 0x0A then b else 0xFE)) s w"

definition clear :: "writer \<Rightarrow> writer" where
  "clear w =
     w\<lparr>vmem := fold (\<lambda>r. clear_row r (color_code w)) [0..<BUFFER_HEIGHT] (vmem w),
       row := 0, column_position := 0\<rparr>"

definition backspace :: "writer \<Rightarrow> writer" where
  "backspace w =
     (if 0 < column_position w then
        let w1 = w\<lparr>column_position := column_position w - 1\<rparr>
        in w1\<lparr>vmem := write_char_at (row w1) (column_position w1) 0x20 (color_code w1) (vmem w1)\<rparr>
      else w)"

definition set_color :: "color \<Rightarrow> color \<Rightarrow> writer \<Rightarrow> writer" where
  "set_color fg bg w = w\<lparr>color_code := color_code_new fg bg\<rparr>"

text \<open>\<open>WRITER\<close> as the image initialises it, over memory \<open>m\<close>; \<open>init\<close>; and \<open>_kprint\<close> of a formatted text.\<close>

definition WRITER :: "mem \<Rightarrow> writer" where
  "WRITER m = \<lparr>column_position = 0, color_code = color_code_new White Black, row = 0, vmem = m\<rparr>"

definition vga_init :: "mem \<Rightarrow> writer" where
  "vga_init m = clear (WRITER m)"

text \<open>
  \<open>fmt::Write\<close> for the writer, which never fails; \<open>_kprint\<close> unwraps its result.
\<close>

definition write_str :: "u8 list \<Rightarrow> writer \<Rightarrow> (unit + unit) \<times> writer" where
  "write_str str w = (Inr (), write_string str w)"

definition kprint :: "u8 list \<Rightarrow> writer \<Rightarrow> writer" where
  "kprint str w = snd (write_str str w)"

lemma write_str_ok [simp]: "fst (write_str str w) = Inr ()" "snd (write_str str w) = write_string str w"
  by (simp_all add: write_str_def)

section \<open>Memory effects of the loops\<close>

text \<open>Row \<open>r\<close> of the buffer is the 160 bytes from \<open>row_addr r\<close>.\<close>

definition row_addr :: "nat \<Rightarrow> nat" where
  "row_addr r = VGA_BUFFER_ADDR + 160 * r"

lemma row_addr_mono: "r \<le> r' \<Longrightarrow> row_addr r \<le> row_addr r'"
  by (simp add: row_addr_def)

lemma row_addr_Suc: "row_addr (Suc r) = row_addr r + 160"
  by (simp add: row_addr_def)

lemma cell_addr: "VGA_BUFFER_ADDR + cell_offset r c = row_addr r + 2 * c"
  by (simp add: cell_offset_def row_addr_def BUFFER_WIDTH_def)

lemma write_char_at_eq:
  "write_char_at r c ascii clr m = m(row_addr r + 2 * c := ascii, row_addr r + 2 * c + 1 := clr)"
  by (simp add: write_char_at_def cell_addr Let_def)

lemma write_raw_read_char:
  "write_raw_at r c (read_char_at r' c' m) m' =
     m'(row_addr r + 2 * c := m (row_addr r' + 2 * c'), row_addr r + 2 * c + 1 := m (row_addr r' + 2 * c' + 1))"
proof -
  have "ucast (push_bit 8 (ucast b) OR ucast a :: u16) = a" for a b :: u8
    by (rule bit_word_eqI) (auto simp: bit_or_iff bit_push_bit_iff bit_unsigned_iff)
  moreover have "ucast (drop_bit 8 (push_bit 8 (ucast b) OR ucast a :: u16)) = b" for a b :: u8
    by (rule bit_word_eqI)
      (auto simp: bit_or_iff bit_push_bit_iff bit_unsigned_iff bit_drop_bit_eq dest: bit_imp_le_length)
  ultimately show ?thesis by (simp add: write_raw_at_def read_char_at_def cell_addr Let_def)
qed

lemma clear_row_eq:
  "clear_row r clr m = (\<lambda>a. if row_addr r \<le> a \<and> a < row_addr (Suc r)
     then (if even (a - row_addr r) then 0x20 else clr) else m a)"
proof -
  have "fold (\<lambda>c. write_char_at r c 0x20 clr) [0..<n] m =
    (\<lambda>a. if row_addr r \<le> a \<and> a < row_addr r + 2 * n
      then (if even (a - row_addr r) then 0x20 else clr) else m a)" for n
  proof (induction n)
    case (Suc n)
    then show ?case by (auto simp: write_char_at_eq fun_eq_iff; presburger)
  qed (auto simp: fun_eq_iff)
  from this [of 80] show ?thesis by (simp add: clear_row_def BUFFER_WIDTH_def row_addr_Suc)
qed

lemma copy_row_up_eq:
  assumes "0 < r"
  shows "copy_row_up r m = (\<lambda>a. if row_addr (r - 1) \<le> a \<and> a < row_addr r then m (a + 160) else m a)"
proof -
  obtain k where r: "r = Suc k" using assms by (cases r) auto
  have "fold (\<lambda>c m. write_raw_at k c (read_char_at (Suc k) c m) m) [0..<n] m =
    (\<lambda>a. if row_addr k \<le> a \<and> a < row_addr k + 2 * n then m (a + 160) else m a)" if "n \<le> 80" for n
    using that
  proof (induction n)
    case (Suc n)
    then show ?case
      by (auto simp: write_raw_read_char fun_eq_iff row_addr_Suc add_ac; presburger)
  qed (auto simp: fun_eq_iff)
  from this [of 80] show ?thesis by (simp add: copy_row_up_def BUFFER_WIDTH_def row_addr_Suc r)
qed

lemma copy_rows_eq:
  "fold copy_row_up [1..<Suc n] m =
     (\<lambda>a. if row_addr 0 \<le> a \<and> a < row_addr n then m (a + 160) else m a)"
proof (induction n)
  case (Suc n)
  have le: "row_addr 0 \<le> row_addr n" by (rule row_addr_mono) simp
  have "fold copy_row_up [1..<Suc (Suc n)] m = copy_row_up (Suc n) (fold copy_row_up [1..<Suc n] m)" by simp
  also have "\<dots> = (\<lambda>a. if row_addr 0 \<le> a \<and> a < row_addr (Suc n) then m (a + 160) else m a)"
    unfolding Suc.IH using le by (auto simp: copy_row_up_eq fun_eq_iff row_addr_Suc)
  finally show ?case .
qed (auto simp: fun_eq_iff)

lemma clear_rows_eq:
  "fold (\<lambda>r. clear_row r clr) [0..<n] m =
     (\<lambda>a. if row_addr 0 \<le> a \<and> a < row_addr n then (if even (a - row_addr 0) then 0x20 else clr) else m a)"
proof (induction n)
  case (Suc n)
  have "row_addr 0 \<le> row_addr n" "even (row_addr n)" "even (row_addr 0)"
    by (simp_all add: row_addr_def VGA_BUFFER_ADDR_def)
  with Suc show ?case by (auto simp: clear_row_eq fun_eq_iff row_addr_Suc)
qed (auto simp: fun_eq_iff)

section \<open>The console as a grid of cells\<close>

text \<open>
  The abstract console: 25 rows of 80 cells (character and colour), a cursor and a
  colour.  Scrolling drops the first row and appends a blank one.
\<close>

record console =
  grid :: "(u8 \<times> u8) list list"
  cur_row :: nat
  cur_col :: nat
  cur_color :: u8

definition console_blank_row :: "u8 \<Rightarrow> (u8 \<times> u8) list" where
  "console_blank_row clr = replicate BUFFER_WIDTH (0x20, clr)"

definition console_newline :: "console \<Rightarrow> console" where
  "console_newline t =
     (if cur_row t + 1 < BUFFER_HEIGHT then t\<lparr>cur_row := cur_row t + 1, cur_col := 0\<rparr>
      else t\<lparr>grid := tl (grid t) @ [console_blank_row (cur_color t)], cur_col := 0\<rparr>)"

definition console_set_cell :: "nat \<Rightarrow> nat \<Rightarrow> u8 \<Rightarrow> console \<Rightarrow> console" where
  "console_set_cell r c b t = t\<lparr>grid := (grid t)[r := (grid t ! r)[c := (b, cur_color t)]]\<rparr>"

definition console_put :: "u8 \<Rightarrow> console \<Rightarrow> console" where
  "console_put b t =
     (if b = 0x0A then console_newline t
      else let t1 = (if cur_col t = BUFFER_WIDTH then console_newline t else t)
           in (console_set_cell (cur_row t1) (cur_col t1) b t1)\<lparr>cur_col := cur_col t1 + 1\<rparr>)"

definition glyph :: "u8 \<Rightarrow> u8" where
  "glyph b = (if b \<in> {0x20..0x7E} \<or> b = 0x0A then b else 0xFE)"

definition console_write :: "u8 list \<Rightarrow> console \<Rightarrow> console" where
  "console_write s t = fold (console_put \<circ> glyph) s t"

definition grid_of :: "mem \<Rightarrow> (u8 \<times> u8) list list" where
  "grid_of m = map (\<lambda>r. map (\<lambda>c. (m (row_addr r + 2 * c), m (row_addr r + 2 * c + 1))) [0..<BUFFER_WIDTH])
     [0..<BUFFER_HEIGHT]"

definition console_of :: "writer \<Rightarrow> console" where
  "console_of w = \<lparr>grid = grid_of (vmem w), cur_row = row w, cur_col = column_position w, cur_color = color_code w\<rparr>"

text \<open>The invariant of the cursor, and the addresses outside the text buffer.\<close>

definition vga_inv :: "writer \<Rightarrow> bool" where
  "vga_inv w \<longleftrightarrow> row w < BUFFER_HEIGHT \<and> column_position w \<le> BUFFER_WIDTH"

definition outside :: "nat \<Rightarrow> bool" where
  "outside a \<longleftrightarrow> a < VGA_BUFFER_ADDR \<or> VGA_BUFFER_ADDR + 4000 \<le> a"

lemma length_grid_of [simp]: "length (grid_of m) = BUFFER_HEIGHT"
  by (simp add: grid_of_def)

lemma grid_of_nth: "r < BUFFER_HEIGHT \<Longrightarrow> grid_of m ! r =
    map (\<lambda>c. (m (row_addr r + 2 * c), m (row_addr r + 2 * c + 1))) [0..<BUFFER_WIDTH]"
  by (simp add: grid_of_def)

lemma row_addr_eq_iff:
  assumes "c < 80" "c' < 80" "i < 2" "j < 2"
  shows "row_addr r + 2 * c + i = row_addr r' + 2 * c' + j \<longleftrightarrow> r = r' \<and> c = c' \<and> i = j"
proof
  assume "row_addr r + 2 * c + i = row_addr r' + 2 * c' + j"
  then have eq: "160 * r + (2 * c + i) = 160 * r' + (2 * c' + j)" by (simp add: row_addr_def)
  have "(160 * r + (2 * c + i)) div 160 = r" "(160 * r' + (2 * c' + j)) div 160 = r'"
    using assms by simp_all
  with eq have "r = r'" by simp
  moreover from this eq have "2 * c + i = 2 * c' + j" by simp
  then have "c = c'" "i = j" using assms(3,4) by presburger+
  ultimately show "r = r' \<and> c = c' \<and> i = j" by simp
qed auto

lemma grid_of_write_char:
  assumes "r < BUFFER_HEIGHT" "c < BUFFER_WIDTH"
  shows "grid_of (write_char_at r c b clr m) = (grid_of m)[r := (grid_of m ! r)[c := (b, clr)]]"
proof (rule nth_equalityI)
  fix r' assume r': "r' < length (grid_of (write_char_at r c b clr m))"
  have c80: "c < 80" using assms(2) by (simp add: BUFFER_WIDTH_def)
  have *: "(row_addr r' + 2 * c' = row_addr r + 2 * c) = (r' = r \<and> c' = c)"
    "(row_addr r' + 2 * c' = Suc (row_addr r + 2 * c)) = False"
    "(Suc (row_addr r' + 2 * c') = row_addr r + 2 * c) = False" if "c' < 80" for c'
    using row_addr_eq_iff [OF that c80, of 0 0 r' r] row_addr_eq_iff [OF that c80, of 0 1 r' r]
      row_addr_eq_iff [OF that c80, of 1 0 r' r] by auto
  show "grid_of (write_char_at r c b clr m) ! r' = (grid_of m)[r := (grid_of m ! r)[c := (b, clr)]] ! r'"
    using r' assms *
    by (auto intro!: nth_equalityI simp: grid_of_nth nth_list_update write_char_at_eq BUFFER_WIDTH_def)
qed simp

lemma scroll_mem:
  "vmem (scroll w) = clear_row 24 (color_code w)
     (\<lambda>a. if row_addr 0 \<le> a \<and> a < row_addr 24 then vmem w (a + 160) else vmem w a)"
  using copy_rows_eq [of 24 "vmem w"] by (simp add: scroll_def BUFFER_HEIGHT_def del: upt_Suc)

lemma scroll_mem_upper:
  assumes "r < 24" "k < 160"
  shows "vmem (scroll w) (row_addr r + k) = vmem w (row_addr (Suc r) + k)"
proof -
  have "row_addr 0 \<le> row_addr r" "row_addr (Suc r) \<le> row_addr 24"
    using assms(1) by (auto intro!: row_addr_mono)
  with assms(2) show ?thesis by (simp add: scroll_mem clear_row_eq row_addr_Suc add_ac)
qed

lemma scroll_mem_last: "k < 160 \<Longrightarrow> vmem (scroll w) (row_addr 24 + k) = (if even k then 0x20 else color_code w)"
  using row_addr_Suc [of 24] by (simp add: scroll_mem clear_row_eq)

lemma grid_of_scroll: "grid_of (vmem (scroll w)) = tl (grid_of (vmem w)) @ [console_blank_row (color_code w)]"
proof (rule nth_equalityI)
  fix r assume r: "r < length (grid_of (vmem (scroll w)))"
  show "grid_of (vmem (scroll w)) ! r = (tl (grid_of (vmem w)) @ [console_blank_row (color_code w)]) ! r"
  proof (cases "r < 24")
    case True
    have "vmem (scroll w) (row_addr r + 2 * c) = vmem w (row_addr (Suc r) + 2 * c)"
      "vmem (scroll w) (Suc (row_addr r + 2 * c)) = vmem w (Suc (row_addr (Suc r) + 2 * c))"
      if "c < 80" for c
      using scroll_mem_upper [OF True, of "2 * c" w] scroll_mem_upper [OF True, of "2 * c + 1" w] that by simp_all
    with True show ?thesis
      by (simp add: grid_of_nth nth_append nth_tl BUFFER_HEIGHT_def BUFFER_WIDTH_def)
  next
    case False
    with r have "r = 24" by (simp add: BUFFER_HEIGHT_def)
    moreover have "vmem (scroll w) (row_addr 24 + 2 * c) = 0x20"
      "vmem (scroll w) (Suc (row_addr 24 + 2 * c)) = color_code w" if "c < 80" for c
      using scroll_mem_last [of "2 * c" w] scroll_mem_last [of "2 * c + 1" w] that by simp_all
    ultimately show ?thesis
      by (auto intro!: nth_equalityI simp: grid_of_nth nth_append BUFFER_HEIGHT_def BUFFER_WIDTH_def
          console_blank_row_def)
  qed
qed (simp add: BUFFER_HEIGHT_def)

lemma grid_of_clear:
  "grid_of (vmem (clear w)) = replicate BUFFER_HEIGHT (console_blank_row (color_code w))"
proof -
  have ev: "even (row_addr r - row_addr 0)" for r by (simp add: row_addr_def)
  have "vmem (clear w) (row_addr r + 2 * c) = 0x20" "vmem (clear w) (Suc (row_addr r + 2 * c)) = color_code w"
    if "r < 25" "c < 80" for r c
  proof -
    have "row_addr 0 \<le> row_addr r" "row_addr (Suc r) \<le> row_addr 25"
      using that(1) by (auto intro!: row_addr_mono)
    then show "vmem (clear w) (row_addr r + 2 * c) = 0x20"
      "vmem (clear w) (Suc (row_addr r + 2 * c)) = color_code w"
      using that(2) ev [of r]
      by (auto simp: clear_def clear_rows_eq BUFFER_HEIGHT_def row_addr_Suc Suc_diff_le)
  qed
  then show ?thesis
    by (auto intro!: nth_equalityI simp: grid_of_nth BUFFER_HEIGHT_def BUFFER_WIDTH_def console_blank_row_def)
qed

lemma new_line_fields [simp]:
  "column_position (new_line w) = 0" "color_code (new_line w) = color_code w"
  by (simp_all add: new_line_def scroll_def Let_def)

lemma vga_inv_new_line: "vga_inv w \<Longrightarrow> vga_inv (new_line w)"
  by (simp add: vga_inv_def new_line_def scroll_def BUFFER_HEIGHT_def Let_def)

lemma console_new_line: "vga_inv w \<Longrightarrow> console_of (new_line w) = console_newline (console_of w)"
  using grid_of_scroll [of "w\<lparr>column_position := 0\<rparr>"]
  by (auto simp: console_of_def console_newline_def new_line_def vga_inv_def BUFFER_HEIGHT_def Let_def)
    (simp_all add: scroll_def)

lemma vga_inv_write_byte: "vga_inv w \<Longrightarrow> vga_inv (write_byte b w)"
  using vga_inv_new_line [of w]
  by (auto simp: write_byte_def Let_def vga_inv_def BUFFER_WIDTH_def)

lemma console_write_byte:
  assumes "vga_inv w"
  shows "console_of (write_byte b w) = console_put b (console_of w)"
proof (cases "b = 0x0A")
  case True
  with assms show ?thesis by (simp add: write_byte_def console_put_def console_new_line)
next
  case False
  let ?w = "if BUFFER_WIDTH \<le> column_position w then new_line w else w"
  have w: "row ?w < BUFFER_HEIGHT" "column_position ?w < BUFFER_WIDTH"
    using assms vga_inv_new_line [OF assms] by (auto simp: vga_inv_def BUFFER_WIDTH_def)
  have "console_of ?w = (if cur_col (console_of w) = BUFFER_WIDTH then console_newline (console_of w) else console_of w)"
    using assms console_new_line [OF assms] by (auto simp: vga_inv_def console_of_def)
  moreover have "console_of (write_byte b w) =
      (console_set_cell (row ?w) (column_position ?w) b (console_of ?w))\<lparr>cur_col := column_position ?w + 1\<rparr>"
    using False w by (simp add: write_byte_def Let_def console_of_def console_set_cell_def grid_of_write_char)
  moreover have "cur_row (console_of ?w) = row ?w" "cur_col (console_of ?w) = column_position ?w"
    by (simp_all add: console_of_def)
  ultimately show ?thesis using False by (simp add: console_put_def Let_def)
qed

text \<open>The initial console: blank cells, cursor at the top left.\<close>

definition console_init :: console where
  "console_init = \<lparr>grid = replicate BUFFER_HEIGHT (console_blank_row (color_code_new White Black)),
     cur_row = 0, cur_col = 0, cur_color = color_code_new White Black\<rparr>"

lemma vga_inv_init: "vga_inv (vga_init m)" and console_vga_init: "console_of (vga_init m) = console_init"
proof -
  show "console_of (vga_init m) = console_init"
    using grid_of_clear [of "WRITER m"]
    by (simp add: console_of_def vga_init_def console_init_def) (simp add: clear_def WRITER_def)
qed (simp add: vga_inv_def vga_init_def clear_def WRITER_def BUFFER_HEIGHT_def)

lemma write_string_refines:
  "vga_inv w \<Longrightarrow> vga_inv (write_string s w) \<and> console_of (write_string s w) = console_write s (console_of w)"
proof (induction s arbitrary: w)
  case (Cons b s)
  have g: "(if 0x20 \<le> b \<and> b \<le> 0x7E \<or> b = 0x0A then b else 0xFE) = glyph b"
    by (simp add: glyph_def)
  show ?case
    using Cons.IH [OF vga_inv_write_byte [OF Cons.prems, of "glyph b"]] Cons.prems
    by (simp add: write_string_def console_write_def g console_write_byte)
qed (simp_all add: write_string_def console_write_def)

section \<open>Properties\<close>

text \<open>
  Claim C27.  The byte-level console implements the grid: from the initialised screen, any
  text printed leaves the video memory holding exactly the cells of the abstract console
  to which the same text was written (wrapping at 80 columns, newline, scrolling at the
  bottom row, non-printable bytes shown as 0xFE), with the cursor and colour agreeing.
\<close>

theorem kprint_refines_console:
  "console_of (kprint str (vga_init m)) = console_write str console_init"
  using write_string_refines [OF vga_inv_init, of str m] by (simp add: kprint_def console_vga_init)

lemma write_char_at_outside:
  "r < BUFFER_HEIGHT \<Longrightarrow> c < BUFFER_WIDTH \<Longrightarrow> outside a \<Longrightarrow> write_char_at r c b clr m a = m a"
  by (auto simp: write_char_at_eq outside_def row_addr_def BUFFER_HEIGHT_def BUFFER_WIDTH_def)

lemma scroll_outside: "outside a \<Longrightarrow> vmem (scroll w) a = vmem w a"
  by (auto simp: scroll_mem clear_row_eq row_addr_def outside_def)

lemma new_line_outside: "outside a \<Longrightarrow> vmem (new_line w) a = vmem w a"
  by (simp add: new_line_def scroll_outside Let_def)

lemma write_byte_outside:
  assumes "vga_inv w" "outside a"
  shows "vmem (write_byte b w) a = vmem w a"
proof -
  have "row (new_line w) < BUFFER_HEIGHT" using vga_inv_new_line [OF assms(1)] by (simp add: vga_inv_def)
  with assms show ?thesis
    by (auto simp: write_byte_def Let_def new_line_outside write_char_at_outside vga_inv_def BUFFER_WIDTH_def)
qed

text \<open>What the rest of the kernel does with the writer.\<close>

datatype console_op = Print "u8 list" | Erase | Clear_Screen | Set_Color color color

fun console_step :: "console_op \<Rightarrow> writer \<Rightarrow> writer" where
  "console_step (Print s) w = kprint s w"
| "console_step Erase w = backspace w"
| "console_step Clear_Screen w = clear w"
| "console_step (Set_Color fg bg) w = set_color fg bg w"

lemma write_string_outside:
  "vga_inv w \<Longrightarrow> outside a \<Longrightarrow> vmem (write_string s w) a = vmem w a"
proof (induction s arbitrary: w)
  case (Cons b s)
  let ?b = "if 0x20 \<le> b \<and> b \<le> 0x7E \<or> b = 0x0A then b else 0xFE"
  have "vmem (write_string s (write_byte ?b w)) a = vmem (write_byte ?b w) a"
    by (rule Cons.IH [OF vga_inv_write_byte [OF Cons.prems(1)] Cons.prems(2)])
  then show ?case using Cons.prems by (simp add: write_string_def write_byte_outside)
qed (simp add: write_string_def)

lemma vga_init_outside: "outside a \<Longrightarrow> vmem (vga_init m) a = m a"
  by (auto simp: vga_init_def WRITER_def clear_def clear_rows_eq outside_def row_addr_def BUFFER_HEIGHT_def)

lemma console_step_safe:
  assumes "vga_inv w"
  shows "vga_inv (console_step act w) \<and> (\<forall>a. outside a \<longrightarrow> vmem (console_step act w) a = vmem w a)"
proof (cases act)
  case (Print s)
  then show ?thesis using assms write_string_refines [OF assms, of s] by (simp add: kprint_def write_string_outside)
next
  case Erase
  then show ?thesis using assms
    by (auto simp: backspace_def Let_def vga_inv_def write_char_at_outside BUFFER_WIDTH_def)
next
  case Clear_Screen
  then show ?thesis
    by (auto simp: clear_def clear_rows_eq vga_inv_def outside_def row_addr_def BUFFER_HEIGHT_def)
next
  case (Set_Color fg bg)
  then show ?thesis using assms by (simp add: set_color_def vga_inv_def)
qed

text \<open>
  Memory safety of the console: whatever is printed, erased, cleared or
  recoloured, in any order from the initial writer, the cursor stays within 25 rows and 80
  columns and no byte of memory outside the 4000 bytes at 0xB8000 is ever changed.
\<close>

lemma console_writes_stay_in_buffer:
  "vga_inv (fold console_step acts (vga_init m)) \<and>
   (\<forall>a. a < 0xB8000 \<or> 0xB8000 + 4000 \<le> a \<longrightarrow> vmem (fold console_step acts (vga_init m)) a = m a)"
proof -
  have "vga_inv w \<Longrightarrow> vga_inv (fold console_step acts w) \<and>
      (\<forall>a. outside a \<longrightarrow> vmem (fold console_step acts w) a = vmem w a)" for w
  proof (induction acts arbitrary: w)
    case (Cons act acts)
    then show ?case using console_step_safe [OF Cons.prems, of act] by simp
  qed simp
  moreover note vga_init_outside
  ultimately show ?thesis using vga_inv_init [of m]
    by (auto simp: outside_def VGA_BUFFER_ADDR_def)
qed

end
