(* ===== verification/Interrupts.thy ===== *)
theory Interrupts
  imports Keyboard Process Vga
begin

text \<open>
  The kernel's global state and its interrupt layer (\<open>kernel/src/arch/x86_64/interrupts.rs\<close>,
  \<open>idt.rs\<close>): the handlers of CPU exceptions and hardware interrupts, the table that binds
  them to vectors, and the interrupt controller masks.  The interrupt controller crate is
  represented by the end-of-interrupt commands and the masks it is given.
\<close>

section \<open>The kernel state\<close>

text \<open>The nodes and open files of the system call layer (\<open>kernel/src/syscall/mod.rs\<close>).\<close>

datatype pseudo_node = ProcVersion | ProcUptime | ProcMeminfo | SysHostname
  | DevNull | DevZero | DevFull | DevTtyS0

record open_file =
  of_node :: pseudo_node
  of_offset :: u64

text \<open>
  The statics of all components, the memory user pointers refer to, the text sent to COM1
  by the system call layer, the interrupt controllers' masks and the end-of-interrupt
  commands sent.
\<close>

record 'kb kernel =
  k_procs :: procs
  k_keyboard :: "'kb keyboard"
  k_writer :: writer
  k_serial :: "u8 list"
  FD_TABLE :: "open_file option list"
  k_mem :: "u64 \<Rightarrow> u8"
  k_pic_masks :: "u8 \<times> u8"
  k_eoi :: "u8 list"

section \<open>Hardware interrupts\<close>

definition PIC_1_OFFSET :: u8 where
  "PIC_1_OFFSET = 0x20"

definition PIC_2_OFFSET :: u8 where
  "PIC_2_OFFSET = PIC_1_OFFSET + 8"

datatype interrupt_index = Timer | Keyboard | Cascade | Com2 | Com1 | Lpt2 | FloppyDisk | Lpt1
  | RtcTimer | Legacy1 | Legacy2 | Legacy3 | Ps2Mouse | FpuCoprocessor | PrimaryAta | SecondaryAta

text \<open>\<open>Timer = PIC_1_OFFSET\<close>, and each further variant one more.\<close>

fun as_u8 :: "interrupt_index \<Rightarrow> u8" where
  "as_u8 Timer = PIC_1_OFFSET" | "as_u8 Keyboard = PIC_1_OFFSET + 1" | "as_u8 Cascade = PIC_1_OFFSET + 2"
| "as_u8 Com2 = PIC_1_OFFSET + 3" | "as_u8 Com1 = PIC_1_OFFSET + 4" | "as_u8 Lpt2 = PIC_1_OFFSET + 5"
| "as_u8 FloppyDisk = PIC_1_OFFSET + 6" | "as_u8 Lpt1 = PIC_1_OFFSET + 7" | "as_u8 RtcTimer = PIC_1_OFFSET + 8"
| "as_u8 Legacy1 = PIC_1_OFFSET + 9" | "as_u8 Legacy2 = PIC_1_OFFSET + 10" | "as_u8 Legacy3 = PIC_1_OFFSET + 11"
| "as_u8 Ps2Mouse = PIC_1_OFFSET + 12" | "as_u8 FpuCoprocessor = PIC_1_OFFSET + 13"
| "as_u8 PrimaryAta = PIC_1_OFFSET + 14" | "as_u8 SecondaryAta = PIC_1_OFFSET + 15"

definition notify_end_of_interrupt :: "u8 \<Rightarrow> 'kb kernel \<Rightarrow> 'kb kernel" where
  "notify_end_of_interrupt v s = s\<lparr>k_eoi := k_eoi s @ [v]\<rparr>"

text \<open>One equation per handler; \<open>data\<close> is what the keyboard's data port returns.\<close>

datatype irq_handler = timer_interrupt_handler | keyboard_interrupt_handler | cascade_interrupt_handler
  | com2_interrupt_handler | com1_interrupt_handler | lpt2_interrupt_handler | floppy_interrupt_handler
  | lpt1_interrupt_handler | rtc_interrupt_handler | legacy1_interrupt_handler
  | legacy2_interrupt_handler | legacy3_interrupt_handler | mouse_interrupt_handler
  | fpu_interrupt_handler | primary_ata_handler | secondary_ata_handler

fun run_handler :: "profile \<Rightarrow> ('kb, 'ev, 'kc) pc_keyboard \<Rightarrow> u8 \<Rightarrow> irq_handler \<Rightarrow> 'kb kernel \<Rightarrow> 'kb kernel outcome" where
  "run_handler prof K data timer_interrupt_handler s =
     obind (tick prof (k_procs s)) (\<lambda>p. Ret (notify_end_of_interrupt (as_u8 Timer) (s\<lparr>k_procs := p\<rparr>)))"
| "run_handler prof K data keyboard_interrupt_handler s =
     obind (handle_interrupt K data (k_keyboard s))
       (\<lambda>k. Ret (notify_end_of_interrupt (as_u8 Keyboard) (s\<lparr>k_keyboard := k\<rparr>)))"
| "run_handler prof K data cascade_interrupt_handler s = Ret (notify_end_of_interrupt (as_u8 Cascade) s)"
| "run_handler prof K data com2_interrupt_handler s = Ret (notify_end_of_interrupt (as_u8 Com2) s)"
| "run_handler prof K data com1_interrupt_handler s = Ret (notify_end_of_interrupt (as_u8 Com1) s)"
| "run_handler prof K data lpt2_interrupt_handler s = Ret (notify_end_of_interrupt (as_u8 Lpt2) s)"
| "run_handler prof K data floppy_interrupt_handler s = Ret (notify_end_of_interrupt (as_u8 FloppyDisk) s)"
| "run_handler prof K data lpt1_interrupt_handler s = Ret (notify_end_of_interrupt (as_u8 Lpt1) s)"
| "run_handler prof K data rtc_interrupt_handler s = Ret (notify_end_of_interrupt (as_u8 RtcTimer) s)"
| "run_handler prof K data legacy1_interrupt_handler s = Ret (notify_end_of_interrupt (as_u8 Legacy1) s)"
| "run_handler prof K data legacy2_interrupt_handler s = Ret (notify_end_of_interrupt (as_u8 Legacy2) s)"
| "run_handler prof K data legacy3_interrupt_handler s = Ret (notify_end_of_interrupt (as_u8 Legacy3) s)"
| "run_handler prof K data mouse_interrupt_handler s = Ret (notify_end_of_interrupt (as_u8 Ps2Mouse) s)"
| "run_handler prof K data fpu_interrupt_handler s = Ret (notify_end_of_interrupt (as_u8 FpuCoprocessor) s)"
| "run_handler prof K data primary_ata_handler s = Ret (notify_end_of_interrupt (as_u8 PrimaryAta) s)"
| "run_handler prof K data secondary_ata_handler s = Ret (notify_end_of_interrupt (as_u8 SecondaryAta) s)"

section \<open>CPU exceptions\<close>

datatype cpu_exception = divide_error | debug_exn | nmi | breakpoint | overflow_exn | bound_range_exceeded
  | invalid_opcode | device_not_available | double_fault | invalid_tss | segment_not_present
  | stack_segment_fault | general_protection_fault | page_fault | x87_floating_point
  | alignment_check | machine_check | simd_floating_point | virtualization | security_exception

text \<open>
  The \<open>x86_64\<close> crate prints its own types: the stack frame (\<open>{:#?}\<close>), an address and the
  error code of a page fault (\<open>{:?}\<close>).
\<close>

record 'f debug_text =
  show_frame :: "'f \<Rightarrow> string"
  show_virt_addr :: "u64 \<Rightarrow> string"
  show_page_fault_error :: "u64 \<Rightarrow> string"

definition exception_text :: "'f debug_text \<Rightarrow> string \<Rightarrow> 'f \<Rightarrow> string" where
  "exception_text D str frame = ''EXCEPTION: '' @ str @ [CHR 0x0A] @ show_frame D frame"

definition exception_code_text :: "'f debug_text \<Rightarrow> string \<Rightarrow> string \<Rightarrow> u64 \<Rightarrow> 'f \<Rightarrow> string" where
  "exception_code_text D str label code frame =
     exception_text D (str @ '' ('' @ label @ ''=0x'' @ show_hex (unat code) @ '')'') frame"

text \<open>
  What each exception handler says: \<open>Inl\<close> in a kernel panic, \<open>Inr\<close> in a line on the serial port
  before it returns.  \<open>cr2\<close> is the register with the address of a page fault.
\<close>

fun exception_handler :: "'f debug_text \<Rightarrow> u64 \<Rightarrow> cpu_exception \<Rightarrow> 'f \<Rightarrow> u64 \<Rightarrow> string + string" where
  "exception_handler D cr2 divide_error frame code = Inl (exception_text D ''DIVIDE ERROR'' frame)"
| "exception_handler D cr2 debug_exn frame code = Inr (exception_text D ''DEBUG'' frame)"
| "exception_handler D cr2 nmi frame code = Inl (exception_text D ''NON-MASKABLE INTERRUPT'' frame)"
| "exception_handler D cr2 breakpoint frame code = Inr (exception_text D ''BREAKPOINT'' frame)"
| "exception_handler D cr2 overflow_exn frame code = Inl (exception_text D ''OVERFLOW'' frame)"
| "exception_handler D cr2 bound_range_exceeded frame code = Inl (exception_text D ''BOUND RANGE EXCEEDED'' frame)"
| "exception_handler D cr2 invalid_opcode frame code = Inl (exception_text D ''INVALID OPCODE'' frame)"
| "exception_handler D cr2 device_not_available frame code = Inl (exception_text D ''DEVICE NOT AVAILABLE'' frame)"
| "exception_handler D cr2 double_fault frame code = Inl (exception_code_text D ''DOUBLE FAULT'' ''error'' code frame)"
| "exception_handler D cr2 invalid_tss frame code = Inl (exception_code_text D ''INVALID TSS'' ''selector'' code frame)"
| "exception_handler D cr2 segment_not_present frame code = Inl (exception_code_text D ''SEGMENT NOT PRESENT'' ''selector'' code frame)"
| "exception_handler D cr2 stack_segment_fault frame code = Inl (exception_code_text D ''STACK SEGMENT FAULT'' ''error'' code frame)"
| "exception_handler D cr2 general_protection_fault frame code = Inl (exception_code_text D ''GENERAL PROTECTION FAULT'' ''error'' code frame)"
| "exception_handler D cr2 page_fault frame code =
     Inl (''EXCEPTION: PAGE FAULT'' @ [CHR 0x0A] @ ''  Accessed address: '' @ show_virt_addr D cr2 @ [CHR 0x0A] @
       ''  Error code: '' @ show_page_fault_error D code @ [CHR 0x0A] @ show_frame D frame)"
| "exception_handler D cr2 x87_floating_point frame code = Inl (exception_text D ''x87 FLOATING POINT'' frame)"
| "exception_handler D cr2 alignment_check frame code = Inl (exception_code_text D ''ALIGNMENT CHECK'' ''error'' code frame)"
| "exception_handler D cr2 machine_check frame code = Inl (exception_text D ''MACHINE CHECK'' frame)"
| "exception_handler D cr2 simd_floating_point frame code = Inl (exception_text D ''SIMD FLOATING POINT'' frame)"
| "exception_handler D cr2 virtualization frame code = Inl (exception_text D ''VIRTUALIZATION'' frame)"
| "exception_handler D cr2 security_exception frame code = Inl (exception_code_text D ''SECURITY EXCEPTION'' ''error'' code frame)"

section \<open>The interrupt descriptor table\<close>

definition DOUBLE_FAULT_IST_INDEX :: u16 where
  "DOUBLE_FAULT_IST_INDEX = 0"

definition GPF_IST_INDEX :: u16 where
  "GPF_IST_INDEX = 1"

text \<open>
  A table maps the named exception fields to a handler and the interrupt stack it runs on,
  and the vectors from 32 up to a hardware handler.
\<close>

record idt =
  idt_exceptions :: "cpu_exception \<rightharpoonup> cpu_exception \<times> u16 option"
  idt_irqs :: "u8 \<rightharpoonup> irq_handler"

definition idt_build :: idt where
  "idt_build = \<lparr>
     idt_exceptions = [
       divide_error \<mapsto> (divide_error, None), debug_exn \<mapsto> (debug_exn, None), nmi \<mapsto> (nmi, None),
       breakpoint \<mapsto> (breakpoint, None), overflow_exn \<mapsto> (overflow_exn, None),
       bound_range_exceeded \<mapsto> (bound_range_exceeded, None), invalid_opcode \<mapsto> (invalid_opcode, None),
       device_not_available \<mapsto> (device_not_available, None),
       double_fault \<mapsto> (double_fault, Some DOUBLE_FAULT_IST_INDEX),
       invalid_tss \<mapsto> (invalid_tss, None), segment_not_present \<mapsto> (segment_not_present, None),
       stack_segment_fault \<mapsto> (stack_segment_fault, None),
       general_protection_fault \<mapsto> (general_protection_fault, Some GPF_IST_INDEX),
       page_fault \<mapsto> (page_fault, None), x87_floating_point \<mapsto> (x87_floating_point, None),
       alignment_check \<mapsto> (alignment_check, None), machine_check \<mapsto> (machine_check, None),
       simd_floating_point \<mapsto> (simd_floating_point, None), virtualization \<mapsto> (virtualization, None),
       security_exception \<mapsto> (security_exception, None)],
     idt_irqs = [
       as_u8 Timer \<mapsto> timer_interrupt_handler, as_u8 Keyboard \<mapsto> keyboard_interrupt_handler,
       as_u8 Cascade \<mapsto> cascade_interrupt_handler, as_u8 Com2 \<mapsto> com2_interrupt_handler,
       as_u8 Com1 \<mapsto> com1_interrupt_handler, as_u8 Lpt2 \<mapsto> lpt2_interrupt_handler,
       as_u8 FloppyDisk \<mapsto> floppy_interrupt_handler, as_u8 Lpt1 \<mapsto> lpt1_interrupt_handler,
       as_u8 RtcTimer \<mapsto> rtc_interrupt_handler, as_u8 Legacy1 \<mapsto> legacy1_interrupt_handler,
       as_u8 Legacy2 \<mapsto> legacy2_interrupt_handler, as_u8 Legacy3 \<mapsto> legacy3_interrupt_handler,
       as_u8 Ps2Mouse \<mapsto> mouse_interrupt_handler, as_u8 FpuCoprocessor \<mapsto> fpu_interrupt_handler,
       as_u8 PrimaryAta \<mapsto> primary_ata_handler, as_u8 SecondaryAta \<mapsto> secondary_ata_handler]\<rparr>"

definition init_pics :: "'kb kernel \<Rightarrow> 'kb kernel" where
  "init_pics s =
     (let primary_mask = 0xFF AND NOT (push_bit 0 1 OR push_bit 1 1 OR push_bit 2 1);
          secondary_mask = 0xFF
      in s\<lparr>k_pic_masks := (primary_mask, secondary_mask)\<rparr>)"

text \<open>Taking the hardware interrupt of a vector: the handler the table binds to it, if any.\<close>

definition take_interrupt ::
    "profile \<Rightarrow> ('kb, 'ev, 'kc) pc_keyboard \<Rightarrow> u8 \<Rightarrow> u8 \<Rightarrow> 'kb kernel \<Rightarrow> 'kb kernel outcome option" where
  "take_interrupt prof K v data s =
     map_option (\<lambda>h. run_handler prof K data h s) (idt_irqs idt_build v)"

section \<open>Properties\<close>

definition irq_unmasked :: "'kb kernel \<Rightarrow> interrupt_index \<Rightarrow> bool" where
  "irq_unmasked s i =
     (let n = unat (as_u8 i - PIC_1_OFFSET)
      in if n < 8 then \<not> bit (fst (k_pic_masks s)) n else \<not> bit (snd (k_pic_masks s)) (n - 8))"

text \<open>
  Every hardware interrupt line is bound to a handler that acknowledges exactly
  its own vector: taking any of the 16 interrupts either panics or appends that
  interrupt's number, and nothing else, to the end-of-interrupt commands, and only the
  timer changes the process state and only the keyboard interrupt the keyboard state.
\<close>

lemma interrupts_acknowledge_own_vector:
  "\<exists>out. take_interrupt prof K (as_u8 i) data s = Some out \<and>
     (case out of Panic e \<Rightarrow> i = Timer \<or> i = Keyboard
      | Ret s' \<Rightarrow> k_eoi s' = k_eoi s @ [as_u8 i] \<and> FD_TABLE s' = FD_TABLE s \<and> k_mem s' = k_mem s \<and>
          (k_procs s' = k_procs s \<or> i = Timer) \<and> (k_keyboard s' = k_keyboard s \<or> i = Keyboard))"
proof (cases i)
  case Timer
  then show ?thesis
    by (cases "tick prof (k_procs s)")
      (simp_all add: take_interrupt_def idt_build_def PIC_1_OFFSET_def notify_end_of_interrupt_def)
next
  case Keyboard
  then show ?thesis
    by (cases "handle_interrupt K data (k_keyboard s)")
      (simp_all add: take_interrupt_def idt_build_def PIC_1_OFFSET_def notify_end_of_interrupt_def)
qed (simp_all add: take_interrupt_def idt_build_def PIC_1_OFFSET_def notify_end_of_interrupt_def)

end
