(* ===== verification/Fd_Table.thy ===== *)
theory Fd_Table
  imports Interrupts
begin

text \<open>
  The file-descriptor table and the pseudo nodes of the system call layer
  (\<open>kernel/src/syscall/mod.rs\<close>): how slots are allocated, looked up and freed, what a
  node returns when read, and the bytes user pointers refer to.  The interface
  \<open>slot_table\<close> states what the system calls rely on.
\<close>

section \<open>User memory\<close>

text \<open>The slice a user pointer and a count denote, and writing a slice back.\<close>

definition load_bytes :: "(u64 \<Rightarrow> u8) \<Rightarrow> u64 \<Rightarrow> nat \<Rightarrow> u8 list" where
  "load_bytes m p n = map (\<lambda>i. m (p + of_nat i)) [0..<n]"

definition store_bytes :: "u64 \<Rightarrow> u8 list \<Rightarrow> (u64 \<Rightarrow> u8) \<Rightarrow> u64 \<Rightarrow> u8" where
  "store_bytes p bs m = (\<lambda>a. if unat (a - p) < length bs then bs ! unat (a - p) else m a)"

section \<open>Error codes\<close>

datatype errno = Success | Perm | NoEnt | Srch | Intr | Io | BadF | NoMem | Acces | Fault | Inval
  | NFile | MFile | NoSpc | NoSys

fun errno_i64 :: "errno \<Rightarrow> i64" where
  "errno_i64 Success = 0" | "errno_i64 Perm = -1" | "errno_i64 NoEnt = -2" | "errno_i64 Srch = -3"
| "errno_i64 Intr = -4" | "errno_i64 Io = -5" | "errno_i64 BadF = -9" | "errno_i64 NoMem = -12"
| "errno_i64 Acces = -13" | "errno_i64 Fault = -14" | "errno_i64 Inval = -22" | "errno_i64 NFile = -23"
| "errno_i64 MFile = -24" | "errno_i64 NoSpc = -28" | "errno_i64 NoSys = -38"

section \<open>Reading nodes\<close>

text \<open>\<open>read_static\<close>: the number of bytes copied, and the buffer afterwards.\<close>

definition read_static :: "u8 list \<Rightarrow> u64 \<Rightarrow> u8 list \<Rightarrow> nat \<times> u8 list" where
  "read_static buf offset content =
     (let start = unat offset
      in if length content \<le> start then (0, buf)
         else let available = drop start content; n = min (length available) (length buf)
              in (n, copy_into (take n available) buf))"

definition version_text :: "u8 list" where
  "version_text = bytes ''ComputeKERNEL version 1.0.0 (Rust nightly)'' @ [0x0A]"

definition uptime_text :: "u64 \<Rightarrow> u8 list" where
  "uptime_text tcks =
     (let seconds = show_nat (unat (tcks div 100))
      in bytes (seconds @ ''.00 '' @ seconds @ ''.00'') @ [0x0A])"

definition meminfo_text :: "u8 list" where
  "meminfo_text = bytes ''MemTotal:         102400 kB'' @ [0x0A] @ bytes ''MemFree:           51200 kB'' @ [0x0A]"

definition hostname_text :: "u8 list" where
  "hostname_text = bytes ''computekernel'' @ [0x0A]"

text \<open>The \<open>match file.node\<close> of \<open>sys_read\<close>; \<open>tcks\<close> is the tick counter.\<close>

fun read_node :: "pseudo_node \<Rightarrow> u64 \<Rightarrow> u64 \<Rightarrow> u8 list \<Rightarrow> nat \<times> u8 list" where
  "read_node ProcVersion tcks offset out = read_static out offset version_text"
| "read_node ProcUptime tcks offset out = read_static out offset (uptime_text tcks)"
| "read_node ProcMeminfo tcks offset out = read_static out offset meminfo_text"
| "read_node SysHostname tcks offset out = read_static out offset hostname_text"
| "read_node DevNull tcks offset out = (0, out)"
| "read_node DevZero tcks offset out = (length out, replicate (length out) 0)"
| "read_node DevFull tcks offset out = (length out, replicate (length out) 0)"
| "read_node DevTtyS0 tcks offset out = (0, out)"

section \<open>Slots\<close>

text \<open>The loop of \<open>sys_open\<close>: the first free slot is filled, or a new one is pushed.\<close>

fun fd_insert :: "open_file \<Rightarrow> open_file option list \<Rightarrow> nat \<times> open_file option list" where
  "fd_insert file [] = (0, [Some file])"
| "fd_insert file (slot # table) =
     (if slot = None then (0, Some file # table)
      else let (idx, table') = fd_insert file table in (Suc idx, slot # table'))"

text \<open>\<open>table.get_mut(idx)\<close> then \<open>slot.as_mut()\<close>.\<close>

definition fd_lookup :: "open_file option list \<Rightarrow> nat \<Rightarrow> open_file option" where
  "fd_lookup table idx = (if idx < length table then table ! idx else None)"

text \<open>\<open>slot.take()\<close> on an existing slot.\<close>

definition fd_take :: "nat \<Rightarrow> open_file option list \<Rightarrow> open_file option list" where
  "fd_take idx table = table[idx := None]"

section \<open>The slot table interface\<close>

locale slot_table =
  fixes insert :: "'f \<Rightarrow> 't \<Rightarrow> nat \<times> 't"
    and lookup :: "'t \<Rightarrow> nat \<Rightarrow> 'f option"
    and remove :: "nat \<Rightarrow> 't \<Rightarrow> 't"
  assumes insert_free: "lookup t (fst (insert f t)) = None"
    and insert_lowest: "i < fst (insert f t) \<Longrightarrow> lookup t i \<noteq> None"
    and lookup_insert: "lookup (snd (insert f t)) i = (if i = fst (insert f t) then Some f else lookup t i)"
    and lookup_remove: "lookup (remove i t) j = (if j = i then None else lookup t j)"
begin

lemma insert_not_live: "lookup t i = Some g \<Longrightarrow> fst (insert f t) \<noteq> i"
  using insert_free [of t f] by auto

lemma remove_insert_same: "lookup (remove (fst (insert f t)) (snd (insert f t))) i = lookup t i"
  using insert_free [of t f] by (auto simp: lookup_remove lookup_insert)

lemma insert_after_remove:
  assumes "lookup t i = Some g" "\<forall>j<i. lookup t j \<noteq> None"
  shows "fst (insert f (remove i t)) = i"
proof (rule linorder_cases [of "fst (insert f (remove i t))" i])
  assume "fst (insert f (remove i t)) < i"
  with assms(2) insert_free [of "remove i t" f] show ?thesis by (auto simp: lookup_remove)
next
  assume "i < fst (insert f (remove i t))"
  then show ?thesis using insert_lowest [of i f "remove i t"] by (simp add: lookup_remove)
qed

end

lemma fd_lookup_simps [simp]:
  "fd_lookup [] i = None"
  "fd_lookup (slot # t) 0 = slot"
  "fd_lookup (slot # t) (Suc i) = fd_lookup t i"
  by (simp_all add: fd_lookup_def)

lemma fd_insert_free: "fd_lookup t (fst (fd_insert f t)) = None"
  by (induction t) (auto split: prod.splits)

lemma fd_insert_lowest: "i < fst (fd_insert f t) \<Longrightarrow> fd_lookup t i \<noteq> None"
proof (induction t arbitrary: i)
  case (Cons slot t)
  then show ?case by (cases i) (auto split: prod.splits if_splits)
qed simp

lemma fd_lookup_insert:
  "fd_lookup (snd (fd_insert f t)) i = (if i = fst (fd_insert f t) then Some f else fd_lookup t i)"
proof (induction t arbitrary: i)
  case (Cons slot t)
  then show ?case by (cases i) (auto split: prod.splits if_splits)
next
  case Nil
  then show ?case by (cases i) auto
qed

lemma fd_lookup_take: "fd_lookup (fd_take i t) j = (if j = i then None else fd_lookup t j)"
  by (auto simp: fd_lookup_def fd_take_def)

interpretation fds: slot_table fd_insert fd_lookup fd_take
  by unfold_locales (rule fd_insert_free fd_lookup_insert fd_lookup_take | erule fd_insert_lowest)+

end
