(* ===== verification/Syscall.thy ===== *)
theory Syscall
  imports Fd_Table
begin

text \<open>
  The system call layer (\<open>kernel/src/syscall/mod.rs\<close>): the handlers and \<open>dispatch\<close>, on the
  whole kernel state.  What the handlers wait for is the argument \<open>env\<close>: the interrupts
  taken in each \<open>hlt\<close> and the values the keyboard ports return.  User pointers are taken to
  refer to mapped memory, as the \<open>unsafe\<close> contract of \<open>dispatch\<close> requires.
\<close>

section \<open>Call numbers and registers\<close>

definition SYS_READ :: u64 where "SYS_READ = 0"
definition SYS_WRITE :: u64 where "SYS_WRITE = 1"
definition SYS_OPEN :: u64 where "SYS_OPEN = 2"
definition SYS_CLOSE :: u64 where "SYS_CLOSE = 3"
definition SYS_STAT :: u64 where "SYS_STAT = 4"
definition SYS_FSTAT :: u64 where "SYS_FSTAT = 5"
definition SYS_LSTAT :: u64 where "SYS_LSTAT = 6"
definition SYS_POLL :: u64 where "SYS_POLL = 7"
definition SYS_LSEEK :: u64 where "SYS_LSEEK = 8"
definition SYS_MMAP :: u64 where "SYS_MMAP = 9"
definition SYS_MPROTECT :: u64 where "SYS_MPROTECT = 10"
definition SYS_MUNMAP :: u64 where "SYS_MUNMAP = 11"
definition SYS_BRK :: u64 where "SYS_BRK = 12"
definition SYS_RT_SIGACTION :: u64 where "SYS_RT_SIGACTION = 13"
definition SYS_RT_SIGPROCMASK :: u64 where "SYS_RT_SIGPROCMASK = 14"
definition SYS_IOCTL :: u64 where "SYS_IOCTL = 16"
definition SYS_GETPID :: u64 where "SYS_GETPID = 39"
definition SYS_FORK :: u64 where "SYS_FORK = 57"
definition SYS_VFORK :: u64 where "SYS_VFORK = 58"
definition SYS_EXECVE :: u64 where "SYS_EXECVE = 59"
definition SYS_EXIT :: u64 where "SYS_EXIT = 60"
definition SYS_WAIT4 :: u64 where "SYS_WAIT4 = 61"
definition SYS_KILL :: u64 where "SYS_KILL = 62"
definition SYS_GETPPID :: u64 where "SYS_GETPPID = 110"
definition SYS_EXIT_GROUP :: u64 where "SYS_EXIT_GROUP = 231"

lemmas syscall_numbers = SYS_READ_def SYS_WRITE_def SYS_OPEN_def SYS_CLOSE_def SYS_BRK_def
  SYS_GETPID_def SYS_FORK_def SYS_EXECVE_def SYS_EXIT_def SYS_WAIT4_def SYS_KILL_def
  SYS_GETPPID_def SYS_EXIT_GROUP_def

lemmas declared_numbers = SYS_STAT_def SYS_FSTAT_def SYS_LSTAT_def SYS_POLL_def SYS_LSEEK_def SYS_MMAP_def SYS_MPROTECT_def
  SYS_MUNMAP_def SYS_RT_SIGACTION_def SYS_RT_SIGPROCMASK_def SYS_IOCTL_def SYS_VFORK_def

definition O_WRONLY :: i32 where "O_WRONLY = 0x1"
definition O_RDWR :: i32 where "O_RDWR = 0x2"
definition O_ACCMODE :: i32 where "O_ACCMODE = 0x3"

record syscall_frame =
  num :: u64
  rdi :: u64
  rsi :: u64
  rdx :: u64
  r10 :: u64
  r8 :: u64
  r9 :: u64

section \<open>Waiting\<close>

text \<open>Interrupts with the byte the keyboard's data port holds, taken one after the other.\<close>

type_synonym irqs = "(interrupt_index \<times> u8) list"

fun take_interrupts :: "profile \<Rightarrow> ('kb, 'ev, 'kc) pc_keyboard \<Rightarrow> irqs \<Rightarrow> 'kb kernel \<Rightarrow> 'kb kernel outcome" where
  "take_interrupts prof K [] s = Ret s"
| "take_interrupts prof K ((i, data) # is) s =
     (case take_interrupt prof K (as_u8 i) data s of
        Some out \<Rightarrow> obind out (take_interrupts prof K is)
      | None \<Rightarrow> Panic (Explicit ''EXCEPTION: GENERAL PROTECTION FAULT''))"

text \<open>
  The environment of one system call.  Each attempt to read a key has the interrupts taken
  before it and the values of the status and data ports; each wait has the interrupts that
  end its \<open>hlt\<close>.
\<close>

record syscall_env =
  env_keys :: "(irqs \<times> u8 \<times> u8) list"
  env_hlts :: "irqs list"

text \<open>A call that returned, one that never returns, and one still waiting at the end of \<open>env\<close>.\<close>

datatype 's syscall_result = Returned i64 's | NoReturn 's | StillWaiting

section \<open>Handlers\<close>

text \<open>\<open>n as i64\<close> for a \<open>usize\<close>.\<close>

definition as_i64 :: "usize \<Rightarrow> i64" where
  "as_i64 n = sint n"

text \<open>\<open>fd as usize - 3\<close>: the cast sign-extends, the subtraction is the profile's.\<close>

definition fd_index :: "profile \<Rightarrow> i32 \<Rightarrow> usize outcome" where
  "fd_index prof fd = arith_sub prof (scast fd) 3"

text \<open>The two loops of \<open>sys_read\<close> on standard input.\<close>

fun stdin_first :: "profile \<Rightarrow> ('kb, 'ev, 'kc) pc_keyboard \<Rightarrow> (irqs \<times> u8 \<times> u8) list \<Rightarrow> 'kb kernel \<Rightarrow>
    (u8 option \<times> (irqs \<times> u8 \<times> u8) list \<times> 'kb kernel) option outcome" where
  "stdin_first prof K [] s = Ret None"
| "stdin_first prof K ((is, status, data) # env) s =
     obind (take_interrupts prof K is s) (\<lambda>s1.
       if current_is_zombie (k_procs s1) then Ret (Some (None, env, s1))
       else obind (read_key K status data (k_keyboard s1)) (\<lambda>(c, k).
         case c of
           Some ch \<Rightarrow> Ret (Some (Some ch, env, s1\<lparr>k_keyboard := k\<rparr>))
         | None \<Rightarrow> stdin_first prof K env (s1\<lparr>k_keyboard := k\<rparr>)))"

fun stdin_rest :: "profile \<Rightarrow> ('kb, 'ev, 'kc) pc_keyboard \<Rightarrow> nat \<Rightarrow> (irqs \<times> u8 \<times> u8) list \<Rightarrow> 'kb kernel \<Rightarrow>
    (u8 list \<times> 'kb kernel) option outcome" where
  "stdin_rest prof K 0 env s = Ret (Some ([], s))"
| "stdin_rest prof K (Suc n) [] s = Ret None"
| "stdin_rest prof K (Suc n) ((is, status, data) # env) s =
     obind (take_interrupts prof K is s) (\<lambda>s1.
       obind (read_key K status data (k_keyboard s1)) (\<lambda>(c, k).
         case c of
           None \<Rightarrow> Ret (Some ([], s1\<lparr>k_keyboard := k\<rparr>))
         | Some ch \<Rightarrow>
             if ch = 0x0A \<or> ch = 0x0D then Ret (Some ([ch], s1\<lparr>k_keyboard := k\<rparr>))
             else obind (stdin_rest prof K n env (s1\<lparr>k_keyboard := k\<rparr>))
                    (\<lambda>r. Ret (map_option (\<lambda>(cs, s2). (ch # cs, s2)) r))))"

definition read_stdin :: "profile \<Rightarrow> ('kb, 'ev, 'kc) pc_keyboard \<Rightarrow> (irqs \<times> u8 \<times> u8) list \<Rightarrow> u64 \<Rightarrow> nat \<Rightarrow>
    'kb kernel \<Rightarrow> 'kb kernel syscall_result outcome" where
  "read_stdin prof K env buf count s =
     obind (stdin_first prof K env s) (\<lambda>r.
       case r of
         None \<Rightarrow> Ret StillWaiting
       | Some (None, _, s1) \<Rightarrow> Ret (Returned (errno_i64 Intr) s1)
       | Some (Some ch, env1, s1) \<Rightarrow>
           obind (stdin_rest prof K (count - 1) env1 s1) (\<lambda>r.
             case r of
               None \<Rightarrow> Ret StillWaiting
             | Some (cs, s2) \<Rightarrow>
                 Ret (Returned (as_i64 (of_nat (length (ch # cs))))
                   (s2\<lparr>k_mem := store_bytes buf (ch # cs) (k_mem s2)\<rparr>))))"

definition sys_read :: "profile \<Rightarrow> ('kb, 'ev, 'kc) pc_keyboard \<Rightarrow> (irqs \<times> u8 \<times> u8) list \<Rightarrow> i32 \<Rightarrow> u64 \<Rightarrow> usize \<Rightarrow>
    'kb kernel \<Rightarrow> 'kb kernel syscall_result outcome" where
  "sys_read prof K env fd buf count s =
     (if count = 0 then Ret (Returned 0 s)
      else if buf = 0 then Ret (Returned (errno_i64 Fault) s)
      else if fd = 0 then read_stdin prof K env buf (unat count) s
      else obind (fd_index prof fd) (\<lambda>idx.
        case fd_lookup (FD_TABLE s) (unat idx) of
          None \<Rightarrow> Ret (Returned (errno_i64 BadF) s)
        | Some file \<Rightarrow>
            let (n, out) = read_node (of_node file) (ticks (k_procs s)) (of_offset file)
                             (load_bytes (k_mem s) buf (unat count));
                file1 = file\<lparr>of_offset := saturating_add (of_offset file) (of_nat n)\<rparr>
            in Ret (Returned (as_i64 (of_nat n))
                 (s\<lparr>k_mem := store_bytes buf out (k_mem s),
                    FD_TABLE := (FD_TABLE s)[unat idx := Some file1]\<rparr>))))"

definition sys_write :: "profile \<Rightarrow> i32 \<Rightarrow> u64 \<Rightarrow> usize \<Rightarrow> 'kb kernel \<Rightarrow> 'kb kernel syscall_result outcome" where
  "sys_write prof fd buf count s =
     (if count = 0 then Ret (Returned 0 s)
      else if buf = 0 then Ret (Returned (errno_i64 Fault) s)
      else
        let slice = load_bytes (k_mem s) buf (unat count)
        in if fd = 1 \<or> fd = 2 then
             Ret (Returned (as_i64 count)
               (case from_utf8 slice of
                  Some str \<Rightarrow> s\<lparr>k_serial := k_serial s @ bytes str, k_writer := kprint (bytes str) (k_writer s)\<rparr>
                | None \<Rightarrow> s))
           else obind (fd_index prof fd) (\<lambda>idx.
             case fd_lookup (FD_TABLE s) (unat idx) of
               None \<Rightarrow> Ret (Returned (errno_i64 BadF) s)
             | Some file \<Rightarrow>
                 (case of_node file of
                    DevNull \<Rightarrow> Ret (Returned (as_i64 count) s)
                  | DevZero \<Rightarrow> Ret (Returned (as_i64 count) s)
                  | DevFull \<Rightarrow> Ret (Returned (errno_i64 NoSpc) s)
                  | DevTtyS0 \<Rightarrow>
                      Ret (Returned (as_i64 count)
                        (s\<lparr>k_serial := k_serial s @ concat (map (\<lambda>b. char_to_utf8 (ucast b)) slice)\<rparr>))
                  | _ \<Rightarrow> Ret (Returned (errno_i64 Perm) s))))"

text \<open>The loop of \<open>read_user_cstr\<close>: the bytes before the first NUL among the next \<open>n\<close>.\<close>

fun cstr_loop :: "(u64 \<Rightarrow> u8) \<Rightarrow> u64 \<Rightarrow> nat \<Rightarrow> u8 list option" where
  "cstr_loop m p 0 = None"
| "cstr_loop m p (Suc n) = (if m p = 0 then Some [] else map_option ((#) (m p)) (cstr_loop m (p + 1) n))"

definition read_user_cstr :: "(u64 \<Rightarrow> u8) \<Rightarrow> u64 \<Rightarrow> nat \<Rightarrow> string option" where
  "read_user_cstr m ptr max_len =
     (if ptr = 0 then None
      else case cstr_loop m ptr max_len of None \<Rightarrow> None | Some bs \<Rightarrow> from_utf8 bs)"

text \<open>The \<open>match path.as_str()\<close> of \<open>sys_open\<close>, and the nodes it refuses to open for writing.\<close>

definition node_of_path :: "string \<Rightarrow> pseudo_node option" where
  "node_of_path path =
     (if path = ''/proc/version'' then Some ProcVersion
      else if path = ''/proc/uptime'' then Some ProcUptime
      else if path = ''/proc/meminfo'' then Some ProcMeminfo
      else if path = ''/sys/kernel/hostname'' then Some SysHostname
      else if path = ''/dev/null'' then Some DevNull
      else if path = ''/dev/zero'' then Some DevZero
      else if path = ''/dev/full'' then Some DevFull
      else if path = ''/dev/ttyS0'' then Some DevTtyS0
      else None)"

definition write_requested :: "i32 \<Rightarrow> bool" where
  "write_requested flags = (let access = flags AND O_ACCMODE in access = O_WRONLY \<or> access = O_RDWR)"

definition read_only_node :: "pseudo_node \<Rightarrow> bool" where
  "read_only_node node = (node \<in> {ProcVersion, ProcUptime, ProcMeminfo, SysHostname})"

definition sys_open :: "u64 \<Rightarrow> i32 \<Rightarrow> u32 \<Rightarrow> 'kb kernel \<Rightarrow> i64 \<times> 'kb kernel" where
  "sys_open path flags mode s =
     (if path = 0 then (errno_i64 Fault, s)
      else case read_user_cstr (k_mem s) path 256 of
          None \<Rightarrow> (errno_i64 Fault, s)
        | Some p \<Rightarrow>
            (case node_of_path p of
               None \<Rightarrow> (errno_i64 NoEnt, s)
             | Some node \<Rightarrow>
                 if write_requested flags \<and> read_only_node node then (errno_i64 Acces, s)
                 else let (idx, table) = fd_insert \<lparr>of_node = node, of_offset = 0\<rparr> (FD_TABLE s)
                      in (int idx + 3, s\<lparr>FD_TABLE := table\<rparr>)))"

definition sys_close :: "profile \<Rightarrow> i32 \<Rightarrow> 'kb kernel \<Rightarrow> (i64 \<times> 'kb kernel) outcome" where
  "sys_close prof fd s =
     (if sint fd < 3 then Ret (0, s)
      else obind (fd_index prof fd) (\<lambda>idx.
        if unat idx < length (FD_TABLE s) then
          Ret (if FD_TABLE s ! unat idx \<noteq> None then 0 else errno_i64 BadF,
               s\<lparr>FD_TABLE := fd_take (unat idx) (FD_TABLE s)\<rparr>)
        else Ret (errno_i64 BadF, s)))"

definition sys_getpid :: "'kb kernel \<Rightarrow> i64" where
  "sys_getpid s = uint (getpid (k_procs s))"

definition sys_getppid :: "'kb kernel \<Rightarrow> i64" where
  "sys_getppid s =
     (case find_pid (getpid (k_procs s)) (k_procs s) of
        Some p \<Rightarrow> uint (parent_pid p) | None \<Rightarrow> errno_i64 Srch)"

definition sys_fork :: "'kb kernel \<Rightarrow> i64 \<times> 'kb kernel" where
  "sys_fork s =
     (case fork (k_procs s) of
        (Inr child_pid, p) \<Rightarrow> (uint child_pid, s\<lparr>k_procs := p\<rparr>)
      | (Inl _, p) \<Rightarrow> (errno_i64 NoSys, s\<lparr>k_procs := p\<rparr>))"

definition sys_execve :: "u64 \<Rightarrow> 'kb kernel \<Rightarrow> i64 \<times> 'kb kernel" where
  "sys_execve path s =
     (if path = 0 then (errno_i64 Fault, s)
      else case read_user_cstr (k_mem s) path 256 of
          None \<Rightarrow> (errno_i64 Fault, s)
        | Some p \<Rightarrow>
            (case execve p (k_procs s) of
               (Inr _, q) \<Rightarrow> (0, s\<lparr>k_procs := q\<rparr>)
             | (Inl _, q) \<Rightarrow> (errno_i64 NoEnt, s\<lparr>k_procs := q\<rparr>)))"

definition sys_exit :: "i32 \<Rightarrow> 'kb kernel \<Rightarrow> 'kb kernel" where
  "sys_exit code s = s\<lparr>k_procs := exit code (k_procs s)\<rparr>"

definition sys_kill :: "u32 \<Rightarrow> u8 \<Rightarrow> 'kb kernel \<Rightarrow> i64 \<times> 'kb kernel" where
  "sys_kill q sig s =
     (case kill q sig (k_procs s) of
        (Inr _, p) \<Rightarrow> (0, s\<lparr>k_procs := p\<rparr>)
      | (Inl _, p) \<Rightarrow> (errno_i64 Srch, s\<lparr>k_procs := p\<rparr>))"

text \<open>
  \<open>process::waitpid\<close> on the whole kernel state: the interrupts of each \<open>hlt\<close> also reach the
  other components.
\<close>

fun waitpid_kernel :: "profile \<Rightarrow> ('kb, 'ev, 'kc) pc_keyboard \<Rightarrow> irqs list \<Rightarrow> u32 option \<Rightarrow> 'kb kernel \<Rightarrow>
    ((string + u32 \<times> i32) \<times> 'kb kernel) option outcome" where
  "waitpid_kernel prof K hlts target s =
     (case waitpid_once target (k_procs s) of
        (Inl e, p) \<Rightarrow> Ret (Some (Inl e, s\<lparr>k_procs := p\<rparr>))
      | (Inr (Some r), p) \<Rightarrow> Ret (Some (Inr r, s\<lparr>k_procs := p\<rparr>))
      | (Inr None, p) \<Rightarrow>
          (case hlts of
             [] \<Rightarrow> Ret None
           | is # rest \<Rightarrow>
               obind (take_interrupts prof K is (s\<lparr>k_procs := p\<rparr>)) (waitpid_kernel prof K rest target)))"

declare waitpid_kernel.simps [simp del]

text \<open>A 32-bit store, in the byte order of the machine.\<close>

definition u32_to_le_bytes :: "u32 \<Rightarrow> u8 list" where
  "u32_to_le_bytes w = [ucast w, ucast (drop_bit 8 w), ucast (drop_bit 16 w), ucast (drop_bit 24 w)]"

definition wait_status :: "i32 \<Rightarrow> i32" where
  "wait_status code = push_bit 8 (code AND 0xFF)"

definition sys_wait4 :: "profile \<Rightarrow> ('kb, 'ev, 'kc) pc_keyboard \<Rightarrow> irqs list \<Rightarrow> i32 \<Rightarrow> u64 \<Rightarrow> 'kb kernel \<Rightarrow>
    'kb kernel syscall_result outcome" where
  "sys_wait4 prof K hlts q status s =
     (let target = (if sint q \<le> 0 then None else Some q)
      in obind (waitpid_kernel prof K hlts target s) (\<lambda>r.
        case r of
          None \<Rightarrow> Ret StillWaiting
        | Some (Inr (child_pid, code), s1) \<Rightarrow>
            Ret (Returned (uint child_pid)
              (if status \<noteq> 0
               then s1\<lparr>k_mem := store_bytes status (u32_to_le_bytes (wait_status code)) (k_mem s1)\<rparr>
               else s1))
        | Some (Inl _, s1) \<Rightarrow> Ret (Returned (errno_i64 Srch) s1)))"

definition sys_brk :: "u64 \<Rightarrow> i64" where
  "sys_brk addr = 0"

section \<open>Dispatch\<close>

fun returned :: "i64 \<times> 's \<Rightarrow> 's syscall_result outcome" where
  "returned (r, s) = Ret (Returned r s)"

definition dispatch :: "profile \<Rightarrow> ('kb, 'ev, 'kc) pc_keyboard \<Rightarrow> syscall_env \<Rightarrow> syscall_frame \<Rightarrow> 'kb kernel \<Rightarrow>
    'kb kernel syscall_result outcome" where
  "dispatch prof K env frame s =
     (let n = num frame
      in if n = SYS_READ then sys_read prof K (env_keys env) (ucast (rdi frame)) (rsi frame) (rdx frame) s
         else if n = SYS_WRITE then sys_write prof (ucast (rdi frame)) (rsi frame) (rdx frame) s
         else if n = SYS_OPEN then returned (sys_open (rdi frame) (ucast (rsi frame)) (ucast (rdx frame)) s)
         else if n = SYS_CLOSE then obind (sys_close prof (ucast (rdi frame)) s) returned
         else if n = SYS_GETPID then returned (sys_getpid s, s)
         else if n = SYS_FORK then returned (sys_fork s)
         else if n = SYS_EXECVE then returned (sys_execve (rdi frame) s)
         else if n = SYS_EXIT \<or> n = SYS_EXIT_GROUP then Ret (NoReturn (sys_exit (ucast (rdi frame)) s))
         else if n = SYS_WAIT4 then sys_wait4 prof K (env_hlts env) (ucast (rdi frame)) (rsi frame) s
         else if n = SYS_KILL then returned (sys_kill (ucast (rdi frame)) (ucast (rsi frame)) s)
         else if n = SYS_GETPPID then returned (sys_getppid s, s)
         else if n = SYS_BRK then returned (sys_brk (rdi frame), s)
         else returned (errno_i64 NoSys, s))"

section \<open>Memory and text\<close>

lemma length_load_bytes [simp]: "length (load_bytes m p n) = n"
  by (simp add: load_bytes_def)

lemma offset_unat: "i < 2 ^ 64 \<Longrightarrow> unat ((p :: u64) + of_nat i - p) = i"
  by (simp add: unat_of_nat)

lemma load_store_bytes:
  assumes "n \<le> length bs" "length bs \<le> 2 ^ 64"
  shows "load_bytes (store_bytes p bs m) p n = take n bs"
proof (rule nth_equalityI)
  show "length (load_bytes (store_bytes p bs m) p n) = length (take n bs)" using assms by simp
  fix i assume "i < length (load_bytes (store_bytes p bs m) p n)"
  then have "i < n" by simp
  then show "load_bytes (store_bytes p bs m) p n ! i = take n bs ! i"
    using assms offset_unat [of i p] by (simp add: load_bytes_def store_bytes_def)
qed

lemma store_bytes_outside: "length bs \<le> unat (a - p) \<Longrightarrow> store_bytes p bs m a = m a"
  by (simp add: store_bytes_def)

lemma unat_mod_256: "unat (b :: u8) mod 256 = unat b"
proof -
  have "unat b < 2 ^ LENGTH(8)" by (rule unsigned_less)
  then show ?thesis by simp
qed

lemma byte_of_chr [simp]: "byte_of (chr b) = b"
proof -
  have "byte_of (chr b) = of_nat (of_char (char_of (unat b) :: char))"
    by (simp only: byte_of_def chr_def of_nat_of_char)
  also have "\<dots> = b" by (simp add: of_char_of unat_mod_256)
  finally show ?thesis .
qed

lemma bytes_chr [simp]: "bytes (map chr bs) = bs"
  by (simp add: bytes_def comp_def)

lemma from_utf8_bytes: "from_utf8 bs = Some str \<Longrightarrow> bytes str = bs"
  by (auto simp: from_utf8_def split: if_splits)

subsection \<open>Strings in user memory\<close>

text \<open>A NUL-terminated string of at most 255 bytes at a non-null address.\<close>

definition cstr_at :: "(u64 \<Rightarrow> u8) \<Rightarrow> u64 \<Rightarrow> string \<Rightarrow> bool" where
  "cstr_at m p str \<longleftrightarrow> p \<noteq> 0 \<and> length str < 256 \<and> load_bytes m p (Suc (length str)) = bytes str @ [0]"

definition ascii :: "string \<Rightarrow> bool" where
  "ascii str \<longleftrightarrow> list_all (\<lambda>b. 0 < b \<and> b < 0x80) (bytes str)"

lemma load_bytes_Suc: "load_bytes m p (Suc n) = m p # load_bytes m (p + 1) n"
  by (simp add: load_bytes_def upt_conv_Cons map_Suc_upt [symmetric] add.assoc comp_def del: upt_Suc)

lemma cstr_loop_at:
  assumes "load_bytes m p (Suc (length bs)) = bs @ [0]" "0 \<notin> set bs" "length bs < n"
  shows "cstr_loop m p n = Some bs"
  using assms
proof (induction bs arbitrary: p n)
  case Nil
  then obtain k where "n = Suc k" by (cases n) auto
  with Nil show ?case by (simp add: load_bytes_Suc)
next
  case (Cons b bs)
  then obtain k where k: "n = Suc k" by (cases n) auto
  have "load_bytes m (p + 1) (Suc (length bs)) = bs @ [0]" "m p = b"
    using Cons.prems(1) by (simp_all add: load_bytes_Suc [of m p])
  with Cons.IH [of "p + 1" k] Cons.prems k show ?case by auto
qed

lemma utf8_split_ascii: "list_all (\<lambda>b. b < 0x80) bs \<Longrightarrow> utf8_split bs = Some (map (\<lambda>b. [b]) bs)"
  by (induction bs rule: utf8_split.induct) auto

lemma chr_byte_of [simp]: "chr (byte_of c) = c"
proof -
  have "unat (byte_of c) = of_char c"
  proof -
    have "byte_of c = of_nat (of_char c)" by (simp only: byte_of_def of_nat_of_char)
    moreover have "(of_char c :: nat) < 256" by simp
    ultimately show ?thesis by (simp only: unat_of_nat) simp
  qed
  then show ?thesis by (simp add: chr_def)
qed

lemma from_utf8_ascii: "ascii str \<Longrightarrow> from_utf8 (bytes str) = Some str"
  using utf8_split_ascii [of "bytes str"]
  by (simp add: ascii_def from_utf8_def list_all_iff bytes_def map_idI)

lemma read_user_cstr_at:
  assumes "cstr_at m p str" "ascii str"
  shows "read_user_cstr m p 256 = Some str"
proof -
  have "length (bytes str) = length str" by (simp add: bytes_def)
  moreover have "0 \<notin> set (bytes str)" using assms(2) by (auto simp: ascii_def list_all_iff)
  ultimately have "cstr_loop m p 256 = Some (bytes str)"
    using cstr_loop_at [of m p "bytes str" 256] assms(1) by (simp add: cstr_at_def)
  then show ?thesis using assms by (simp add: read_user_cstr_def cstr_at_def from_utf8_ascii)
qed

lemma node_of_path_ascii: "node_of_path path = Some node \<Longrightarrow> ascii path"
  by (auto simp: node_of_path_def ascii_def bytes_def byte_of_def split: if_splits)

section \<open>Examples\<close>

text \<open>The kernel after boot with the given user memory, and a frame, for examples.\<close>

definition user_kernel :: "(u64 \<Rightarrow> u8) \<Rightarrow> unit kernel" where
  "user_kernel m = \<lparr>k_procs = boot_procs, k_keyboard = idle_keyboard, k_writer = vga_init (\<lambda>_. 0),
     k_serial = [], FD_TABLE = [], k_mem = m, k_pic_masks = (0, 0), k_eoi = []\<rparr>"

definition syscall :: "u64 \<Rightarrow> u64 \<Rightarrow> u64 \<Rightarrow> u64 \<Rightarrow> syscall_frame" where
  "syscall n a b c = \<lparr>num = n, rdi = a, rsi = b, rdx = c, r10 = 0, r8 = 0, r9 = 0\<rparr>"

definition no_env :: syscall_env where
  "no_env = \<lparr>env_keys = [], env_hlts = []\<rparr>"

end
