(* ===== verification/Syscall_Files.thy ===== *)
theory Syscall_Files
  imports Syscall
begin

text \<open>
  System calls on files (\<open>open\<close>, \<open>close\<close>, \<open>read\<close> of \<open>kernel/src/syscall/mod.rs\<close>): which
  descriptors they give and take away, and what successive reads of a text node return.
\<close>

section \<open>File descriptors\<close>

text \<open>
  Claim C20.  Opening a known path that the flags allow always succeeds, and returns the
  lowest descriptor from 3 up that is free: that slot then holds the node at offset 0,
  every other descriptor refers to what it did, and nothing else in the kernel changes.
\<close>

theorem open_returns_lowest_free_fd:
  assumes "num f = SYS_OPEN" and "cstr_at (k_mem s) (rdi f) path" and "node_of_path path = Some node"
    and "write_requested (ucast (rsi f)) \<longrightarrow> \<not> read_only_node node"
  shows "\<exists>i table. dispatch prof K env f s = Ret (Returned (int i + 3) (s\<lparr>FD_TABLE := table\<rparr>)) \<and>
    fd_lookup (FD_TABLE s) i = None \<and> (\<forall>j<i. fd_lookup (FD_TABLE s) j \<noteq> None) \<and>
    (\<forall>j. fd_lookup table j =
       (if j = i then Some \<lparr>of_node = node, of_offset = 0\<rparr> else fd_lookup (FD_TABLE s) j))"
proof -
  let ?file = "\<lparr>of_node = node, of_offset = 0\<rparr>"
  obtain i table where it: "fd_insert ?file (FD_TABLE s) = (i, table)" by fastforce
  have "read_user_cstr (k_mem s) (rdi f) 256 = Some path"
    using assms(2,3) by (blast intro: read_user_cstr_at node_of_path_ascii)
  then have "dispatch prof K env f s = Ret (Returned (int i + 3) (s\<lparr>FD_TABLE := table\<rparr>))"
    using assms it by (auto simp: dispatch_def syscall_numbers sys_open_def cstr_at_def)
  moreover have "fd_lookup (FD_TABLE s) i = None" "\<forall>j<i. fd_lookup (FD_TABLE s) j \<noteq> None"
    "\<forall>j. fd_lookup table j = (if j = i then Some ?file else fd_lookup (FD_TABLE s) j)"
    using fds.insert_free [of "FD_TABLE s" ?file] fds.insert_lowest [of _ ?file "FD_TABLE s"]
      fds.lookup_insert [of ?file "FD_TABLE s"] it by auto
  ultimately show ?thesis by blast
qed

definition version_path :: "u64 \<Rightarrow> u8" where
  "version_path = store_bytes 0x1000 (bytes ''/proc/version'' @ [0]) (\<lambda>_. 0)"

lemma store_cstr:
  "p \<noteq> 0 \<Longrightarrow> length str < 256 \<Longrightarrow> cstr_at (store_bytes p (bytes str @ [0]) m) p str"
  using load_store_bytes [of "Suc (length str)" "bytes str @ [0]" p m] by (simp add: cstr_at_def bytes_def)

lemma version_path_cstr: "cstr_at version_path 0x1000 ''/proc/version''"
  unfolding version_path_def by (rule store_cstr) simp_all

theorem open_returns_lowest_free_fd_witness:
  "\<exists>i table. dispatch Dev echo_decoder no_env (syscall SYS_OPEN 0x1000 0 0) (user_kernel version_path) =
     Ret (Returned (int i + 3) ((user_kernel version_path)\<lparr>FD_TABLE := table\<rparr>)) \<and>
     fd_lookup table i = Some \<lparr>of_node = ProcVersion, of_offset = 0\<rparr>"
proof -
  have "node_of_path ''/proc/version'' = Some ProcVersion" by (simp add: node_of_path_def)
  moreover have "\<not> write_requested (ucast (0 :: u64))"
    by (simp add: write_requested_def O_ACCMODE_def O_WRONLY_def O_RDWR_def)
  ultimately show ?thesis
    using open_returns_lowest_free_fd [of "syscall SYS_OPEN 0x1000 0 0" "user_kernel version_path"
        "''/proc/version''" ProcVersion Dev echo_decoder no_env] version_path_cstr
    by (auto simp: syscall_def user_kernel_def)
qed

text \<open>A descriptor number: the slot \<open>i\<close> as the caller names it, for slots an \<open>i32\<close> can name.\<close>

definition fd_num :: "nat \<Rightarrow> i32" where
  "fd_num i = of_nat (i + 3)"

lemma fd_num_facts:
  assumes "i + 3 < 2 ^ 31"
  shows "sint (fd_num i) = int i + 3" "fd_index prof (fd_num i) = Ret (of_nat i)"
    "unat (of_nat i :: usize) = i" "fd_num i \<noteq> 0" "fd_num i \<noteq> 1" "fd_num i \<noteq> 2"
proof -
  have u: "uint (fd_num i) = int i + 3"
    using assms by (simp only: fd_num_def uint_nat unat_of_nat) simp
  show s: "sint (fd_num i) = int i + 3"
    using assms u by (simp add: sint_uint signed_take_bit_int_eq_self)
  show "fd_num i \<noteq> 0" "fd_num i \<noteq> 1" "fd_num i \<noteq> 2" using u by auto
  show n: "unat (of_nat i :: usize) = i" using assms by (simp add: unat_of_nat)
  have "(scast (fd_num i) :: usize) = of_int (sint (fd_num i))" by simp
  also have "\<dots> = of_nat (i + 3)" using s by simp
  finally have e: "(scast (fd_num i) :: usize) = of_nat (i + 3)" .
  have "unat (of_nat (i + 3) :: usize) = i + 3"
    using assms by (simp only: unat_of_nat) simp
  then show "fd_index prof (fd_num i) = Ret (of_nat i)"
    unfolding fd_index_def e by (subst arith_sub_ok) (simp_all add: word_le_nat_alt)
qed

text \<open>
  Claim C21.  Closing an open descriptor returns 0 and makes exactly that number invalid:
  reading, writing and closing it again all return the bad-descriptor error without
  changing anything, every other descriptor still refers to what it did, and if all lower
  descriptors are open the next open returns this number again.
\<close>

theorem close_invalidates_fd:
  assumes "fd_lookup (FD_TABLE s) i = Some file" and "i + 3 < 2 ^ 31" and "buf \<noteq> 0" and "count \<noteq> 0"
  shows "\<exists>s'. sys_close prof (fd_num i) s = Ret (0, s') \<and>
    sys_read prof K env (fd_num i) buf count s' = Ret (Returned (errno_i64 BadF) s') \<and>
    sys_write prof (fd_num i) buf count s' = Ret (Returned (errno_i64 BadF) s') \<and>
    sys_close prof (fd_num i) s' = Ret (errno_i64 BadF, s') \<and>
    (\<forall>j. j \<noteq> i \<longrightarrow> fd_lookup (FD_TABLE s') j = fd_lookup (FD_TABLE s) j) \<and>
    ((\<forall>j<i. fd_lookup (FD_TABLE s) j \<noteq> None) \<longrightarrow> fst (fd_insert file' (FD_TABLE s')) = i)"
proof -
  let ?s = "s\<lparr>FD_TABLE := fd_take i (FD_TABLE s)\<rparr>"
  note fd = fd_num_facts [OF assms(2)]
  have i: "i < length (FD_TABLE s)" "FD_TABLE s ! i = Some file"
    using assms(1) by (auto simp: fd_lookup_def split: if_splits)
  have "\<not> sint (fd_num i) < 3" using fd(1) by simp
  then have "sys_close prof (fd_num i) s = Ret (0, ?s)" "sys_close prof (fd_num i) ?s = Ret (errno_i64 BadF, ?s)"
    using i by (simp_all add: sys_close_def fd fd_take_def)
  moreover have "fd_lookup (FD_TABLE ?s) i = None" by (simp add: fds.lookup_remove)
  then have "sys_read prof K env (fd_num i) buf count ?s = Ret (Returned (errno_i64 BadF) ?s)"
    "sys_write prof (fd_num i) buf count ?s = Ret (Returned (errno_i64 BadF) ?s)"
    using assms(3,4) by (simp_all add: sys_read_def sys_write_def fd Let_def)
  moreover have "\<forall>j. j \<noteq> i \<longrightarrow> fd_lookup (FD_TABLE ?s) j = fd_lookup (FD_TABLE s) j"
    by (simp add: fds.lookup_remove)
  moreover have "(\<forall>j<i. fd_lookup (FD_TABLE s) j \<noteq> None) \<longrightarrow> fst (fd_insert file' (FD_TABLE ?s)) = i"
    using fds.insert_after_remove [OF assms(1)] by simp
  ultimately show ?thesis by blast
qed

theorem close_invalidates_fd_witness:
  "\<exists>s'. sys_close Dev (fd_num 0) ((user_kernel (\<lambda>_. 0))\<lparr>FD_TABLE := [Some \<lparr>of_node = DevZero, of_offset = 0\<rparr>]\<rparr>) = Ret (0, s') \<and>
     sys_read Dev echo_decoder [] (fd_num 0) 0x2000 5 s' = Ret (Returned (errno_i64 BadF) s')"
  using close_invalidates_fd [of "(user_kernel (\<lambda>_. 0))\<lparr>FD_TABLE := [Some \<lparr>of_node = DevZero, of_offset = 0\<rparr>]\<rparr>" 0
      "\<lparr>of_node = DevZero, of_offset = 0\<rparr>" "0x2000" 5 Dev echo_decoder "[]"]
  by auto

section \<open>Successive reads\<close>

text \<open>The content of the nodes that have one.\<close>

fun node_text :: "pseudo_node \<Rightarrow> u64 \<Rightarrow> u8 list option" where
  "node_text ProcVersion tcks = Some version_text"
| "node_text ProcUptime tcks = Some (uptime_text tcks)"
| "node_text ProcMeminfo tcks = Some meminfo_text"
| "node_text SysHostname tcks = Some hostname_text"
| "node_text _ tcks = None"

lemma read_static_eq:
  "read_static buf offset content =
     (let piece = take (length buf) (drop (unat offset) content)
      in (length piece, copy_into piece buf))"
  by (auto simp: read_static_def Let_def copy_into_def min_def)

lemma read_node_text:
  "node_text node tcks = Some content \<Longrightarrow> read_node node tcks offset out = read_static out offset content"
  by (cases node) auto

lemma length_show_nat: "n < 10 ^ Suc k \<Longrightarrow> length (show_nat n) \<le> Suc k"
proof (induction k arbitrary: n)
  case (Suc k)
  then have "n div 10 < 10 ^ Suc k" by (simp add: less_mult_imp_div_less)
  from Suc.IH [OF this] show ?case by (subst show_nat.simps) simp
qed (simp add: show_nat.simps)

lemma length_node_text:
  assumes "node_text node tcks = Some content"
  shows "length content < 100"
proof -
  have "unat (tcks div 100) < 2 ^ LENGTH(64)" by (rule unsigned_less)
  then have "unat (tcks div 100) < 10 ^ Suc 19" by simp
  from length_show_nat [OF this] have "length (uptime_text tcks) < 100"
    by (simp add: uptime_text_def Let_def bytes_def)
  with assms show ?thesis
    by (cases node) (auto simp: version_text_def meminfo_text_def hostname_text_def bytes_def)
qed

text \<open>
  A caller that reads the same descriptor again and again, into the given buffers: the
  bytes each call reports, one call after the other; \<open>None\<close> if a call fails.
\<close>

fun read_seq :: "profile \<Rightarrow> ('kb, 'ev, 'kc) pc_keyboard \<Rightarrow> i32 \<Rightarrow> (u64 \<times> usize) list \<Rightarrow> 'kb kernel \<Rightarrow>
    (u8 list \<times> 'kb kernel) option" where
  "read_seq prof K fd [] s = Some ([], s)"
| "read_seq prof K fd ((buf, count) # reqs) s =
     (case sys_read prof K [] fd buf count s of
        Ret (Returned r s1) \<Rightarrow>
          if r < 0 then None
          else map_option (\<lambda>(bs, s2). (load_bytes (k_mem s1) buf (nat r) @ bs, s2)) (read_seq prof K fd reqs s1)
      | _ \<Rightarrow> None)"

lemma as_i64_of_nat: "n < 2 ^ 63 \<Longrightarrow> as_i64 (of_nat n) = int n"
  by (simp add: as_i64_def sint_uint uint_nat unat_of_nat signed_take_bit_int_eq_self)

lemma saturating_add_small:
  assumes "unat a + n < 2 ^ 64"
  shows "unat (saturating_add (a :: u64) (of_nat n)) = unat a + n"
proof -
  have "unat (of_nat n :: u64) = n" using assms by (simp add: unat_of_nat)
  then show ?thesis using assms by (simp add: saturating_add_def unat_word_ariths(1))
qed

lemma read_text_step:
  fixes s :: "'kb kernel"
  assumes "fd_lookup (FD_TABLE s) i = Some file" "node_text (of_node file) (ticks (k_procs s)) = Some content"
    and "unat (of_offset file) \<le> length content" "i + 3 < 2 ^ 31" "buf \<noteq> 0" "count \<noteq> 0"
  defines "piece \<equiv> take (unat count) (drop (unat (of_offset file)) content)"
  shows "\<exists>s1 file1. sys_read prof K env (fd_num i) buf count s = Ret (Returned (int (length piece)) s1) \<and>
    load_bytes (k_mem s1) buf (length piece) = piece \<and> fd_lookup (FD_TABLE s1) i = Some file1 \<and>
    of_node file1 = of_node file \<and> unat (of_offset file1) = unat (of_offset file) + length piece \<and>
    k_procs s1 = k_procs s"
proof -
  let ?out = "copy_into piece (load_bytes (k_mem s) buf (unat count))"
  let ?file = "file\<lparr>of_offset := saturating_add (of_offset file) (of_nat (length piece))\<rparr>"
  let ?s = "s\<lparr>k_mem := store_bytes buf ?out (k_mem s), FD_TABLE := (FD_TABLE s)[i := Some ?file]\<rparr>"
  have len: "length piece < 100" "unat (of_offset file) + length piece \<le> length content"
    using length_node_text [OF assms(2)] assms(3) by (auto simp: piece_def)
  have "unat count < 2 ^ LENGTH(64)" by (rule unsigned_less)
  then have out: "length piece \<le> length ?out" "length ?out \<le> 2 ^ 64"
    by (simp_all add: copy_into_def piece_def)
  have "sys_read prof K env (fd_num i) buf count s = Ret (Returned (int (length piece)) ?s)"
    using assms fd_num_facts [OF assms(4)] as_i64_of_nat [of "length piece"] len(1)
    by (simp add: sys_read_def read_node_text read_static_eq Let_def flip: piece_def)
  moreover have "load_bytes (k_mem ?s) buf (length piece) = piece"
    using load_store_bytes [OF out] by (simp add: take_copy_into)
  moreover have "fd_lookup (FD_TABLE ?s) i = Some ?file"
    using assms(1) by (auto simp: fd_lookup_def split: if_splits)
  moreover have "unat (of_offset ?file) = unat (of_offset file) + length piece"
    using saturating_add_small [of "of_offset file" "length piece"] len length_node_text [OF assms(2)] by simp
  ultimately show ?thesis by fastforce
qed

lemma take_drop_pieces:
  "take m (drop (a + length (take n (drop a xs))) xs) = take m (drop n (drop a xs))"
  by (auto simp: min_def add.commute)

lemma read_seq_text:
  assumes "fd_lookup (FD_TABLE s) i = Some f" "node_text (of_node f) (ticks (k_procs s)) = Some content"
    and "unat (of_offset f) \<le> length content" "i + 3 < 2 ^ 31"
    and "list_all (\<lambda>(buf, count). buf \<noteq> 0 \<and> count \<noteq> 0) reqs"
  shows "\<exists>s'. read_seq prof K (fd_num i) reqs s =
    Some (take (\<Sum>r\<leftarrow>reqs. unat (snd r)) (drop (unat (of_offset f)) content), s')"
  using assms(1-3,5)
proof (induction reqs arbitrary: s f)
  case (Cons req reqs)
  obtain buf count where [simp]: "req = (buf, count)" by fastforce
  let ?piece = "take (unat count) (drop (unat (of_offset f)) content)"
  have nz: "buf \<noteq> 0" "count \<noteq> 0" using Cons.prems(4) by auto
  obtain s1 f1 where s1: "sys_read prof K [] (fd_num i) buf count s = Ret (Returned (int (length ?piece)) s1)"
    "load_bytes (k_mem s1) buf (length ?piece) = ?piece" "fd_lookup (FD_TABLE s1) i = Some f1"
    "of_node f1 = of_node f" "unat (of_offset f1) = unat (of_offset f) + length ?piece"
    "k_procs s1 = k_procs s"
    using read_text_step [OF Cons.prems(1-3) assms(4) nz, of prof K "[]"] by blast
  have "unat (of_offset f1) \<le> length content" using s1(5) Cons.prems(3) by simp
  with Cons.IH [OF s1(3)] s1(4,6) Cons.prems(2,4) obtain s' where
    "read_seq prof K (fd_num i) reqs s1 =
       Some (take (\<Sum>r\<leftarrow>reqs. unat (snd r)) (drop (unat (of_offset f1)) content), s')" by auto
  with s1 show ?case by (simp only: read_seq.simps s1(5) take_drop_pieces) (simp add: take_add)
qed simp

text \<open>
  Claim C18.  Reading an open text node piece by piece loses nothing and repeats nothing:
  whatever the buffers and sizes of the successive reads on a freshly opened descriptor,
  none fails, and the bytes they return, put together, are the first
  (sum of the sizes) bytes of the node's text.
\<close>

theorem successive_reads_concatenate:
  assumes "fd_lookup (FD_TABLE s) i = Some \<lparr>of_node = node, of_offset = 0\<rparr>" and "i + 3 < 2 ^ 31"
    and "node_text node (ticks (k_procs s)) = Some content"
    and "list_all (\<lambda>(buf, count). buf \<noteq> 0 \<and> count \<noteq> 0) reqs"
  shows "\<exists>s'. read_seq prof K (fd_num i) reqs s =
    Some (take (\<Sum>r\<leftarrow>reqs. unat (snd r)) content, s')"
  using read_seq_text [of s i "\<lparr>of_node = node, of_offset = 0\<rparr>" content reqs prof K] assms by simp

definition hostname_kernel :: "unit kernel" where
  "hostname_kernel = (user_kernel (\<lambda>_. 0))\<lparr>FD_TABLE := [None, Some \<lparr>of_node = SysHostname, of_offset = 0\<rparr>]\<rparr>"

theorem successive_reads_concatenate_witness:
  "\<exists>s'. read_seq Dev echo_decoder (fd_num 1) [(0x2000, 7), (0x3000, 6)] hostname_kernel =
     Some (bytes ''computekernel'', s')"
  using successive_reads_concatenate [of hostname_kernel 1 SysHostname hostname_text
      "[(0x2000, 7), (0x3000, 6)]" Dev echo_decoder]
  by (simp add: hostname_kernel_def fd_lookup_def hostname_text_def bytes_def)

end
