(* ===== verification/Vfs.thy ===== *)
theory Vfs
  imports Syscall_Files
begin

text \<open>
  The virtual file system interface (\<open>kernel/src/fs/vfs.rs\<close>) and the pseudo file systems
  that implement it (\<open>dev_fs.rs\<close>, \<open>proc_fs.rs\<close>, \<open>sys_fs.rs\<close>, \<open>ext4.rs\<close>).  A value of type
  \<open>file_system\<close> is a trait object: one function per method.  The contract every
  implementation meets is the locale \<open>vfs_reader\<close>.
\<close>

section \<open>The interface\<close>

datatype vfs_error = NotFound | PermissionDenied | NotADirectory | IsADirectory | NoSpace
  | InvalidPath | NotSupported | VfsIo

datatype inode_kind = RegularFile | Directory | Symlink | CharDevice | BlockDevice | Pipe | Socket

type_synonym file_mode = u16

definition USER_RWX :: u16 where "USER_RWX = 0x1C0"
definition GROUP_RWX :: u16 where "GROUP_RWX = 0x038"
definition OTHER_RWX :: u16 where "OTHER_RWX = 0x007"

definition DEFAULT_FILE :: file_mode where
  "DEFAULT_FILE = 0x1A4"

definition DEFAULT_DIR :: file_mode where
  "DEFAULT_DIR = 0x1ED"

record inode =
  inode_num :: u64
  inode_kind_of :: inode_kind
  inode_mode :: file_mode
  inode_size :: u64
  uid :: u32
  gid :: u32
  link_count :: u32
  atime :: u64
  mtime :: u64
  ctime :: u64

definition inode_new :: "u64 \<Rightarrow> inode_kind \<Rightarrow> inode" where
  "inode_new n kind =
     \<lparr>inode_num = n, inode_kind_of = kind,
      inode_mode = (case kind of Directory \<Rightarrow> DEFAULT_DIR | _ \<Rightarrow> DEFAULT_FILE),
      inode_size = 0, uid = 0, gid = 0, link_count = 1, atime = 0, mtime = 0, ctime = 0\<rparr>"

record dir_entry =
  de_name :: string
  de_inode_num :: u64
  de_kind :: inode_kind

text \<open>
  \<open>read\<close> returns its result and the buffer afterwards; \<open>write\<close> its result and what was sent
  to the serial port.  Methods of an implementation that can panic return an outcome.
\<close>

record file_system =
  fs_name :: string
  fs_lookup :: "string \<Rightarrow> vfs_error + inode"
  fs_read :: "inode \<Rightarrow> u64 \<Rightarrow> u8 list \<Rightarrow> ((vfs_error + nat) \<times> u8 list) outcome"
  fs_write :: "inode \<Rightarrow> u64 \<Rightarrow> u8 list \<Rightarrow> (vfs_error + nat) \<times> u8 list"
  fs_readdir :: "inode \<Rightarrow> vfs_error + dir_entry list"
  fs_create :: "inode \<Rightarrow> string \<Rightarrow> inode_kind \<Rightarrow> file_mode \<Rightarrow> vfs_error + inode"
  fs_unlink :: "inode \<Rightarrow> string \<Rightarrow> vfs_error + unit"

record mount_point =
  mount_path :: string
  mount_fs :: file_system

section \<open>/dev\<close>

definition char_device :: "u64 \<Rightarrow> file_mode \<Rightarrow> inode" where
  "char_device n mode = (inode_new n CharDevice)\<lparr>inode_mode := mode\<rparr>"

definition dev_lookup :: "string \<Rightarrow> vfs_error + inode" where
  "dev_lookup path =
     (if path = ''/'' \<or> path = '''' then Inr (inode_new 1 Directory)
      else if path = ''/null'' then Inr (char_device 2 0x1B6)
      else if path = ''/zero'' then Inr (char_device 3 0x1B6)
      else if path = ''/full'' then Inr (char_device 4 0x1B6)
      else if path = ''/ttyS0'' then Inr (char_device 5 0x1B0)
      else Inl NotFound)"

definition dev_read :: "inode \<Rightarrow> u64 \<Rightarrow> u8 list \<Rightarrow> ((vfs_error + nat) \<times> u8 list) outcome" where
  "dev_read i offset buf =
     Ret (if inode_num i = 2 then (Inr 0, buf)
          else if inode_num i = 3 \<or> inode_num i = 4 then (Inr (length buf), replicate (length buf) 0)
          else if inode_num i = 5 then (Inr 0, buf)
          else (Inl NotFound, buf))"

definition dev_write :: "inode \<Rightarrow> u64 \<Rightarrow> u8 list \<Rightarrow> (vfs_error + nat) \<times> u8 list" where
  "dev_write i offset buf =
     (if inode_num i = 2 then (Inr (length buf), [])
      else if inode_num i = 3 then (Inr (length buf), [])
      else if inode_num i = 4 then (Inl NoSpace, [])
      else if inode_num i = 5 then (Inr (length buf), concat (map (\<lambda>b. char_to_utf8 (ucast b)) buf))
      else (Inl NotFound, []))"

definition dev_readdir :: "inode \<Rightarrow> vfs_error + dir_entry list" where
  "dev_readdir i =
     (if inode_num i \<noteq> 1 then Inl NotADirectory
      else Inr [\<lparr>de_name = ''null'', de_inode_num = 2, de_kind = CharDevice\<rparr>,
                \<lparr>de_name = ''zero'', de_inode_num = 3, de_kind = CharDevice\<rparr>,
                \<lparr>de_name = ''full'', de_inode_num = 4, de_kind = CharDevice\<rparr>,
                \<lparr>de_name = ''ttyS0'', de_inode_num = 5, de_kind = CharDevice\<rparr>])"

definition dev_fs :: file_system where
  "dev_fs = \<lparr>fs_name = ''devfs'', fs_lookup = dev_lookup, fs_read = dev_read, fs_write = dev_write,
     fs_readdir = dev_readdir, fs_create = (\<lambda>_ _ _ _. Inl PermissionDenied),
     fs_unlink = (\<lambda>_ _. Inl PermissionDenied)\<rparr>"

section \<open>/proc\<close>

definition version_content :: "u8 list" where
  "version_content = bytes ''ComputeKERNEL version 1.0.0 (Rust nightly)'' @ [0x0A]"

definition uptime_content :: "u64 \<Rightarrow> u8 list" where
  "uptime_content tcks =
     (let seconds = tcks div 100
      in bytes (show_nat (unat seconds) @ ''.00 '' @ show_nat (unat seconds) @ ''.00'') @ [0x0A])"

definition meminfo_content :: "u8 list" where
  "meminfo_content = bytes ''MemTotal:         102400 kB'' @ [0x0A] @ bytes ''MemFree:           51200 kB'' @ [0x0A]"

definition proc_lookup :: "string \<Rightarrow> vfs_error + inode" where
  "proc_lookup path =
     (if path = ''/'' \<or> path = '''' then Inr (inode_new 1 Directory)
      else if path = ''/version'' then Inr (inode_new 2 RegularFile)
      else if path = ''/uptime'' then Inr (inode_new 3 RegularFile)
      else if path = ''/meminfo'' then Inr (inode_new 4 RegularFile)
      else Inl NotFound)"

text \<open>\<open>tcks\<close> is the scheduler's tick counter when the file is read.\<close>

definition proc_read :: "u64 \<Rightarrow> inode \<Rightarrow> u64 \<Rightarrow> u8 list \<Rightarrow> ((vfs_error + nat) \<times> u8 list) outcome" where
  "proc_read tcks i offset buf =
     (let content = (if inode_num i = 2 then Some version_content
                     else if inode_num i = 3 then Some (uptime_content tcks)
                     else if inode_num i = 4 then Some meminfo_content
                     else None)
      in case content of
           None \<Rightarrow> Ret (Inl NotFound, buf)
         | Some c \<Rightarrow>
             let start = unat offset
             in if length c \<le> start then Ret (Inr 0, buf)
                else obind (slice_from start c) (\<lambda>available.
                  let n = min (length buf) (length available)
                  in Ret (Inr n, copy_into (take n available) buf)))"

definition proc_readdir :: "inode \<Rightarrow> vfs_error + dir_entry list" where
  "proc_readdir i =
     (if inode_num i \<noteq> 1 then Inl NotADirectory
      else Inr [\<lparr>de_name = ''version'', de_inode_num = 2, de_kind = RegularFile\<rparr>,
                \<lparr>de_name = ''uptime'', de_inode_num = 3, de_kind = RegularFile\<rparr>,
                \<lparr>de_name = ''meminfo'', de_inode_num = 4, de_kind = RegularFile\<rparr>])"

definition proc_fs :: "u64 \<Rightarrow> file_system" where
  "proc_fs tcks = \<lparr>fs_name = ''proc'', fs_lookup = proc_lookup, fs_read = proc_read tcks,
     fs_write = (\<lambda>_ _ _. (Inl PermissionDenied, [])), fs_readdir = proc_readdir,
     fs_create = (\<lambda>_ _ _ _. Inl PermissionDenied), fs_unlink = (\<lambda>_ _. Inl PermissionDenied)\<rparr>"

section \<open>/sys\<close>

definition sys_lookup :: "string \<Rightarrow> vfs_error + inode" where
  "sys_lookup path =
     (if path = ''/'' \<or> path = '''' then Inr (inode_new 1 Directory)
      else if path = ''/kernel'' then Inr (inode_new 2 Directory)
      else if path = ''/kernel/hostname'' then Inr (inode_new 3 RegularFile)
      else Inl NotFound)"

definition sysfs_read :: "inode \<Rightarrow> u64 \<Rightarrow> u8 list \<Rightarrow> ((vfs_error + nat) \<times> u8 list) outcome" where
  "sysfs_read i offset buf =
     (if offset > 0 then Ret (Inr 0, buf)
      else if inode_num i = 3 then
        let content = bytes ''computekernel'' @ [0x0A]; n = min (length buf) (length content)
        in Ret (Inr n, copy_into (take n content) buf)
      else Ret (Inl NotFound, buf))"

definition sys_readdir :: "inode \<Rightarrow> vfs_error + dir_entry list" where
  "sys_readdir i =
     (if inode_num i = 1 then Inr [\<lparr>de_name = ''kernel'', de_inode_num = 2, de_kind = Directory\<rparr>]
      else if inode_num i = 2 then Inr [\<lparr>de_name = ''hostname'', de_inode_num = 3, de_kind = RegularFile\<rparr>]
      else Inl NotADirectory)"

definition sys_fs :: file_system where
  "sys_fs = \<lparr>fs_name = ''sysfs'', fs_lookup = sys_lookup, fs_read = sysfs_read,
     fs_write = (\<lambda>_ _ _. (Inl PermissionDenied, [])), fs_readdir = sys_readdir,
     fs_create = (\<lambda>_ _ _ _. Inl PermissionDenied), fs_unlink = (\<lambda>_ _. Inl PermissionDenied)\<rparr>"

section \<open>ext4\<close>

text \<open>The stub driver: mounting logs a line; every method is unsupported.\<close>

record ext4 =
  ext4_device :: string

definition ext4_new :: "string \<Rightarrow> ext4 \<times> string" where
  "ext4_new device = (\<lparr>ext4_device = device\<rparr>, ''[ext4] mounting '' @ device @ '' (stub)'' @ [CHR 0x0A])"

definition ext4_fs :: "ext4 \<Rightarrow> file_system" where
  "ext4_fs fs = \<lparr>fs_name = ''ext4'', fs_lookup = (\<lambda>_. Inl NotSupported),
     fs_read = (\<lambda>_ _ buf. Ret (Inl NotSupported, buf)), fs_write = (\<lambda>_ _ _. (Inl NotSupported, [])),
     fs_readdir = (\<lambda>_. Inl NotSupported), fs_create = (\<lambda>_ _ _ _. Inl NotSupported),
     fs_unlink = (\<lambda>_ _. Inl NotSupported)\<rparr>"

section \<open>The reader contract\<close>

text \<open>
  What a caller of \<open>read\<close> relies on: the buffer keeps its length, an error leaves it alone,
  and a successful read changes at most the first \<open>n\<close> bytes it reports.
\<close>

locale vfs_reader =
  fixes rd :: "inode \<Rightarrow> u64 \<Rightarrow> u8 list \<Rightarrow> ((vfs_error + nat) \<times> u8 list) outcome"
  assumes read_ok: "rd i offset buf = Ret (Inr n, buf') \<Longrightarrow>
      n \<le> length buf \<and> length buf' = length buf \<and> drop n buf' = drop n buf"
    and read_error: "rd i offset buf = Ret (Inl e, buf') \<Longrightarrow> buf' = buf"
begin

lemma read_changes_prefix:
  assumes "rd i offset buf = Ret (r, buf')" "case r of Inl e \<Rightarrow> True | Inr n \<Rightarrow> n \<le> j"
  shows "j < length buf \<Longrightarrow> buf' ! j = buf ! j"
proof (cases r)
  case (Inl e)
  with assms(1) read_error [of i offset buf e buf'] show ?thesis by simp
next
  case (Inr n)
  then have d: "n \<le> length buf" "length buf' = length buf" "drop n buf' = drop n buf"
    using read_ok assms(1) by auto
  assume "j < length buf"
  moreover have "drop n buf' ! (j - n) = drop n buf ! (j - n)" by (simp only: d(3))
  ultimately show ?thesis using d(1,2) assms(2) Inr by simp
qed

end

text \<open>
  A file with a fixed content: a read at any offset returns what is there and fits.  Such a
  file can be read in pieces of any sizes.
\<close>

fun read_chunks :: "(u64 \<Rightarrow> u8 list \<Rightarrow> ((vfs_error + nat) \<times> u8 list) outcome) \<Rightarrow> u64 \<Rightarrow> nat list \<Rightarrow> u8 list option" where
  "read_chunks rd offset [] = Some []"
| "read_chunks rd offset (k # ks) =
     (case rd offset (replicate k 0) of
        Ret (Inr n, buf) \<Rightarrow> map_option ((@) (take n buf)) (read_chunks rd (offset + of_nat n) ks)
      | _ \<Rightarrow> None)"

locale text_file =
  fixes rd :: "u64 \<Rightarrow> u8 list \<Rightarrow> ((vfs_error + nat) \<times> u8 list) outcome"
    and content :: "u8 list"
  assumes read_content: "unat offset \<le> length content \<Longrightarrow> rd offset buf =
      (let piece = take (length buf) (drop (unat offset) content) in Ret (Inr (length piece), copy_into piece buf))"
    and content_fits: "length content < 2 ^ 64"
begin

lemma read_chunks_content:
  "unat offset \<le> length content \<Longrightarrow>
     read_chunks rd offset ks = Some (take (sum_list ks) (drop (unat offset) content))"
proof (induction ks arbitrary: offset)
  case (Cons k ks)
  let ?piece = "take k (drop (unat offset) content)"
  have rd: "rd offset (replicate k 0) = Ret (Inr (length ?piece), copy_into ?piece (replicate k 0))"
    using read_content [OF Cons.prems] by simp
  have len: "unat offset + length ?piece \<le> length content" using Cons.prems by simp
  then have off: "unat (offset + of_nat (length ?piece)) = unat offset + length ?piece"
    using content_fits by (simp add: unat_word_ariths(1) unat_of_nat)
  then have "read_chunks rd (offset + of_nat (length ?piece)) ks =
      Some (take (sum_list ks) (drop (unat offset + length ?piece) content))"
    using Cons.IH [of "offset + of_nat (length ?piece)"] len by simp
  then show ?case
    using take_copy_into [of ?piece "replicate k 0"]
    by (simp only: read_chunks.simps rd take_drop_pieces) (simp add: take_add)
qed simp

end

lemma read_static_reader:
  "fst (read_static buf offset content) \<le> length buf"
  "length (snd (read_static buf offset content)) = length buf"
  "drop (fst (read_static buf offset content)) (snd (read_static buf offset content)) =
     drop (fst (read_static buf offset content)) buf"
  by (auto simp: read_static_eq Let_def length_copy_into drop_copy_into)

lemma proc_read_static:
  "proc_read tcks i offset buf =
     (case (if inode_num i = 2 then Some version_content else if inode_num i = 3 then Some (uptime_content tcks)
            else if inode_num i = 4 then Some meminfo_content else None) of
        None \<Rightarrow> Ret (Inl NotFound, buf)
      | Some c \<Rightarrow> Ret (Inr (fst (read_static buf offset c)), snd (read_static buf offset c)))"
  by (auto simp: proc_read_def read_static_def Let_def slice_from_def min.commute)

lemma sysfs_read_static:
  "sysfs_read i 0 buf = (if inode_num i = 3
     then Ret (Inr (fst (read_static buf 0 hostname_text)), snd (read_static buf 0 hostname_text))
     else Ret (Inl NotFound, buf))"
  by (auto simp: sysfs_read_def read_static_def hostname_text_def Let_def min.commute)

lemma node_texts: "version_content = version_text" "uptime_content = uptime_text" "meminfo_content = meminfo_text"
  by (simp_all add: version_content_def version_text_def uptime_content_def uptime_text_def
      meminfo_content_def meminfo_text_def Let_def fun_eq_iff)

interpretation dev_reader: vfs_reader dev_read
  by unfold_locales (auto simp: dev_read_def split: if_splits)

interpretation proc_reader: vfs_reader "proc_read tcks" for tcks
  by unfold_locales
    (auto simp: proc_read_static read_static_reader split: if_splits)

interpretation sys_reader: vfs_reader sysfs_read
proof unfold_locales
  show "n \<le> length buf \<and> length buf' = length buf \<and> drop n buf' = drop n buf"
    if "sysfs_read i offset buf = Ret (Inr n, buf')" for i offset buf n buf'
  proof (cases "offset = 0")
    case True
    with that show ?thesis by (auto simp: sysfs_read_static read_static_reader split: if_splits)
  next
    case False
    with that show ?thesis by (auto simp: sysfs_read_def word_gt_0)
  qed
  show "buf' = buf" if "sysfs_read i offset buf = Ret (Inl e, buf')" for i offset buf e buf'
    using that by (auto simp: sysfs_read_def Let_def split: if_splits)
qed

interpretation ext4_reader: vfs_reader "fs_read (ext4_fs fs)" for fs
  by unfold_locales (auto simp: ext4_fs_def)

lemma proc_text_file:
  assumes "node_text node tcks = Some content" "node \<noteq> SysHostname"
    and "inode_num i = (case node of ProcVersion \<Rightarrow> 2 | ProcUptime \<Rightarrow> 3 | _ \<Rightarrow> 4)"
  shows "text_file (proc_read tcks i) content"
  using assms length_node_text [OF assms(1)]
  by unfold_locales (cases node; auto simp: proc_read_static node_texts read_static_eq Let_def)+

section \<open>Properties\<close>

definition path_join :: "string \<Rightarrow> string \<Rightarrow> string" where
  "path_join dir nm = (if dir = ''/'' then '''' else dir) @ ''/'' @ nm"

text \<open>A path is listed when some directory's listing has an entry of that number and kind for it.\<close>

definition listed :: "file_system \<Rightarrow> string \<Rightarrow> u64 \<Rightarrow> inode_kind \<Rightarrow> bool" where
  "listed fs path n kind \<longleftrightarrow>
     (\<exists>dir i es. \<exists>e \<in> set es. fs_lookup fs dir = Inr i \<and> fs_readdir fs i = Inr es \<and>
        path = path_join dir (de_name e) \<and> n = de_inode_num e \<and> kind = de_kind e)"

definition found :: "file_system \<Rightarrow> string \<Rightarrow> u64 \<Rightarrow> inode_kind \<Rightarrow> bool" where
  "found fs path n kind \<longleftrightarrow>
     (\<exists>i. fs_lookup fs path = Inr i \<and> inode_num i = n \<and> inode_kind_of i = kind)"

lemma dev_listed: "listed dev_fs path n kind \<longleftrightarrow> kind = CharDevice \<and>
    (path, n) \<in> {(''/null'', 2), (''/zero'', 3), (''/full'', 4), (''/ttyS0'', 5)}"
  unfolding listed_def
  by (auto simp: dev_fs_def dev_lookup_def dev_readdir_def path_join_def inode_new_def char_device_def
      intro!: exI [of _ "''/''"] split: if_splits)

lemma proc_listed: "listed (proc_fs tcks) path n kind \<longleftrightarrow> kind = RegularFile \<and>
    (path, n) \<in> {(''/version'', 2), (''/uptime'', 3), (''/meminfo'', 4)}"
  unfolding listed_def
  by (auto simp: proc_fs_def proc_lookup_def proc_readdir_def path_join_def inode_new_def
      intro!: exI [of _ "''/''"] split: if_splits)

lemma sys_listed: "listed sys_fs path n kind \<longleftrightarrow>
    path = ''/kernel'' \<and> n = 2 \<and> kind = Directory \<or> path = ''/kernel/hostname'' \<and> n = 3 \<and> kind = RegularFile"
proof
  assume "listed sys_fs path n kind"
  then show "path = ''/kernel'' \<and> n = 2 \<and> kind = Directory \<or>
      path = ''/kernel/hostname'' \<and> n = 3 \<and> kind = RegularFile"
    by (auto simp: listed_def sys_fs_def sys_lookup_def sys_readdir_def path_join_def inode_new_def split: if_splits)
next
  have "listed sys_fs ''/kernel'' 2 Directory"
    unfolding listed_def by (rule exI [of _ "''/''"]) (simp add: sys_fs_def sys_lookup_def sys_readdir_def path_join_def inode_new_def)
  moreover have "listed sys_fs ''/kernel/hostname'' 3 RegularFile"
    unfolding listed_def by (rule exI [of _ "''/kernel''"]) (simp add: sys_fs_def sys_lookup_def sys_readdir_def path_join_def inode_new_def)
  ultimately show "path = ''/kernel'' \<and> n = 2 \<and> kind = Directory \<or>
      path = ''/kernel/hostname'' \<and> n = 3 \<and> kind = RegularFile \<Longrightarrow> listed sys_fs path n kind" by auto
qed

lemma dev_found: "found dev_fs path n kind \<longleftrightarrow> path \<in> {'''', ''/''} \<and> n = 1 \<and> kind = Directory \<or>
    kind = CharDevice \<and> (path, n) \<in> {(''/null'', 2), (''/zero'', 3), (''/full'', 4), (''/ttyS0'', 5)}"
  by (auto simp: found_def dev_fs_def dev_lookup_def char_device_def inode_new_def)

lemma proc_found: "found (proc_fs tcks) path n kind \<longleftrightarrow> path \<in> {'''', ''/''} \<and> n = 1 \<and> kind = Directory \<or>
    kind = RegularFile \<and> (path, n) \<in> {(''/version'', 2), (''/uptime'', 3), (''/meminfo'', 4)}"
  by (auto simp: found_def proc_fs_def proc_lookup_def inode_new_def)

lemma sys_found: "found sys_fs path n kind \<longleftrightarrow> path \<in> {'''', ''/''} \<and> n = 1 \<and> kind = Directory \<or>
    path = ''/kernel'' \<and> n = 2 \<and> kind = Directory \<or> path = ''/kernel/hostname'' \<and> n = 3 \<and> kind = RegularFile"
  by (auto simp: found_def sys_fs_def sys_lookup_def inode_new_def)

text \<open>
  Claim C35.  The directories of the three pseudo file systems are consistent with their
  name spaces: a path is in some directory's listing, with a given inode number and kind,
  exactly when it can be looked up with that number and kind, the two names of the root
  apart.
\<close>

theorem readdir_lists_lookup:
  assumes "fs = dev_fs \<or> fs = proc_fs tcks \<or> fs = sys_fs"
  shows "listed fs path n kind \<longleftrightarrow> path \<noteq> '''' \<and> path \<noteq> ''/'' \<and> found fs path n kind"
  using assms by (elim disjE; simp only: dev_listed proc_listed sys_listed dev_found proc_found sys_found) auto

theorem readdir_lists_lookup_witness: "listed (proc_fs 0) ''/uptime'' 3 RegularFile"
  using readdir_lists_lookup [of "proc_fs 0" 0 "''/uptime''" 3 RegularFile]
  by (simp add: found_def proc_fs_def proc_lookup_def inode_new_def)

interpretation proc_version: text_file "proc_read tcks (inode_new 2 RegularFile)" version_text for tcks
  by (rule proc_text_file [of ProcVersion]) (simp_all add: inode_new_def)

interpretation proc_uptime: text_file "proc_read tcks (inode_new 3 RegularFile)" "uptime_text tcks" for tcks
  by (rule proc_text_file [of ProcUptime]) (simp_all add: inode_new_def)

interpretation proc_meminfo: text_file "proc_read tcks (inode_new 4 RegularFile)" meminfo_text for tcks
  by (rule proc_text_file [of ProcMeminfo]) (simp_all add: inode_new_def)



text \<open>
  The host name file of /sys can only be read in one piece: through the file
  system, two reads of 7 bytes each return only its first 7 bytes, because a read at any
  offset above 0 reports the end of the file, although one read of 14 bytes returns all 14.
\<close>

lemma sysfs_chunked_read_truncates:
  "\<exists>i. fs_lookup sys_fs ''/kernel/hostname'' = Inr i \<and>
     read_chunks (fs_read sys_fs i) 0 [14] = Some hostname_text \<and>
     read_chunks (fs_read sys_fs i) 0 [7, 7] = Some (bytes ''compute'')"
proof -
  let ?i = "inode_new 3 RegularFile"
  have first: "sysfs_read ?i 0 (replicate k 0) =
      Ret (Inr (length (take k hostname_text)), copy_into (take k hostname_text) (replicate k 0))" for k
    by (simp add: sysfs_read_static read_static_eq inode_new_def Let_def)
  have later: "sysfs_read ?i 7 buf = Ret (Inr 0, buf)" for buf
    by (simp add: sysfs_read_def word_gt_0)
  have host: "length hostname_text = 14" "take 7 hostname_text = bytes ''compute''"
    by (simp_all add: hostname_text_def bytes_def)
  have len: "length (bytes ''compute'') = 7" by (simp add: bytes_def)
  have piece: "take 14 (copy_into hostname_text buf) = hostname_text"
    "take 7 (copy_into (bytes ''compute'') buf) = bytes ''compute''" for buf
    using take_copy_into [of hostname_text buf] take_copy_into [of "bytes ''compute''" buf] host(1) len
    by simp_all
  have "read_chunks (sysfs_read ?i) 0 [14] = Some hostname_text"
    using first [of 14] host piece by simp
  moreover have "read_chunks (sysfs_read ?i) 0 [7, 7] = Some (bytes ''compute'')"
    using first [of 7] later host piece len by simp
  ultimately show ?thesis by (simp add: sys_fs_def sys_lookup_def)
qed

end
