(* ===== verification/Initramfs.thy ===== *)
theory Initramfs
  imports Vfs
begin

text \<open>
  The initial RAM disk (\<open>kernel/src/fs/initramfs.rs\<close>): the parser of cpio archives in the
  \<open>newc\<close> format and the read-only file system over the parsed entries.  Offsets are natural
  numbers: an archive is a Rust slice, so it is shorter than \<open>2 ^ 63\<close> bytes, and the sizes
  in a header are 32-bit, so no sum of offsets reaches \<open>2 ^ 64\<close>.  Only \<open>read\<close>, whose offset is
  the caller's, adds in machine arithmetic.  The encoder at the end is the reference the
  parser is proved against.
\<close>

section \<open>Numbers in headers\<close>

text \<open>\<open>char::to_digit(16)\<close> on a byte, and \<open>u32::from_str_radix(s, 16)\<close>, which accepts a plus sign.\<close>

definition hex_digit :: "u8 \<Rightarrow> nat option" where
  "hex_digit b =
     (if 0x30 \<le> b \<and> b \<le> 0x39 then Some (unat b - 0x30)
      else if 0x61 \<le> b \<and> b \<le> 0x66 then Some (unat b - 0x61 + 10)
      else if 0x41 \<le> b \<and> b \<le> 0x46 then Some (unat b - 0x41 + 10)
      else None)"

fun radix16 :: "nat \<Rightarrow> u8 list \<Rightarrow> nat option" where
  "radix16 acc [] = Some acc"
| "radix16 acc (b # bs) =
     (case hex_digit b of
        None \<Rightarrow> None
      | Some d \<Rightarrow> if acc * 16 + d < 2 ^ 32 then radix16 (acc * 16 + d) bs else None)"

definition u32_from_str_radix16 :: "u8 list \<Rightarrow> u32 option" where
  "u32_from_str_radix16 bs =
     (if bs = [] \<or> bs = [0x2B] \<or> bs = [0x2D] then None
      else map_option of_nat (radix16 0 (if hd bs = 0x2B then tl bs else bs)))"

definition parse_hex8 :: "u8 list \<Rightarrow> u32 option" where
  "parse_hex8 buf =
     (case from_utf8 buf of None \<Rightarrow> None | Some s \<Rightarrow> u32_from_str_radix16 (bytes s))"

text \<open>\<open>(x + 3) & !3\<close>\<close>

definition align4 :: "nat \<Rightarrow> nat" where
  "align4 x = (x + 3) div 4 * 4"

section \<open>The parser\<close>

record cpio_entry =
  ce_path :: string
  ce_inode_num :: u64
  ce_mode :: u32
  ce_size :: u64
  ce_data_offset :: nat

record initram_fs =
  ir_data :: "u8 list"
  ir_entries :: "cpio_entry list"

definition CPIO_NEWC_MAGIC :: "u8 list" where
  "CPIO_NEWC_MAGIC = bytes ''070701''"

definition HEADER_SIZE :: nat where
  "HEADER_SIZE = 110"

text \<open>
  \<open>&data[offset + a..offset + b]\<close> within a header; in range, since the loop's condition puts
  all 110 bytes of the header inside the archive.
\<close>

definition header_field :: "u8 list \<Rightarrow> nat \<Rightarrow> nat \<Rightarrow> nat \<Rightarrow> u8 list" where
  "header_field data offset a b = take (b - a) (drop (offset + a) data)"

text \<open>The loop of \<open>InitramFs::new\<close>: the entries pushed from this offset on.\<close>

function parse_entries :: "u8 list \<Rightarrow> nat \<Rightarrow> u64 \<Rightarrow> cpio_entry list option outcome" where
  "parse_entries data offset inode =
     (if offset + HEADER_SIZE \<le> length data then
        (if header_field data offset 0 6 \<noteq> CPIO_NEWC_MAGIC then Ret (Some [])
         else case (parse_hex8 (header_field data offset 94 102), parse_hex8 (header_field data offset 54 62),
                    parse_hex8 (header_field data offset 14 22)) of
             (Some namesize, Some filesize, Some mode) \<Rightarrow>
               (let name_offset = offset + HEADER_SIZE;
                    name_end = name_offset + unat namesize
                in if length data < name_end then Ret (Some [])
                   else obind (slice name_offset (name_end - 1) data) (\<lambda>name_bytes.
                     case from_utf8 name_bytes of
                       None \<Rightarrow> Ret None
                     | Some path \<Rightarrow>
                         let data_start = align4 name_end;
                             data_end = data_start + unat filesize
                         in if path = ''TRAILER!!!'' then Ret (Some [])
                            else obind (parse_entries data (align4 data_end) (inode + 1)) (\<lambda>r.
                              Ret (map_option
                                ((#) \<lparr>ce_path = path, ce_inode_num = inode, ce_mode = mode,
                                      ce_size = ucast filesize, ce_data_offset = data_start\<rparr>) r))))
           | _ \<Rightarrow> Ret None)
      else Ret (Some []))"
  by pat_completeness auto

lemma align4_ge: "x \<le> align4 x"
  by (simp add: align4_def)

lemma parse_progress:
  assumes "offset + HEADER_SIZE \<le> n" "offset + HEADER_SIZE \<le> y"
  shows "n - align4 (align4 y + k) < n - offset"
  using assms align4_ge [of y] align4_ge [of "align4 y + k"] by (simp add: HEADER_SIZE_def)

termination parse_entries
  by (relation "measure (\<lambda>(data, offset, inode). length data - offset)") (auto intro!: parse_progress)

declare parse_entries.simps [simp del]

text \<open>\<open>InitramFs::new\<close>: \<open>None\<close> when a header or a name is malformed.  Its log line is left out.\<close>

definition initramfs_new :: "u8 list \<Rightarrow> initram_fs option outcome" where
  "initramfs_new data =
     obind (parse_entries data 0 2) (\<lambda>r. Ret (map_option (\<lambda>es. \<lparr>ir_data = data, ir_entries = es\<rparr>) r))"

section \<open>The file system\<close>

definition trim_slashes :: "string \<Rightarrow> string" where
  "trim_slashes path = dropWhile (\<lambda>c. c = CHR ''/'') path"

definition initramfs_find :: "initram_fs \<Rightarrow> string \<Rightarrow> cpio_entry option" where
  "initramfs_find fs path = List.find (\<lambda>e. ce_path e = path \<or> ce_path e = trim_slashes path) (ir_entries fs)"

definition initramfs_lookup :: "initram_fs \<Rightarrow> string \<Rightarrow> vfs_error + inode" where
  "initramfs_lookup fs path =
     (if path = ''/'' \<or> path = '''' then Inr (inode_new 1 Directory)
      else case initramfs_find fs path of
          None \<Rightarrow> Inl NotFound
        | Some entry \<Rightarrow>
            let kind = (if ce_mode entry AND 0xF000 = 0x4000 then Directory
                        else if ce_mode entry AND 0xF000 = 0xA000 then Symlink
                        else RegularFile)
            in Inr ((inode_new (ce_inode_num entry) kind)
                      \<lparr>inode_size := ce_size entry, inode_mode := ucast (ce_mode entry)\<rparr>))"

definition initramfs_read ::
    "profile \<Rightarrow> initram_fs \<Rightarrow> inode \<Rightarrow> u64 \<Rightarrow> u8 list \<Rightarrow> ((vfs_error + nat) \<times> u8 list) outcome" where
  "initramfs_read prof fs i offset buf =
     (case List.find (\<lambda>e. ce_inode_num e = inode_num i) (ir_entries fs) of
        None \<Rightarrow> Ret (Inl NotFound, buf)
      | Some entry \<Rightarrow>
          obind (arith_add prof (of_nat (ce_data_offset entry)) offset) (\<lambda>start.
          obind (arith_add prof (of_nat (ce_data_offset entry)) (ce_size entry)) (\<lambda>stop.
            if stop \<le> start then Ret (Inr 0, buf)
            else obind (slice (unat start) (unat stop) (ir_data fs)) (\<lambda>available.
              let n = min (length buf) (length available)
              in Ret (Inr n, copy_into (take n available) buf)))))"

definition initramfs_dir_entry :: "string \<Rightarrow> cpio_entry \<Rightarrow> dir_entry option" where
  "initramfs_dir_entry prefix entry =
     (let name = trim_slashes (drop (length prefix) (ce_path entry))
      in if take (length prefix) (ce_path entry) = prefix \<and> CHR ''/'' \<notin> set name \<and> name \<noteq> ''''
         then Some \<lparr>de_name = name, de_inode_num = ce_inode_num entry,
                    de_kind = (if ce_mode entry AND 0xF000 = 0x4000 then Directory else RegularFile)\<rparr>
         else None)"

definition initramfs_readdir :: "initram_fs \<Rightarrow> inode \<Rightarrow> vfs_error + dir_entry list" where
  "initramfs_readdir fs i =
     (let prefix = (if inode_num i = 1 then Some ''''
                    else map_option ce_path (List.find (\<lambda>e. ce_inode_num e = inode_num i) (ir_entries fs)))
      in case prefix of
           None \<Rightarrow> Inl NotFound
         | Some prefix \<Rightarrow> Inr (List.map_filter (initramfs_dir_entry prefix) (ir_entries fs)))"

definition initramfs :: "profile \<Rightarrow> initram_fs \<Rightarrow> file_system" where
  "initramfs prof fs = \<lparr>fs_name = ''initramfs'', fs_lookup = initramfs_lookup fs,
     fs_read = initramfs_read prof fs, fs_write = (\<lambda>_ _ _. (Inl PermissionDenied, [])),
     fs_readdir = initramfs_readdir fs, fs_create = (\<lambda>_ _ _ _. Inl PermissionDenied),
     fs_unlink = (\<lambda>_ _. Inl PermissionDenied)\<rparr>"

interpretation initramfs_reader: vfs_reader "initramfs_read prof fs" for prof fs
  by unfold_locales
    (auto simp: initramfs_read_def slice_def copy_into_def Let_def split: option.splits if_splits)

section \<open>A reference encoder\<close>

record cpio_file =
  cf_path :: string
  cf_mode :: u32
  cf_content :: "u8 list"

definition hex_char :: "nat \<Rightarrow> u8" where
  "hex_char d = (if d < 10 then of_nat (0x30 + d) else of_nat (0x41 + (d - 10)))"

definition hex8 :: "nat \<Rightarrow> u8 list" where
  "hex8 n = map (\<lambda>i. hex_char (n div 16 ^ i mod 16)) [7, 6, 5, 4, 3, 2, 1, 0]"

definition pad4 :: "u8 list \<Rightarrow> u8 list" where
  "pad4 bs = bs @ replicate (align4 (length bs) - length bs) 0"

text \<open>Fields: inode, mode, owner, group, links, time, file size, two device pairs, name size, check.\<close>

definition cpio_header :: "u32 \<Rightarrow> nat \<Rightarrow> nat \<Rightarrow> u8 list" where
  "cpio_header mode filesize namesize =
     CPIO_NEWC_MAGIC @ hex8 0 @ hex8 (unat mode) @ hex8 0 @ hex8 0 @ hex8 0 @ hex8 0 @ hex8 filesize @
     hex8 0 @ hex8 0 @ hex8 0 @ hex8 0 @ hex8 namesize @ hex8 0"

definition cpio_name :: "cpio_file \<Rightarrow> u8 list" where
  "cpio_name f = pad4 (cpio_header (cf_mode f) (length (cf_content f)) (Suc (length (cf_path f))) @
     bytes (cf_path f) @ [0])"

definition cpio_member :: "cpio_file \<Rightarrow> u8 list" where
  "cpio_member f = cpio_name f @ pad4 (cf_content f)"

definition cpio_trailer :: "u8 list" where
  "cpio_trailer = cpio_member \<lparr>cf_path = ''TRAILER!!!'', cf_mode = 0, cf_content = []\<rparr>"

definition cpio_archive :: "cpio_file list \<Rightarrow> u8 list" where
  "cpio_archive files = concat (map cpio_member files) @ cpio_trailer"

definition cpio_file_ok :: "cpio_file \<Rightarrow> bool" where
  "cpio_file_ok f \<longleftrightarrow> from_utf8 (bytes (cf_path f)) = Some (cf_path f) \<and> cf_path f \<noteq> ''TRAILER!!!'' \<and>
     Suc (length (cf_path f)) < 2 ^ 32 \<and> length (cf_content f) < 2 ^ 32"

section \<open>Reading back a header\<close>

lemma less_16_cases:
  "d < (16 :: nat) \<Longrightarrow> d = 0 \<or> d = 1 \<or> d = 2 \<or> d = 3 \<or> d = 4 \<or> d = 5 \<or> d = 6 \<or> d = 7 \<or> d = 8 \<or> d = 9 \<or>
     d = 10 \<or> d = 11 \<or> d = 12 \<or> d = 13 \<or> d = 14 \<or> d = 15"
  by arith

lemma hex_digit_char: "d < 16 \<Longrightarrow> hex_digit (hex_char d) = Some d"
  by (drule less_16_cases, elim disjE) (simp_all add: hex_digit_def hex_char_def)

lemma hex_char_ascii: "d < 16 \<Longrightarrow> hex_char d < 0x80 \<and> hex_char d \<noteq> 0x2B"
  by (drule less_16_cases, elim disjE) (simp_all add: hex_char_def)

lemma radix16_digits:
  assumes "n < 2 ^ 32" "acc = n div 16 ^ k"
  shows "radix16 acc (map (\<lambda>i. hex_char (n div 16 ^ i mod 16)) (rev [0..<k])) = Some n"
  using assms
proof (induction k arbitrary: acc)
  case (Suc k)
  have "acc = n div 16 ^ k div 16"
    using Suc.prems(2) by (simp only: power_Suc2 div_mult2_eq)
  then have "acc * 16 + n div 16 ^ k mod 16 = n div 16 ^ k"
    by (simp only: div_mult_mod_eq)
  moreover have "n div 16 ^ k < 2 ^ 32"
    using Suc.prems(1) by (rule le_less_trans [OF div_le_dividend])
  ultimately show ?case using Suc.IH [OF Suc.prems(1)] by (simp add: hex_digit_char)
qed simp

lemma length_hex8 [simp]: "length (hex8 n) = 8"
  by (simp add: hex8_def)

lemma parse_hex8_hex8: "n < 2 ^ 32 \<Longrightarrow> parse_hex8 (hex8 n) = Some (of_nat n)"
proof -
  assume n: "n < 2 ^ 32"
  have eq: "hex8 n = map (\<lambda>i. hex_char (n div 16 ^ i mod 16)) (rev [0..<8])"
    by (simp add: hex8_def upt_rec)
  have "list_all (\<lambda>b. b < 0x80) (hex8 n)" "hd (hex8 n) \<noteq> 0x2B"
    by (simp_all add: hex8_def hex_char_ascii)
  moreover have "hex8 n \<noteq> []" "hex8 n \<noteq> [0x2B]" "hex8 n \<noteq> [0x2D]"
    by (simp_all add: hex8_def)
  moreover have "radix16 0 (hex8 n) = Some n"
    unfolding eq using n by (intro radix16_digits) simp_all
  ultimately show ?thesis
    by (simp add: parse_hex8_def from_utf8_def utf8_split_ascii u32_from_str_radix16_def)
qed

lemma length_header [simp]: "length (cpio_header mode a b) = HEADER_SIZE"
  by (simp add: cpio_header_def HEADER_SIZE_def CPIO_NEWC_MAGIC_def bytes_def)

lemma header_field_app:
  "b \<le> HEADER_SIZE \<Longrightarrow> header_field (pre @ cpio_header mode n k @ rest) (length pre) a b =
     take (b - a) (drop a (cpio_header mode n k))"
  by (auto simp: header_field_def)

lemma length_magic [simp]: "length CPIO_NEWC_MAGIC = 6"
  by (simp add: CPIO_NEWC_MAGIC_def bytes_def)

lemma header_fields:
  "take 6 (cpio_header mode n k) = CPIO_NEWC_MAGIC"
  "take 8 (drop 94 (cpio_header mode n k)) = hex8 k"
  "take 8 (drop 54 (cpio_header mode n k)) = hex8 n"
  "take 8 (drop 14 (cpio_header mode n k)) = hex8 (unat mode)"
  by (simp_all add: cpio_header_def)

section \<open>Reading back an archive\<close>

lemma align4_props: "4 dvd align4 n" "4 dvd m \<Longrightarrow> align4 (m + n) = m + align4 n"
  by (auto simp: align4_def add.assoc elim!: dvdE)

lemma length_pad4 [simp]: "length (pad4 bs) = align4 (length bs)"
  using align4_ge [of "length bs"] by (simp add: pad4_def)

lemma length_bytes [simp]: "length (bytes str) = length str"
  by (simp add: bytes_def)

lemma dvd_length_member: "4 dvd length (cpio_member f)"
  by (simp add: cpio_member_def cpio_name_def align4_props)

text \<open>The entry the parser makes of a file whose member starts at offset \<open>n\<close>.\<close>

definition entry_of :: "nat \<Rightarrow> u64 \<Rightarrow> cpio_file \<Rightarrow> cpio_entry" where
  "entry_of n inode f = \<lparr>ce_path = cf_path f, ce_inode_num = inode, ce_mode = cf_mode f,
     ce_size = of_nat (length (cf_content f)), ce_data_offset = n + length (cpio_name f)\<rparr>"

lemma parse_step:
  assumes "offset + HEADER_SIZE \<le> length data" "header_field data offset 0 6 = CPIO_NEWC_MAGIC"
    and "parse_hex8 (header_field data offset 94 102) = Some namesize"
    and "parse_hex8 (header_field data offset 54 62) = Some filesize"
    and "parse_hex8 (header_field data offset 14 22) = Some mode"
    and "offset + HEADER_SIZE + unat namesize \<le> length data"
    and "slice (offset + HEADER_SIZE) (offset + HEADER_SIZE + unat namesize - 1) data = Ret name_bytes"
    and "from_utf8 name_bytes = Some path"
  shows "parse_entries data offset inode =
    (if path = ''TRAILER!!!'' then Ret (Some [])
     else obind (parse_entries data (align4 (align4 (offset + HEADER_SIZE + unat namesize) + unat filesize)) (inode + 1))
       (\<lambda>r. Ret (map_option ((#) \<lparr>ce_path = path, ce_inode_num = inode, ce_mode = mode, ce_size = ucast filesize,
          ce_data_offset = align4 (offset + HEADER_SIZE + unat namesize)\<rparr>) r)))"
  using assms by (subst parse_entries.simps) (simp add: Let_def not_less [symmetric])

lemma parse_name:
  assumes "from_utf8 (bytes (cf_path f)) = Some (cf_path f)" "Suc (length (cf_path f)) < 2 ^ 32"
    and "length (cf_content f) < 2 ^ 32" "4 dvd length pre"
  shows "parse_entries (pre @ cpio_name f @ rest) (length pre) inode =
    (if cf_path f = ''TRAILER!!!'' then Ret (Some [])
     else obind (parse_entries (pre @ cpio_name f @ rest) (length pre + length (cpio_member f)) (inode + 1))
       (\<lambda>r. Ret (map_option ((#) (entry_of (length pre) inode f)) r)))"
proof -
  let ?hd = "cpio_header (cf_mode f) (length (cf_content f)) (Suc (length (cf_path f)))"
  let ?name = "?hd @ bytes (cf_path f) @ [0]"
  define tail where "tail = replicate (align4 (length ?name) - length ?name) 0 @ rest"
  have data: "pre @ cpio_name f @ rest = pre @ ?hd @ bytes (cf_path f) @ [0] @ tail"
    by (simp add: cpio_name_def pad4_def tail_def)
  have n: "unat (of_nat (Suc (length (cf_path f))) :: u32) = Suc (length (cf_path f))"
    "unat (of_nat (length (cf_content f)) :: u32) = length (cf_content f)"
    using assms(2,3) by (simp_all only: unat_of_nat) simp_all
  have "unat (cf_mode f) < 2 ^ LENGTH(32)" by (rule unsigned_less)
  then have mode: "unat (cf_mode f) < 2 ^ 32" by simp
  have fields: "header_field (pre @ ?hd @ r) (length pre) 0 6 = CPIO_NEWC_MAGIC"
    "parse_hex8 (header_field (pre @ ?hd @ r) (length pre) 94 102) = Some (of_nat (Suc (length (cf_path f))))"
    "parse_hex8 (header_field (pre @ ?hd @ r) (length pre) 54 62) = Some (of_nat (length (cf_content f)))"
    "parse_hex8 (header_field (pre @ ?hd @ r) (length pre) 14 22) = Some (cf_mode f)" for r
    using parse_hex8_hex8 [OF assms(2)] parse_hex8_hex8 [OF assms(3)]
      parse_hex8_hex8 [OF mode]
    by (simp_all add: header_field_app header_fields HEADER_SIZE_def)
  have start: "align4 (length pre + HEADER_SIZE + Suc (length (cf_path f))) = length pre + length (cpio_name f)"
    using align4_props(2) [OF assms(4), of "HEADER_SIZE + Suc (length (cf_path f))"]
    by (simp add: cpio_name_def add.assoc)
  have stop: "align4 (length pre + length (cpio_name f) + length (cf_content f)) = length pre + length (cpio_member f)"
    using align4_props(2) [of "length pre + length (cpio_name f)" "length (cf_content f)"] assms(4)
    by (simp add: cpio_member_def cpio_name_def align4_props)
  have name: "slice (length pre + HEADER_SIZE) (length pre + HEADER_SIZE + Suc (length (cf_path f)) - 1)
      (pre @ ?hd @ bytes (cf_path f) @ [0] @ tail) = Ret (bytes (cf_path f))"
    by (simp add: slice_def)
  have size: "(ucast (of_nat (length (cf_content f)) :: u32) :: u64) = of_nat (length (cf_content f))"
    using n(2) by (metis of_nat_unat)
  have "length pre + HEADER_SIZE + Suc (length (cf_path f)) \<le> length (pre @ ?hd @ bytes (cf_path f) @ [0] @ tail)"
    by simp
  then show ?thesis
    unfolding data
    using parse_step [OF _ fields, of "bytes (cf_path f) @ [0] @ tail" "bytes (cf_path f)" "cf_path f" inode] name
    by (simp only: n start stop size assms(1) entry_of_def)
qed

fun layout :: "nat \<Rightarrow> u64 \<Rightarrow> cpio_file list \<Rightarrow> cpio_entry list" where
  "layout n inode [] = []"
| "layout n inode (f # fs) = entry_of n inode f # layout (n + length (cpio_member f)) (inode + 1) fs"

lemma parse_archive:
  assumes "list_all cpio_file_ok files" "4 dvd length pre"
  shows "parse_entries (pre @ cpio_archive files @ junk) (length pre) inode = Ret (Some (layout (length pre) inode files))"
  using assms
proof (induction files arbitrary: pre inode)
  case Nil
  have "from_utf8 (bytes ''TRAILER!!!'') = Some ''TRAILER!!!''"
    by (rule from_utf8_ascii) (simp add: ascii_def bytes_def byte_of_def)
  then show ?case
    using parse_name [of "\<lparr>cf_path = ''TRAILER!!!'', cf_mode = 0, cf_content = []\<rparr>" pre "pad4 [] @ junk" inode] Nil
    by (simp add: cpio_archive_def cpio_trailer_def cpio_member_def)
next
  case (Cons f files)
  have ok: "cpio_file_ok f" and d: "4 dvd length (pre @ cpio_member f)"
    using Cons.prems dvd_length_member [of f] by simp_all
  have "pre @ cpio_archive (f # files) @ junk = pre @ cpio_name f @ pad4 (cf_content f) @ cpio_archive files @ junk"
    "pre @ cpio_archive (f # files) @ junk = (pre @ cpio_member f) @ cpio_archive files @ junk"
    by (simp_all add: cpio_archive_def cpio_member_def)
  then show ?case
    using parse_name [of f pre "pad4 (cf_content f) @ cpio_archive files @ junk" inode] ok Cons.prems
      Cons.IH [OF _ d, of "inode + 1"] by (simp add: cpio_file_ok_def)
qed

lemma length_layout [simp]: "length (layout n inode files) = length files"
  by (induction files arbitrary: n inode) auto

lemma layout_nth:
  "k < length files \<Longrightarrow> layout n inode files ! k =
     entry_of (n + length (concat (map cpio_member (take k files)))) (inode + of_nat k) (files ! k)"
proof (induction files arbitrary: n inode k)
  case (Cons f files)
  then show ?case by (cases k) (simp_all add: algebra_simps)
qed simp

text \<open>A file whose bytes are stored at its entry's offset reads as a text file.\<close>

lemma initramfs_text_file:
  assumes "List.find (\<lambda>e. ce_inode_num e = inode_num i) (ir_entries fs) = Some entry"
    and "ir_data fs = pre @ content @ post" "ce_data_offset entry = length pre"
    and "ce_size entry = of_nat (length content)" "length (ir_data fs) < 2 ^ 63"
  shows "text_file (initramfs_read prof fs i) content"
proof
  have small: "length pre + length content < 2 ^ 64" using assms(2,5) by simp
  then show "length content < 2 ^ 64" by simp
  fix offset :: u64 and buf :: "u8 list"
  assume off: "unat offset \<le> length content"
  have pre: "unat (of_nat (length pre) :: u64) = length pre"
    "unat (of_nat (length content) :: u64) = length content" using small by (simp_all add: unat_of_nat)
  have sums: "unat (of_nat (length pre) + offset :: u64) = length pre + unat offset"
    "unat (of_nat (length pre) + of_nat (length content) :: u64) = length pre + length content"
    using small off pre by (simp_all add: unat_word_ariths(1))
  have adds: "arith_add prof (of_nat (length pre)) offset = Ret (of_nat (length pre) + offset)"
    "arith_add prof (of_nat (length pre)) (of_nat (length content) :: u64) = Ret (of_nat (length pre) + of_nat (length content))"
    using small off pre by (intro arith_add_ok; simp)+
  have "slice (length pre + unat offset) (length pre + length content) (ir_data fs) = Ret (drop (unat offset) content)"
    using off by (simp add: slice_def assms(2))
  moreover have "take (min (length buf) (length content - unat offset)) (drop (unat offset) content) =
      take (length buf) (drop (unat offset) content)" by (auto simp: min_def)
  ultimately show "initramfs_read prof fs i offset buf =
      (let piece = take (length buf) (drop (unat offset) content) in Ret (Inr (length piece), copy_into piece buf))"
    using assms(1,3,4) off
    by (auto simp: initramfs_read_def adds word_le_nat_alt sums Let_def copy_into_def min.commute)
qed

lemma member_pos: "0 < length (cpio_member f)"
  using align4_ge [of "HEADER_SIZE + Suc (length (cf_path f))"]
  by (simp add: cpio_member_def cpio_name_def HEADER_SIZE_def)

lemma length_files_le: "length files \<le> length (concat (map cpio_member files))"
proof (induction files)
  case (Cons f files)
  then show ?case using member_pos [of f] by (simp del: length_greater_0_conv)
qed simp

lemma archive_split:
  assumes "k < length files"
  shows "\<exists>post. cpio_archive files @ junk =
    (concat (map cpio_member (take k files)) @ cpio_name (files ! k)) @ cf_content (files ! k) @ post"
proof -
  have "concat (map cpio_member files) = concat (map cpio_member (take k files)) @ cpio_member (files ! k) @
      concat (map cpio_member (drop (Suc k) files))"
    using id_take_nth_drop [OF assms] by (metis concat.simps(2) concat_append list.simps(9) map_append)
  then show ?thesis by (simp add: cpio_archive_def cpio_member_def pad4_def)
qed

text \<open>Looking an archived file up, by its absolute path and by its inode number.\<close>

lemma layout_find:
  assumes "distinct (map cf_path files)" "length files < 2 ^ 64" "k < length files"
    and "list_all (\<lambda>f. cf_path f \<noteq> '''' \<and> hd (cf_path f) \<noteq> CHR ''/'') files"
  defines "e \<equiv> layout 0 2 files ! k"
  shows "initramfs_find \<lparr>ir_data = d, ir_entries = layout 0 2 files\<rparr> (''/'' @ cf_path (files ! k)) = Some e"
    "List.find (\<lambda>x. ce_inode_num x = ce_inode_num e) (layout 0 2 files) = Some e"
proof -
  have entry: "ce_path (layout 0 2 files ! j) = cf_path (files ! j)"
    "ce_inode_num (layout 0 2 files ! j) = 2 + of_nat j" if "j < length files" for j
    using layout_nth [OF that, of 0 2] by (simp_all add: entry_of_def)
  have nz: "cf_path (files ! j) \<noteq> ''''" "hd (cf_path (files ! j)) \<noteq> CHR ''/''" if "j < length files" for j
    using assms(4) that by (auto simp: list_all_length)
  have trim: "trim_slashes (''/'' @ cf_path (files ! k)) = cf_path (files ! k)"
    using nz [OF assms(3)] by (cases "cf_path (files ! k)") (auto simp: trim_slashes_def)
  have "cf_path (files ! j) \<noteq> ''/'' @ cf_path (files ! k) \<and> cf_path (files ! j) \<noteq> cf_path (files ! k)"
    if "j < k" for j
    using that assms(1,3) nz [of j] by (auto simp: distinct_conv_nth)
  then show "initramfs_find \<lparr>ir_data = d, ir_entries = layout 0 2 files\<rparr> (''/'' @ cf_path (files ! k)) = Some e"
    unfolding initramfs_find_def trim e_def
    using assms(3) entry by (auto simp: find_Some_iff intro!: exI [of _ k])
  have "(of_nat j :: u64) \<noteq> of_nat k" if "j < k" for j
  proof -
    have "unat (of_nat j :: u64) \<noteq> unat (of_nat k :: u64)"
      using that assms(2,3) by (simp add: unat_of_nat)
    then show ?thesis by metis
  qed
  then show "List.find (\<lambda>x. ce_inode_num x = ce_inode_num e) (layout 0 2 files) = Some e"
    unfolding e_def using assms(3) entry by (auto simp: find_Some_iff intro!: exI [of _ k])
qed

text \<open>
  Claim C32.  Unpacking inverts packing.  For any list of files with distinct, relative,
  valid names, the parser accepts their archive (whatever follows the trailer), and every
  file can be looked up by its absolute path, with its size and mode, and read in pieces
  of any sizes, which put together are the file's content.
\<close>

theorem initramfs_roundtrip:
  assumes "list_all cpio_file_ok files" and "distinct (map cf_path files)"
    and "list_all (\<lambda>f. cf_path f \<noteq> '''' \<and> hd (cf_path f) \<noteq> CHR ''/'') files"
    and "length (cpio_archive files @ junk) < 2 ^ 63" and "f \<in> set files"
  shows "\<exists>fs i. initramfs_new (cpio_archive files @ junk) = Ret (Some fs) \<and>
    initramfs_lookup fs (''/'' @ cf_path f) = Inr i \<and>
    inode_size i = of_nat (length (cf_content f)) \<and> inode_mode i = ucast (cf_mode f) \<and>
    read_chunks (initramfs_read prof fs i) 0 ks = Some (take (sum_list ks) (cf_content f))"
proof -
  obtain k where k: "k < length files" "f = files ! k" using assms(5) by (auto simp: in_set_conv_nth)
  let ?fs = "\<lparr>ir_data = cpio_archive files @ junk, ir_entries = layout 0 2 files\<rparr>"
  let ?e = "layout 0 2 files ! k"
  have new: "initramfs_new (cpio_archive files @ junk) = Ret (Some ?fs)"
    using parse_archive [OF assms(1), of "[]" junk 2] by (simp add: initramfs_new_def)
  have entry: "?e = entry_of (length (concat (map cpio_member (take k files)))) (2 + of_nat k) f"
    using layout_nth [OF k(1), of 0 2] k(2) by simp
  have "length files < 2 ^ 64"
    using assms(4) length_files_le [of files] by (simp add: cpio_archive_def)
  note find = layout_find [OF assms(2) this k(1) assms(3)]
  obtain i where i: "initramfs_lookup ?fs (''/'' @ cf_path f) = Inr i" "inode_num i = ce_inode_num ?e"
    "inode_size i = of_nat (length (cf_content f))" "inode_mode i = ucast (cf_mode f)"
    using find(1) assms(3,5) k(2) entry
    by (auto simp: initramfs_lookup_def Let_def inode_new_def entry_of_def list_all_iff)
  obtain post where post: "cpio_archive files @ junk =
      (concat (map cpio_member (take k files)) @ cpio_name f) @ cf_content f @ post"
    using archive_split [OF k(1), of junk] k(2) by auto
  have "text_file (initramfs_read prof ?fs i) (cf_content f)"
    by (rule initramfs_text_file [of _ _ ?e "concat (map cpio_member (take k files)) @ cpio_name f" _ post])
      (use find(2) i(2) assms(4) entry post in \<open>simp_all add: entry_of_def\<close>)
  from text_file.read_chunks_content [OF this, of 0 ks] new i show ?thesis by (intro exI conjI) auto
qed

lemma ascii_file_ok:
  "ascii (cf_path f) \<Longrightarrow> cf_path f \<noteq> ''TRAILER!!!'' \<Longrightarrow> Suc (length (cf_path f)) < 2 ^ 32 \<Longrightarrow>
     length (cf_content f) < 2 ^ 32 \<Longrightarrow> cpio_file_ok f"
  by (simp add: cpio_file_ok_def from_utf8_ascii)

definition init_file :: cpio_file where
  "init_file = \<lparr>cf_path = ''init'', cf_mode = 0x81ED, cf_content = [1, 2, 3]\<rparr>"

lemma init_file_ok: "cpio_file_ok init_file"
  by (rule ascii_file_ok) (simp_all add: init_file_def ascii_def bytes_def byte_of_def)

theorem initramfs_roundtrip_witness:
  "\<exists>fs i. initramfs_new (cpio_archive [init_file]) = Ret (Some fs) \<and>
     initramfs_lookup fs ''/init'' = Inr i \<and> inode_size i = 3 \<and>
     read_chunks (initramfs_read Dev fs i) 0 [2, 2] = Some [1, 2, 3]"
proof -
  have "length (cpio_archive [init_file] @ []) < 2 ^ 63"
    by (simp add: cpio_archive_def cpio_trailer_def cpio_member_def cpio_name_def HEADER_SIZE_def
        align4_def init_file_def)
  with initramfs_roundtrip [of "[init_file]" "[]" init_file Dev "[2, 2]"] init_file_ok show ?thesis
    by (auto simp: init_file_def simp del: read_chunks.simps)
qed

section \<open>Malformed archives\<close>

text \<open>The fields of a header that has all of them, and where the loop goes from a header it accepts.\<close>

definition header_at :: "u8 list \<Rightarrow> nat \<Rightarrow> (u32 \<times> u32 \<times> u32) option" where
  "header_at data offset =
     (if offset + HEADER_SIZE \<le> length data \<and> header_field data offset 0 6 = CPIO_NEWC_MAGIC
      then case (parse_hex8 (header_field data offset 94 102), parse_hex8 (header_field data offset 54 62),
                 parse_hex8 (header_field data offset 14 22)) of
          (Some namesize, Some filesize, Some mode) \<Rightarrow> Some (namesize, filesize, mode)
        | _ \<Rightarrow> None
      else None)"

definition next_header :: "u8 list \<Rightarrow> nat \<Rightarrow> nat option" where
  "next_header data offset =
     (case header_at data offset of
        None \<Rightarrow> None
      | Some (namesize, filesize, _) \<Rightarrow>
          let name = offset + HEADER_SIZE; name_end = name + unat namesize
          in if length data < name_end then None
             else case from_utf8 (take (unat namesize - 1) (drop name data)) of
                 None \<Rightarrow> None
               | Some path \<Rightarrow> if path = ''TRAILER!!!'' then None else Some (align4 (align4 name_end + unat filesize)))"

definition zero_name_at :: "u8 list \<Rightarrow> nat \<Rightarrow> bool" where
  "zero_name_at data offset \<longleftrightarrow> (\<exists>filesize mode. header_at data offset = Some (0, filesize, mode))"

lemma slice_name:
  "n \<noteq> 0 \<Longrightarrow> a + n \<le> length data \<Longrightarrow> slice a (a + n - 1) data = Ret (take (n - 1) (drop a data))"
  by (cases n) (simp_all add: slice_def)

lemma parse_entries_step:
  "returns (parse_entries data offset inode) \<longleftrightarrow> \<not> zero_name_at data offset \<and>
     (\<forall>next. next_header data offset = Some next \<longrightarrow> returns (parse_entries data next (inode + 1)))"
proof (cases "header_at data offset")
  case None
  then show ?thesis
    by (subst parse_entries.simps)
      (auto simp: header_at_def next_header_def zero_name_at_def split: if_splits option.splits)
next
  case (Some h)
  obtain namesize filesize mode where h: "h = (namesize, filesize, mode)" by (cases h)
  have at: "offset + HEADER_SIZE \<le> length data" "header_field data offset 0 6 = CPIO_NEWC_MAGIC"
    "parse_hex8 (header_field data offset 94 102) = Some namesize"
    "parse_hex8 (header_field data offset 54 62) = Some filesize"
    "parse_hex8 (header_field data offset 14 22) = Some mode"
    using Some by (auto simp: header_at_def h split: if_splits option.splits)
  show ?thesis
  proof (cases "namesize = 0")
    case True
    then show ?thesis using Some at
      by (subst parse_entries.simps) (simp add: zero_name_at_def h Let_def slice_def HEADER_SIZE_def)
  next
    case False
    then have "unat namesize \<noteq> 0" by (simp add: unat_eq_zero)
    then show ?thesis using Some at False slice_name [of "unat namesize" "offset + HEADER_SIZE" data]
      by (subst parse_entries.simps) (auto simp: zero_name_at_def next_header_def h Let_def returns_iff split: option.splits)
  qed
qed

lemma next_header_progress: "next_header data offset = Some next \<Longrightarrow> length data - next < length data - offset"
  by (auto simp: next_header_def header_at_def Let_def intro!: parse_progress split: if_splits option.splits)

lemma parse_entries_panics_iff:
  "returns (parse_entries data offset inode) \<longleftrightarrow>
     \<not> (\<exists>z. (\<lambda>a b. next_header data a = Some b)\<^sup>*\<^sup>* offset z \<and> zero_name_at data z)"
proof (induction "length data - offset" arbitrary: offset inode rule: less_induct)
  case less
  have "(\<lambda>a b. next_header data a = Some b)\<^sup>*\<^sup>* offset z \<longleftrightarrow>
      z = offset \<or> (\<exists>next. next_header data offset = Some next \<and> (\<lambda>a b. next_header data a = Some b)\<^sup>*\<^sup>* next z)" for z
    by (auto elim: converse_rtranclpE intro: converse_rtranclp_into_rtranclp)
  then show ?case
    using less.hyps [OF next_header_progress] by (subst parse_entries_step) auto
qed

text \<open>
  Claim C33.  Parsing terminates on every input, and panics exactly when the headers the parser
  follows from the start of the archive lead to one that announces a name of size zero (the
  name is then sliced from its start to one byte before it).  No other malformed input panics it.
\<close>

theorem initramfs_new_panics_iff:
  "\<not> returns (initramfs_new data) \<longleftrightarrow>
   (\<exists>z. (\<lambda>a b. next_header data a = Some b)\<^sup>*\<^sup>* 0 z \<and> zero_name_at data z)"
proof -
  have "returns (initramfs_new data) \<longleftrightarrow> returns (parse_entries data 0 2)"
    by (auto simp: initramfs_new_def returns_iff)
  then show ?thesis using parse_entries_panics_iff by blast
qed

text \<open>Where the parser places the files: the content starts at most three bytes after the archive's end.\<close>

lemma parse_entries_layout:
  "parse_entries data offset inode = Ret (Some es) \<Longrightarrow>
   list_all (\<lambda>e. ce_data_offset e \<le> length data + 3 \<and> unat (ce_size e) < 2 ^ 32) es"
proof (induction data offset inode arbitrary: es rule: parse_entries.induct)
  case (1 data offset inode)
  have size: "unat (ucast (w :: u32) :: u64) < 2 ^ 32" for w
  proof -
    have "unat w < 2 ^ 32" using unsigned_less [of w, where 'a = nat] by simp
    then show ?thesis unfolding unsigned_ucast_eq by (rule le_less_trans [OF take_bit_nat_less_eq_self])
  qed
  have start: "align4 n \<le> length data + 3" if "n \<le> length data" for n using that by (simp add: align4_def)
  show ?case using "1.prems" "1.IH" size start
    by (subst (asm) parse_entries.simps) (auto simp: Let_def not_less split: if_splits option.splits)
qed

text \<open>
  Claim C34.  Reading a file of a mounted archive panics in exactly two situations: in the profile
  with overflow checks, when the offset is so large that adding the position of the file overflows;
  and when the archive ends inside the file's content and the read starts before the announced
  end of the file (without overflow checks the start wraps around).  A truncated archive is
  accepted when it is mounted.
\<close>

theorem initramfs_read_panics_iff:
  assumes "initramfs_new data = Ret (Some fs)" and "length data < 2 ^ 62"
    and "List.find (\<lambda>e. ce_inode_num e = inode_num i) (ir_entries fs) = Some e"
  shows "\<not> returns (initramfs_read prof fs i offset buf) \<longleftrightarrow>
    prof = Dev \<and> 2 ^ 64 \<le> ce_data_offset e + unat offset \<or>
    length data < ce_data_offset e + unat (ce_size e) \<and>
      (ce_data_offset e + unat offset) mod 2 ^ 64 < ce_data_offset e + unat (ce_size e)"
proof -
  obtain es where es: "parse_entries data 0 2 = Ret (Some es)" "fs = \<lparr>ir_data = data, ir_entries = es\<rparr>"
    using assms(1) by (auto simp: initramfs_new_def)
  have "e \<in> set es" using assms(3) es(2) by (auto dest: find_Some_in)
  then have e: "ce_data_offset e \<le> length data + 3" "unat (ce_size e) < 2 ^ 32"
    using parse_entries_layout [OF es(1)] by (auto simp: list_all_iff)
  have d: "unat (of_nat (ce_data_offset e) :: u64) = ce_data_offset e"
    using e(1) assms(2) by (simp add: unat_of_nat)
  have "ce_data_offset e + unat (ce_size e) < 2 ^ 64" using e assms(2) by simp
  note total = this
  then have stop: "arith_add prof (of_nat (ce_data_offset e)) (ce_size e) = Ret (of_nat (ce_data_offset e) + ce_size e)"
    "unat (of_nat (ce_data_offset e) + ce_size e :: u64) = ce_data_offset e + unat (ce_size e)"
    using d by (auto simp: unat_word_ariths(1) intro: arith_add_ok)
  have start: "unat (of_nat (ce_data_offset e) + offset) = (ce_data_offset e + unat offset) mod 2 ^ 64"
    using d by (simp add: unat_word_ariths(1))
  show ?thesis
    using assms(3) total unfolding es(2)
    by (auto simp: initramfs_read_def stop arith_add_def d word_le_nat_alt start slice_def Let_def)
qed

text \<open>An archive that ends after one of the three bytes of its file.\<close>

theorem initramfs_read_panics_iff_witness:
  "\<exists>fs e. initramfs_new (cpio_name init_file @ [1]) = Ret (Some fs) \<and> ir_entries fs = [e] \<and>
    \<not> returns (initramfs_read Release fs (inode_new (ce_inode_num e) RegularFile) 0 [0]) \<and>
    returns (initramfs_read Release fs (inode_new (ce_inode_num e) RegularFile) 3 [0])"
proof -
  let ?data = "cpio_name init_file @ [1]" and ?e = "entry_of 0 2 init_file"
  let ?fs = "\<lparr>ir_data = ?data, ir_entries = [?e]\<rparr>" and ?i = "inode_new (ce_inode_num ?e) RegularFile"
  have "parse_entries ?data (length (cpio_member init_file)) n = Ret (Some [])" for n
    by (subst parse_entries.simps) (simp add: cpio_member_def HEADER_SIZE_def init_file_def align4_def)
  then have "parse_entries ?data 0 2 = Ret (Some [?e])"
    using parse_name [of init_file "[]" "[1]" 2] init_file_ok by (simp add: cpio_file_ok_def)
  then have new: "initramfs_new ?data = Ret (Some ?fs)" by (simp add: initramfs_new_def)
  have len: "length ?data < 2 ^ 62" "length ?data = ce_data_offset ?e + 1" "unat (ce_size ?e) = 3" "ce_data_offset ?e < 1000"
    by (simp_all add: cpio_name_def HEADER_SIZE_def align4_def init_file_def entry_of_def)
  have "List.find (\<lambda>e. ce_inode_num e = inode_num ?i) (ir_entries ?fs) = Some ?e" by (simp add: inode_new_def)
  note r = initramfs_read_panics_iff [OF new len(1) this, of Release _ "[0]"]
  have "\<not> returns (initramfs_read Release ?fs ?i 0 [0])" "returns (initramfs_read Release ?fs ?i 3 [0])"
    using r [of 0] r [of 3] len(2-) by simp_all
  with new show ?thesis by (intro exI [of _ ?fs] exI [of _ ?e]) simp
qed

text \<open>
  Listing a directory of the RAM disk shows files that are not in it.  Entries
  are selected by string prefix: in an archive with the directory \<open>bin\<close> and the file
  \<open>binary\<close> beside it, listing \<open>bin\<close> returns an entry named \<open>ary\<close>, and no such path exists.
\<close>

lemma initramfs_readdir_lists_sibling:
  "\<exists>fs i. initramfs_new (cpio_archive [\<lparr>cf_path = ''bin'', cf_mode = 0x41ED, cf_content = []\<rparr>,
       \<lparr>cf_path = ''binary'', cf_mode = 0x81ED, cf_content = [1]\<rparr>]) = Ret (Some fs) \<and>
     initramfs_lookup fs ''/bin'' = Inr i \<and> inode_kind_of i = Directory \<and>
     initramfs_readdir fs i = Inr [\<lparr>de_name = ''ary'', de_inode_num = 3, de_kind = RegularFile\<rparr>] \<and>
     initramfs_lookup fs ''/bin/ary'' = Inl NotFound"
proof -
  let ?bin = "\<lparr>cf_path = ''bin'', cf_mode = 0x41ED, cf_content = []\<rparr>"
  let ?binary = "\<lparr>cf_path = ''binary'', cf_mode = 0x81ED, cf_content = [1]\<rparr>"
  let ?fs = "\<lparr>ir_data = cpio_archive [?bin, ?binary], ir_entries = layout 0 2 [?bin, ?binary]\<rparr>"
  have "list_all cpio_file_ok [?bin, ?binary]"
    by (auto intro!: ascii_file_ok simp: ascii_def bytes_def byte_of_def)
  from parse_archive [OF this, of "[]" "[]" 2] have "initramfs_new (cpio_archive [?bin, ?binary]) = Ret (Some ?fs)"
    by (simp add: initramfs_new_def)
  moreover have "initramfs_lookup ?fs ''/bin/ary'' = Inl NotFound"
    by (simp add: initramfs_lookup_def initramfs_find_def entry_of_def trim_slashes_def)
  ultimately show ?thesis
    by (intro exI conjI) (assumption | simp add: initramfs_lookup_def initramfs_find_def initramfs_readdir_def
        initramfs_dir_entry_def entry_of_def trim_slashes_def inode_new_def Let_def map_filter_simps)+
qed

end
