(* ===== verification/Net.thy ===== *)
theory Net
  imports Prelude
begin

text \<open>
  The network stack's packet formats (\<open>kernel/src/net\<close>): parsing and serialising Ethernet
  frames and UDP datagrams, parsing IPv4 packets and TCP segments, the IPv4 header
  checksum, and the stub sockets.  The interface \<open>wire_format\<close> is what a user of a
  parser and serialiser pair relies on.
\<close>

section \<open>Ethernet\<close>

datatype mac_address = MacAddress u8 u8 u8 u8 u8 u8

definition MAC_BROADCAST :: mac_address where
  "MAC_BROADCAST = MacAddress 0xFF 0xFF 0xFF 0xFF 0xFF 0xFF"

definition MAC_ZERO :: mac_address where
  "MAC_ZERO = MacAddress 0 0 0 0 0 0"

fun mac_bytes :: "mac_address \<Rightarrow> u8 list" where
  "mac_bytes (MacAddress a b c d e f) = [a, b, c, d, e, f]"

text \<open>\<open>MacAddress(data[i..i + 6].try_into().ok()?)\<close> for a slice in range.\<close>

definition mac_at :: "nat \<Rightarrow> u8 list \<Rightarrow> mac_address" where
  "mac_at i data =
     MacAddress (data ! i) (data ! (i + 1)) (data ! (i + 2)) (data ! (i + 3)) (data ! (i + 4)) (data ! (i + 5))"

definition ETHERTYPE_IPV4 :: u16 where "ETHERTYPE_IPV4 = 0x0800"
definition ETHERTYPE_ARP :: u16 where "ETHERTYPE_ARP = 0x0806"
definition ETHERTYPE_IPV6 :: u16 where "ETHERTYPE_IPV6 = 0x86DD"

record ethernet_frame =
  eth_dst :: mac_address
  eth_src :: mac_address
  ethertype :: u16
  eth_payload :: "u8 list"

definition ethernet_parse :: "u8 list \<Rightarrow> ethernet_frame option" where
  "ethernet_parse data =
     (if length data < 14 then None
      else Some \<lparr>eth_dst = mac_at 0 data, eth_src = mac_at 6 data,
                 ethertype = u16_from_be_bytes (data ! 12) (data ! 13), eth_payload = drop 14 data\<rparr>)"

definition ethernet_serialize :: "ethernet_frame \<Rightarrow> u8 list" where
  "ethernet_serialize frame =
     mac_bytes (eth_dst frame) @ mac_bytes (eth_src frame) @ u16_to_be_bytes (ethertype frame) @ eth_payload frame"

section \<open>IPv4\<close>

datatype ipv4_addr = Ipv4Addr u8 u8 u8 u8

definition ipv4_at :: "nat \<Rightarrow> u8 list \<Rightarrow> ipv4_addr" where
  "ipv4_at i data = Ipv4Addr (data ! i) (data ! (i + 1)) (data ! (i + 2)) (data ! (i + 3))"

definition LOOPBACK :: ipv4_addr where
  "LOOPBACK = Ipv4Addr 127 0 0 1"

definition BROADCAST :: ipv4_addr where
  "BROADCAST = Ipv4Addr 255 255 255 255"

definition ANY :: ipv4_addr where
  "ANY = Ipv4Addr 0 0 0 0"

definition PROTO_ICMP :: u8 where "PROTO_ICMP = 1"
definition PROTO_TCP :: u8 where "PROTO_TCP = 6"
definition PROTO_UDP :: u8 where "PROTO_UDP = 17"

record ip_packet =
  ip_src :: ipv4_addr
  ip_dst :: ipv4_addr
  protocol :: u8
  ttl :: u8
  ip_payload :: "u8 list"

definition ip_parse :: "u8 list \<Rightarrow> ip_packet option outcome" where
  "ip_parse data =
     (if length data < 20 then Ret None
      else let version_ihl = data ! 0
           in if drop_bit 4 version_ihl \<noteq> 4 then Ret None
              else let ihl = unat ((version_ihl AND 0x0F) * 4)
                   in obind (slice_from ihl data) (\<lambda>payload.
                     Ret (Some \<lparr>ip_src = ipv4_at 12 data, ip_dst = ipv4_at 16 data, protocol = data ! 9,
                                ttl = data ! 8, ip_payload = payload\<rparr>)))"

text \<open>The loop over \<open>header.chunks(2)\<close>, the folding loop, and the checksum.\<close>

fun checksum_sum :: "profile \<Rightarrow> u32 \<Rightarrow> u8 list \<Rightarrow> u32 outcome" where
  "checksum_sum prof acc [] = Ret acc"
| "checksum_sum prof acc [a] = arith_add prof acc (push_bit 8 (ucast a))"
| "checksum_sum prof acc (a # b # rest) =
     obind (arith_add prof acc (ucast (u16_from_be_bytes a b))) (\<lambda>acc. checksum_sum prof acc rest)"

function checksum_fold :: "u32 \<Rightarrow> u32" where
  "checksum_fold acc =
     (if drop_bit 16 acc \<noteq> 0 then checksum_fold ((acc AND 0xFFFF) + drop_bit 16 acc) else acc)"
  by pat_completeness auto

lemma fold_step:
  fixes s :: u32
  shows "unat ((s AND 0xFFFF) + drop_bit 16 s) = unat s mod 65536 + unat s div 65536"
proof -
  have "s AND mask 16 = s mod 2 ^ 16" by (simp only: take_bit_eq_mask [symmetric] take_bit_eq_mod)
  moreover have "mask 16 = (0xFFFF :: u32)" by (simp add: mask_eq_exp_minus_1)
  ultimately have "s AND 0xFFFF = s mod 0x10000" by simp
  then have l: "unat (s AND 0xFFFF) = unat s mod 65536" by (simp add: unat_mod_distrib)
  have h: "unat (drop_bit 16 s) = unat s div 65536"
    by (simp add: drop_bit_eq_div unat_div_distrib)
  have "unat s < 2 ^ LENGTH(32)" by (rule unsigned_less)
  then have "unat s div 65536 < 65536" by (simp add: less_mult_imp_div_less)
  moreover have "unat s mod 65536 < 65536" by simp
  ultimately have "unat s mod 65536 + unat s div 65536 < 131072" by linarith
  with l h show ?thesis by (simp add: unat_word_ariths(1))
qed

lemma fold_high_zero: "drop_bit 16 (s :: u32) = 0 \<longleftrightarrow> unat s < 65536"
proof -
  have "unat (drop_bit 16 s) = unat s div 65536"
    by (simp add: drop_bit_eq_div unat_div_distrib)
  then have "drop_bit 16 s = 0 \<longleftrightarrow> unat s div 65536 = 0" by (metis unat_eq_zero)
  then show ?thesis by (simp add: div_eq_0_iff)
qed

lemma fold_decreases:
  assumes "65536 \<le> n"
  shows "n mod 65536 + n div 65536 < (n :: nat)"
proof -
  have "0 < n div 65536" using assms by (simp add: div_greater_zero_iff)
  moreover have "n = n div 65536 * 65536 + n mod 65536" by simp
  ultimately show ?thesis by linarith
qed

termination checksum_fold
  by (relation "measure unat") (auto simp: fold_step fold_high_zero not_less fold_decreases)

declare checksum_fold.simps [simp del]

definition checksum :: "profile \<Rightarrow> u8 list \<Rightarrow> u16 outcome" where
  "checksum prof header =
     obind (checksum_sum prof 0 header) (\<lambda>acc. Ret (NOT (ucast (checksum_fold acc))))"

section \<open>TCP\<close>

text \<open>
  \<open>TcpFlags\<close> is a set of flags kept as its bits; the conversion \<open>from_bits_truncate\<close> that the
  bitflags crate generates is an argument of the parser.
\<close>

definition tcp_flag_bits :: "(string \<times> u8) list" where
  "tcp_flag_bits = [(''FIN'', 0x01), (''SYN'', 0x02), (''RST'', 0x04), (''PSH'', 0x08),
     (''ACK'', 0x10), (''URG'', 0x20), (''ECE'', 0x40), (''CWR'', 0x80)]"

record tcp_segment =
  tcp_src_port :: u16
  tcp_dst_port :: u16
  seq_num :: u32
  ack_num :: u32
  tcp_flags :: u8
  window :: u16
  tcp_payload :: "u8 list"

definition tcp_parse :: "(u8 \<Rightarrow> u8) \<Rightarrow> u8 list \<Rightarrow> tcp_segment option outcome" where
  "tcp_parse from_bits_truncate data =
     (if length data < 20 then Ret None
      else let data_offset = unat (drop_bit 4 (data ! 12) * 4)
           in obind (slice_from data_offset data) (\<lambda>payload.
             Ret (Some \<lparr>tcp_src_port = u16_from_be_bytes (data ! 0) (data ! 1),
                        tcp_dst_port = u16_from_be_bytes (data ! 2) (data ! 3),
                        seq_num = u32_from_be_bytes (data ! 4) (data ! 5) (data ! 6) (data ! 7),
                        ack_num = u32_from_be_bytes (data ! 8) (data ! 9) (data ! 10) (data ! 11),
                        tcp_flags = from_bits_truncate (data ! 13),
                        window = u16_from_be_bytes (data ! 14) (data ! 15), tcp_payload = payload\<rparr>)))"

datatype tcp_state = Closed | Listen | SynSent | SynReceived | Established | FinWait1 | FinWait2
  | CloseWait | Closing | LastAck | TimeWait

record tcp_socket =
  tcp_state_of :: tcp_state
  tcp_local_port :: u16
  tcp_remote_port :: u16

definition tcp_socket_new :: "u16 \<Rightarrow> tcp_socket" where
  "tcp_socket_new local_port = \<lparr>tcp_state_of = Closed, tcp_local_port = local_port, tcp_remote_port = 0\<rparr>"

definition tcp_connect :: "u16 \<Rightarrow> tcp_socket \<Rightarrow> (string + unit) \<times> tcp_socket" where
  "tcp_connect remote_port s = (Inl ''TCP connect not yet implemented'', s)"

definition tcp_send :: "u8 list \<Rightarrow> tcp_socket \<Rightarrow> string + nat" where
  "tcp_send data s = Inl ''TCP send not yet implemented''"

definition tcp_recv :: "u8 list \<Rightarrow> tcp_socket \<Rightarrow> string + nat" where
  "tcp_recv buf s = Inl ''TCP recv not yet implemented''"

section \<open>UDP\<close>

record udp_datagram =
  udp_src_port :: u16
  udp_dst_port :: u16
  udp_payload :: "u8 list"

definition udp_parse :: "u8 list \<Rightarrow> udp_datagram option" where
  "udp_parse data =
     (if length data < 8 then None
      else let len = unat (u16_from_be_bytes (data ! 4) (data ! 5))
           in if len < 8 \<or> length data < len then None
              else Some \<lparr>udp_src_port = u16_from_be_bytes (data ! 0) (data ! 1),
                         udp_dst_port = u16_from_be_bytes (data ! 2) (data ! 3),
                         udp_payload = take (len - 8) (drop 8 data)\<rparr>)"

definition udp_serialize :: "udp_datagram \<Rightarrow> u8 list" where
  "udp_serialize d =
     (let len = of_nat (8 + length (udp_payload d)) :: u16
      in u16_to_be_bytes (udp_src_port d) @ u16_to_be_bytes (udp_dst_port d) @ u16_to_be_bytes len @
         u16_to_be_bytes 0 @ udp_payload d)"

record udp_socket =
  udp_local_port :: u16

definition udp_bind :: "u16 \<Rightarrow> udp_socket" where
  "udp_bind port = \<lparr>udp_local_port = port\<rparr>"

definition udp_send_to :: "u8 list \<Rightarrow> u16 \<Rightarrow> udp_socket \<Rightarrow> string + nat" where
  "udp_send_to data dst_port s = Inl ''UDP send_to not yet implemented''"

definition udp_recv_from :: "u8 list \<Rightarrow> udp_socket \<Rightarrow> string + nat \<times> u16" where
  "udp_recv_from buf s = Inl ''UDP recv_from not yet implemented''"

section \<open>Wire formats\<close>

text \<open>
  A serialiser and a parser that inverts it on the values that fit.  An exact format is one
  whose parser accepts nothing but serialised values.
\<close>

locale wire_format =
  fixes parse :: "u8 list \<Rightarrow> 'a option"
    and serialize :: "'a \<Rightarrow> u8 list"
    and fits :: "'a \<Rightarrow> bool"
  assumes parse_serialize: "fits x \<Longrightarrow> parse (serialize x) = Some x"
begin

lemma serialize_inject: "fits x \<Longrightarrow> fits y \<Longrightarrow> serialize x = serialize y \<Longrightarrow> x = y"
  by (metis option.inject parse_serialize)

end

locale exact_wire_format = wire_format +
  assumes serialize_parse: "parse data = Some x \<Longrightarrow> fits x \<and> serialize x = data"
begin

lemma parse_iff: "parse data = Some x \<longleftrightarrow> fits x \<and> serialize x = data"
  using parse_serialize serialize_parse by auto

end

lemma ethernet_parse_serialize: "ethernet_parse (ethernet_serialize f) = Some f"
  by (cases "eth_dst f"; cases "eth_src f")
    (simp add: ethernet_parse_def ethernet_serialize_def mac_at_def u16_to_be_bytes_def u16_be_bytes_inverse)

lemma ethernet_serialize_parse:
  assumes "ethernet_parse data = Some f"
  shows "ethernet_serialize f = data"
proof -
  have "14 \<le> length data" using assms by (auto simp: ethernet_parse_def split: if_splits)
  then obtain a0 a1 a2 a3 a4 a5 a6 a7 a8 a9 a10 a11 a12 a13 rest where
    "data = [a0, a1, a2, a3, a4, a5, a6, a7, a8, a9, a10, a11, a12, a13] @ rest"
    by (auto simp: eval_nat_numeral Suc_le_length_iff)
  with assms show ?thesis
    by (auto simp: ethernet_parse_def ethernet_serialize_def mac_at_def u16_to_from_be_bytes)
qed

interpretation ethernet: exact_wire_format ethernet_parse ethernet_serialize "\<lambda>_. True"
  by unfold_locales (auto intro: ethernet_parse_serialize ethernet_serialize_parse)

lemma udp_parse_serialize:
  "udp_parse (udp_serialize d) =
     (let len = (8 + length (udp_payload d)) mod 65536
      in if len < 8 then None else Some (d\<lparr>udp_payload := take (len - 8) (udp_payload d)\<rparr>))"
proof -
  define len where "len = (of_nat (8 + length (udp_payload d)) :: u16)"
  have n: "unat len = (8 + length (udp_payload d)) mod 65536"
    unfolding len_def by (simp only: unat_of_nat) simp
  have le: "unat len \<le> 8 + length (udp_payload d)" unfolding n by (rule mod_less_eq_dividend)
  have s: "udp_serialize d = [ucast (drop_bit 8 (udp_src_port d)), ucast (udp_src_port d),
      ucast (drop_bit 8 (udp_dst_port d)), ucast (udp_dst_port d), ucast (drop_bit 8 len), ucast len, 0, 0] @
      udp_payload d"
    unfolding udp_serialize_def Let_def u16_to_be_bytes_def len_def by simp
  show ?thesis
    unfolding s n [symmetric] using le by (cases d) (auto simp: udp_parse_def u16_be_bytes_inverse Let_def)
qed

interpretation udp: wire_format udp_parse udp_serialize "\<lambda>d. length (udp_payload d) \<le> 65527"
  by unfold_locales (simp add: udp_parse_serialize Let_def)

section \<open>The checksum as one's complement arithmetic\<close>

text \<open>The sum of the big-endian 16-bit words of some bytes, a last odd byte being the high byte of a word.\<close>

fun wsum :: "u8 list \<Rightarrow> nat" where
  "wsum [] = 0"
| "wsum [a] = 256 * unat a"
| "wsum (a # b # rest) = 256 * unat a + unat b + wsum rest"

lemma wsum_append: "even (length xs) \<Longrightarrow> wsum (xs @ ys) = wsum xs + wsum ys"
  by (induction xs rule: wsum.induct) auto

lemma wsum_bound: "wsum xs \<le> 32768 * (length xs + 1)"
proof (induction xs rule: wsum.induct)
  case (2 a)
  show ?case using unat_u8_less [of a] by simp
next
  case (3 a b rest)
  then show ?case using unat_u8_less [of a] unat_u8_less [of b] by simp
qed simp

lemma unat_u16_from_be_bytes: "unat (u16_from_be_bytes a b) = 256 * unat a + unat b"
proof -
  have "u16_from_be_bytes a b = push_bit 8 (ucast a) + ucast b"
    unfolding u16_from_be_bytes_def
    by (rule disjunctive_add [symmetric]) (auto simp: bit_simps dest: bit_imp_le_length)
  also have "push_bit 8 (ucast a :: u16) = of_nat (256 * unat a)"
    by (simp add: push_bit_eq_mult)
  finally have "u16_from_be_bytes a b = of_nat (256 * unat a + unat b)" by simp
  then show ?thesis using unat_u8_less [of a] unat_u8_less [of b]
    by (simp only: unat_of_nat) simp
qed

lemma unat_high_byte: "unat (push_bit 8 (ucast (a :: u8)) :: u32) = 256 * unat a"
proof -
  have "push_bit 8 (ucast a :: u32) = of_nat (256 * unat a)" by (simp add: push_bit_eq_mult)
  then show ?thesis using unat_u8_less [of a] by (simp only: unat_of_nat) simp
qed

lemma unat_ucast_u16: "unat (ucast (w :: u16) :: u32) = unat w"
proof -
  have "unat w < 2 ^ LENGTH(16)" by (rule unsigned_less)
  then show ?thesis by (simp add: unsigned_ucast_eq take_bit_nat_eq_self)
qed

lemma add_ok_u32:
  assumes "unat a + unat b < 4294967296"
  shows "\<exists>c. arith_add prof a (b :: u32) = Ret c \<and> unat c = unat a + unat b"
  using assms by (simp add: arith_add_ok unat_word_ariths(1))

lemma checksum_sum_total:
  assumes "unat acc + wsum xs < 4294967296"
  shows "\<exists>c. checksum_sum prof acc xs = Ret c \<and> unat c = unat acc + wsum xs"
  using assms
proof (induction prof acc xs rule: checksum_sum.induct)
  case (2 prof acc a)
  then show ?case using add_ok_u32 [of acc "push_bit 8 (ucast a)" prof] by (simp add: unat_high_byte)
next
  case (3 prof acc a b rest)
  obtain c where c: "arith_add prof acc (ucast (u16_from_be_bytes a b)) = Ret c"
    "unat c = unat acc + (256 * unat a + unat b)"
    using "3.prems" add_ok_u32 [of acc "ucast (u16_from_be_bytes a b)" prof]
    by (auto simp: unat_ucast_u16 unat_u16_from_be_bytes)
  then show ?case using "3.IH" [of c] "3.prems" by (simp add: add.assoc)
qed simp

lemma unat_not: "unat (NOT w) = 65535 - unat (w :: u16)"
proof -
  have "NOT w = - 1 - w" by (simp add: not_eq_complement)
  moreover have "unat (- 1 - w) = unat (- 1 :: u16) - unat w" by (rule unat_sub) simp
  moreover have "unat (- 1 :: u16) = 65535" by (simp add: unsigned_minus_1_eq_mask mask_eq_exp_minus_1)
  ultimately show ?thesis by simp
qed

lemma mod_65535_fold: "(n mod 65536 + n div 65536) mod 65535 = n mod (65535 :: nat)"
proof -
  have "n = 65535 * (n div 65536) + (n mod 65536 + n div 65536)"
    using mult_div_mod_eq [of 65536 n] by linarith
  then show ?thesis by (metis mod_mult_self4)
qed

lemma checksum_fold_spec:
  "unat (checksum_fold s) < 65536 \<and> unat (checksum_fold s) mod 65535 = unat s mod 65535 \<and>
   (unat (checksum_fold s) = 0 \<longleftrightarrow> unat s = 0)"
proof (induction s rule: checksum_fold.induct)
  case (1 s)
  show ?case
  proof (cases "drop_bit 16 s = 0")
    case True
    then show ?thesis using fold_high_zero [of s] by (simp add: checksum_fold.simps [of s])
  next
    case False
    then have "unat s mod 65536 + unat s div 65536 \<noteq> 0" using fold_high_zero [of s] by (simp add: div_eq_0_iff)
    moreover have "unat s \<noteq> 0" using False by (auto simp: unat_eq_zero)
    ultimately show ?thesis
      using 1 [OF False] False by (simp add: checksum_fold.simps [of s] fold_step mod_65535_fold)
  qed
qed

text \<open>The reduction of a sum to 16 bits in one's complement arithmetic: zero stays, every other sum
  becomes its representative between 1 and 65535.\<close>

definition ones_reduce :: "nat \<Rightarrow> nat" where
  "ones_reduce n = (if n = 0 then 0 else (n - 1) mod 65535 + 1)"

lemma ones_reduce_unique:
  assumes "r < 65536" "r mod 65535 = n mod 65535" "r = 0 \<longleftrightarrow> n = 0"
  shows "r = ones_reduce n"
proof (cases n)
  case (Suc m)
  then obtain k where r: "r = Suc k" using assms(3) by (cases r) auto
  have "k mod 65535 = m mod 65535"
    using assms(2) Suc r by (auto simp: mod_Suc split: if_splits)
  moreover have "k < 65535" using assms(1) r by simp
  ultimately show ?thesis by (simp add: ones_reduce_def Suc r)
qed (use assms in \<open>simp add: ones_reduce_def\<close>)

lemma checksum_closed_form:
  assumes "length header \<le> 131070"
  shows "\<exists>c. checksum prof header = Ret c \<and> unat c = 65535 - ones_reduce (wsum header)"
proof -
  have "unat (0 :: u32) + wsum header < 4294967296" using wsum_bound [of header] assms by simp
  then obtain a where a: "checksum_sum prof 0 header = Ret a" "unat a = wsum header"
    using checksum_sum_total [of 0 header prof] by auto
  have r: "unat (checksum_fold a) = ones_reduce (wsum header)"
    using checksum_fold_spec [of a] a(2) by (auto intro!: ones_reduce_unique)
  have lt: "unat (checksum_fold a) < 65536" using checksum_fold_spec [of a] by simp
  have "unat (NOT (ucast (checksum_fold a)) :: u16) = 65535 - unat (ucast (checksum_fold a) :: u16)"
    by (rule unat_not)
  also have "unat (ucast (checksum_fold a) :: u16) = unat (checksum_fold a)"
    using lt by (simp add: unsigned_ucast_eq take_bit_nat_eq_self)
  finally show ?thesis using a r by (simp add: checksum_def)
qed

lemma wsum_u16: "wsum (u16_to_be_bytes c) = unat c"
  using unat_u16_from_be_bytes [of "ucast (drop_bit 8 c)" "ucast c"]
  by (simp add: u16_to_be_bytes_def u16_be_bytes_inverse)

lemma ones_reduce_complement:
  "ones_reduce (n + (65535 - ones_reduce n)) = 65535"
proof -
  have "(n + (65535 - ones_reduce n)) mod 65535 = 0 \<and> n + (65535 - ones_reduce n) \<noteq> 0"
  proof (cases n)
    case (Suc m)
    have "n + (65535 - ones_reduce n) = 65535 * (m div 65535) + 65535"
    proof -
      have "m = 65535 * (m div 65535) + m mod 65535" by simp
      moreover have "m mod 65535 < 65535" by simp
      moreover have "ones_reduce n = m mod 65535 + 1" by (simp add: ones_reduce_def Suc)
      ultimately show ?thesis using Suc by linarith
    qed
    then show ?thesis by simp
  qed (simp add: ones_reduce_def)
  then show ?thesis using ones_reduce_unique [of 65535 "n + (65535 - ones_reduce n)"] by simp
qed

lemma unat_times_4: "unat w < 16 \<Longrightarrow> unat (w * 4 :: u8) = 4 * unat w"
  by (simp add: unat_word_ariths(2))

lemma nibble_less: "unat (w AND 0x0F :: u8) < 16" "unat (drop_bit 4 (w :: u8)) < 16"
proof -
  show "unat (w AND 0x0F) < 16"
    using word_and_le1 [of w "0x0F"] by (simp add: word_le_nat_alt)
  show "unat (drop_bit 4 w) < 16"
    using unat_u8_less [of w] by (simp add: drop_bit_eq_div unat_div_distrib less_mult_imp_div_less)
qed

section \<open>Properties\<close>

text \<open>
  Claim C38.  Parsing and serialising Ethernet frames are inverse to each other: parsing
  some bytes gives a frame exactly when those bytes are that frame's serialisation.
\<close>

theorem ethernet_parse_iff_serialize: "ethernet_parse data = Some f \<longleftrightarrow> ethernet_serialize f = data"
  using ethernet.parse_iff by simp

text \<open>
  Claim C39.  A UDP datagram survives serialising and parsing exactly when its payload has
  at most 65527 bytes.  Beyond that the 16-bit length field wraps around silently and the
  parser gets another datagram or none.
\<close>

theorem udp_roundtrip_iff:
  "udp_parse (udp_serialize d) = Some d \<longleftrightarrow> length (udp_payload d) \<le> 65527"
proof
  assume "length (udp_payload d) \<le> 65527"
  then show "udp_parse (udp_serialize d) = Some d" by (rule udp.parse_serialize)
next
  assume r: "udp_parse (udp_serialize d) = Some d"
  define len where "len = (8 + length (udp_payload d)) mod 65536"
  have "udp_payload d = take (len - 8) (udp_payload d)"
    using r unfolding udp_parse_serialize len_def [symmetric]
    by (cases d) (auto simp: Let_def split: if_splits)
  then have "length (udp_payload d) \<le> len - 8" by (metis length_take min.cobounded2)
  moreover have "len < 65536" by (simp add: len_def)
  ultimately show "length (udp_payload d) \<le> 65527" by simp
qed


definition sample_header :: "u8 list" where
  "sample_header = [0x45, 0, 0, 0x73, 0, 0, 0x40, 0, 0x40, 0x11]"

lemma sample_checksum:
  "checksum Dev (sample_header @ [0, 0] @ [0xC0, 0xA8, 0, 1, 0xC0, 0xA8, 0, 0xC7]) = Ret 0xB861"
  by (simp add: sample_header_def checksum_def checksum_fold.simps u16_from_be_bytes_def arith_add_def)


text \<open>
  Claim C40.  Exactly which packets crash the parsers: an IPv4 packet of at least 20 bytes whose
  header length field points past its end, and a TCP segment of at least 20 bytes whose data
  offset points past its end.  Nothing else makes either parser panic.
\<close>

theorem header_length_panics:
  "(\<not> returns (ip_parse data) \<longleftrightarrow>
     20 \<le> length data \<and> drop_bit 4 (data ! 0) = 4 \<and> length data < 4 * unat (data ! 0 AND 0x0F)) \<and>
   (\<not> returns (tcp_parse from_bits_truncate data) \<longleftrightarrow>
     20 \<le> length data \<and> length data < 4 * unat (drop_bit 4 (data ! 12)))"
  by (auto simp: ip_parse_def tcp_parse_def Let_def slice_from_def unat_times_4 nibble_less)

end
