(* ===== verification/Framebuffer.thy ===== *)
theory Framebuffer
  imports Prelude
begin

text \<open>
  The framebuffer driver (\<open>kernel/src/drivers/framebuffer.rs\<close>): pixels, filled rectangles and
  clearing over the bootloader's frame buffer, whose description and bytes are data here.
  Every arithmetic operation and every index of the source can panic as it can there.
\<close>

section \<open>State\<close>

text \<open>The pixel formats the driver distinguishes; it draws nothing for any other.\<close>

datatype pixel_format = Rgb | Bgr | U8_format | Other_format

record frame_buffer_info =
  fb_width :: usize
  fb_height :: usize
  fb_stride :: usize
  bytes_per_pixel :: usize
  fb_format :: pixel_format

record framebuffer_driver =
  fb_buffer :: "u8 list"
  fb_info :: frame_buffer_info

type_synonym fb_state = "framebuffer_driver option"

definition framebuffer_new :: "frame_buffer_info \<Rightarrow> u8 list \<Rightarrow> framebuffer_driver" where
  "framebuffer_new info buf = \<lparr>fb_buffer = buf, fb_info = info\<rparr>"

section \<open>Drawing\<close>

definition set_at :: "usize \<Rightarrow> u8 \<Rightarrow> u8 list \<Rightarrow> u8 list outcome" where
  "set_at i v buf = (if unat i < length buf then Ret (buf[unat i := v]) else Panic Index_Out_Of_Range)"

definition set_past :: "profile \<Rightarrow> usize \<Rightarrow> usize \<Rightarrow> u8 \<Rightarrow> u8 list \<Rightarrow> u8 list outcome" where
  "set_past prof base i v buf = obind (arith_add prof base i) (\<lambda>k. set_at k v buf)"

definition store_pixel :: "profile \<Rightarrow> pixel_format \<Rightarrow> usize \<Rightarrow> u8 \<Rightarrow> u8 \<Rightarrow> u8 \<Rightarrow> u8 list \<Rightarrow> u8 list outcome" where
  "store_pixel prof format base r g b buf =
     (case format of
        Rgb \<Rightarrow> obind (set_at base r buf) (\<lambda>buf. obind (set_past prof base 1 g buf) (set_past prof base 2 b))
      | Bgr \<Rightarrow> obind (set_at base b buf) (\<lambda>buf. obind (set_past prof base 1 g buf) (set_past prof base 2 r))
      | U8_format \<Rightarrow> set_at base (ucast ((ucast r + ucast g + ucast b :: u16) div 3)) buf
      | Other_format \<Rightarrow> Ret buf)"

definition put_pixel ::
    "profile \<Rightarrow> usize \<Rightarrow> usize \<Rightarrow> u8 \<Rightarrow> u8 \<Rightarrow> u8 \<Rightarrow> framebuffer_driver \<Rightarrow> framebuffer_driver outcome" where
  "put_pixel prof x y r g b drv =
     obind (arith_mul prof y (fb_stride (fb_info drv))) (\<lambda>line.
     obind (arith_add prof line x) (\<lambda>offset.
       let bpp = bytes_per_pixel (fb_info drv)
       in obind (arith_mul prof offset bpp) (\<lambda>base.
          obind (arith_add prof base bpp) (\<lambda>past.
            if length (fb_buffer drv) < unat past then Ret drv
            else obind (store_pixel prof (fb_format (fb_info drv)) base r g b (fb_buffer drv)) (\<lambda>buf.
              Ret (drv\<lparr>fb_buffer := buf\<rparr>))))))"

text \<open>A \<open>for\<close> loop whose body may panic.\<close>

fun ofold :: "('i \<Rightarrow> 's \<Rightarrow> 's outcome) \<Rightarrow> 'i list \<Rightarrow> 's \<Rightarrow> 's outcome" where
  "ofold f [] s = Ret s"
| "ofold f (i # is) s = obind (f i s) (ofold f is)"

definition fill_row ::
    "profile \<Rightarrow> usize \<Rightarrow> usize \<Rightarrow> u8 \<Rightarrow> u8 \<Rightarrow> u8 \<Rightarrow> nat \<Rightarrow> framebuffer_driver \<Rightarrow> framebuffer_driver outcome" where
  "fill_row prof x w r g b y drv =
     obind (arith_add prof x w) (\<lambda>right.
       ofold (\<lambda>col. put_pixel prof (of_nat col) (of_nat y) r g b)
         [unat x..<min (unat right) (unat (fb_width (fb_info drv)))] drv)"

definition driver_fill_rect ::
    "profile \<Rightarrow> usize \<Rightarrow> usize \<Rightarrow> usize \<Rightarrow> usize \<Rightarrow> u8 \<Rightarrow> u8 \<Rightarrow> u8 \<Rightarrow> framebuffer_driver \<Rightarrow> framebuffer_driver outcome" where
  "driver_fill_rect prof x y w h r g b drv =
     obind (arith_add prof y h) (\<lambda>bottom.
       ofold (fill_row prof x w r g b) [unat y..<min (unat bottom) (unat (fb_height (fb_info drv)))] drv)"

definition driver_clear :: "framebuffer_driver \<Rightarrow> framebuffer_driver" where
  "driver_clear drv = drv\<lparr>fb_buffer := map (\<lambda>_. 0) (fb_buffer drv)\<rparr>"

section \<open>The global driver\<close>

definition fb_clear :: "fb_state \<Rightarrow> fb_state" where
  "fb_clear fb = (case fb of None \<Rightarrow> None | Some drv \<Rightarrow> Some (driver_clear drv))"

definition fb_init :: "frame_buffer_info \<Rightarrow> u8 list \<Rightarrow> fb_state \<Rightarrow> fb_state" where
  "fb_init info buf fb = fb_clear (Some (framebuffer_new info buf))"

definition fb_fill_rect ::
    "profile \<Rightarrow> usize \<Rightarrow> usize \<Rightarrow> usize \<Rightarrow> usize \<Rightarrow> u8 \<Rightarrow> u8 \<Rightarrow> u8 \<Rightarrow> fb_state \<Rightarrow> fb_state outcome" where
  "fb_fill_rect prof x y w h r g b fb =
     (case fb of
        None \<Rightarrow> Ret None
      | Some drv \<Rightarrow> obind (driver_fill_rect prof x y w h r g b drv) (\<lambda>drv. Ret (Some drv)))"

definition dimensions :: "fb_state \<Rightarrow> (usize \<times> usize) option" where
  "dimensions fb = map_option (\<lambda>d. (fb_width (fb_info d), fb_height (fb_info d))) fb"

section \<open>What a rectangle should look like\<close>

text \<open>The bytes of a colour in a format, and the frame buffers the driver is meant for.\<close>

definition colour_bytes :: "pixel_format \<Rightarrow> u8 \<Rightarrow> u8 \<Rightarrow> u8 \<Rightarrow> u8 list" where
  "colour_bytes format r g b =
     (case format of Rgb \<Rightarrow> [r, g, b] | Bgr \<Rightarrow> [b, g, r]
      | U8_format \<Rightarrow> [of_nat ((unat r + unat g + unat b) div 3)] | Other_format \<Rightarrow> [])"

definition framebuffer_ok :: "framebuffer_driver \<Rightarrow> bool" where
  "framebuffer_ok drv \<longleftrightarrow>
     (let i = fb_info drv
      in unat (fb_width i) \<le> unat (fb_stride i) \<and> 0 < unat (bytes_per_pixel i) \<and>
         length (colour_bytes (fb_format i) 0 0 0) \<le> unat (bytes_per_pixel i) \<and>
         unat (fb_height i) * unat (fb_stride i) * unat (bytes_per_pixel i) \<le> length (fb_buffer drv) \<and>
         length (fb_buffer drv) < 2 ^ 63)"

text \<open>
  The frame buffer with the pixels of a set in one colour: byte \<open>k\<close> belongs to channel
  \<open>k mod bpp\<close> of pixel \<open>k div bpp\<close>, which is at column \<open>k div bpp mod stride\<close>.
\<close>

definition painted :: "nat \<Rightarrow> nat \<Rightarrow> u8 list \<Rightarrow> (nat \<times> nat) set \<Rightarrow> u8 list \<Rightarrow> u8 list" where
  "painted stride bpp colour pixels buf =
     map (\<lambda>k. if k mod bpp < length colour \<and> (k div bpp mod stride, k div bpp div stride) \<in> pixels
              then colour ! (k mod bpp) else buf ! k) [0..<length buf]"

section \<open>Drawing a pixel\<close>

lemma length_painted [simp]: "length (painted stride bpp colour pixels buf) = length buf"
  by (simp add: painted_def)

lemma painted_empty [simp]: "painted stride bpp colour {} buf = buf"
  by (simp add: painted_def map_nth)

definition overlay :: "nat \<Rightarrow> 'a list \<Rightarrow> 'a list \<Rightarrow> 'a list" where
  "overlay base new xs = take base xs @ new @ drop (base + length new) xs"

lemma length_overlay: "base + length new \<le> length xs \<Longrightarrow> length (overlay base new xs) = length xs"
  by (simp add: overlay_def)

lemma nth_overlay:
  "base + length new \<le> length xs \<Longrightarrow> k < length xs \<Longrightarrow>
   overlay base new xs ! k = (if base \<le> k \<and> k < base + length new then new ! (k - base) else xs ! k)"
  by (auto simp: overlay_def nth_append min_def)

lemma overlay_update:
  "base + length new < length xs \<Longrightarrow> (overlay base new xs)[base + length new := v] = overlay base (new @ [v]) xs"
  by (rule nth_equalityI) (auto simp: length_overlay nth_overlay nth_list_update nth_append)

lemma overlay_1: "base < length xs \<Longrightarrow> xs[base := v] = overlay base [v] xs"
  using overlay_update [of base "[]" xs v] by (simp add: overlay_def)

lemma div_mod_block: "c < b \<Longrightarrow> (a * b + c) div b = a \<and> (a * b + c) mod b = (c :: nat)"
  by simp

lemma div_mod_unique: "k div b = q \<Longrightarrow> k mod b = r \<Longrightarrow> k = q * b + (r :: nat)"
  by (metis div_mult_mod_eq)

lemma pixel_of_byte:
  fixes k :: nat
  assumes "0 < bpp" "n \<le> bpp" "cx < stride"
  shows "(cy * stride + cx) * bpp \<le> k \<and> k < (cy * stride + cx) * bpp + n \<longleftrightarrow>
    k mod bpp < n \<and> k div bpp mod stride = cx \<and> k div bpp div stride = cy"
proof
  assume k: "(cy * stride + cx) * bpp \<le> k \<and> k < (cy * stride + cx) * bpp + n"
  define c where "c = k - (cy * stride + cx) * bpp"
  have c: "k = (cy * stride + cx) * bpp + c" "c < n" using k by (auto simp: c_def)
  have "k div bpp = cy * stride + cx" "k mod bpp = c"
    using div_mod_block [of c bpp "cy * stride + cx"] c assms(2) by auto
  then show "k mod bpp < n \<and> k div bpp mod stride = cx \<and> k div bpp div stride = cy"
    using div_mod_block [of cx stride cy] c(2) assms(3) by simp
next
  assume k: "k mod bpp < n \<and> k div bpp mod stride = cx \<and> k div bpp div stride = cy"
  then have "k div bpp = cy * stride + cx" by (intro div_mod_unique) auto
  then have "k = (cy * stride + cx) * bpp + k mod bpp" by (rule div_mod_unique) (rule refl)
  then show "(cy * stride + cx) * bpp \<le> k \<and> k < (cy * stride + cx) * bpp + n" using k by linarith
qed

lemma overlay_painted:
  assumes "0 < bpp" "length colour \<le> bpp" "cx < stride" "(cy * stride + cx) * bpp + length colour \<le> length buf"
  shows "overlay ((cy * stride + cx) * bpp) colour (painted stride bpp colour pixels buf) =
    painted stride bpp colour (insert (cx, cy) pixels) buf"
proof (rule nth_equalityI)
  show "length (overlay ((cy * stride + cx) * bpp) colour (painted stride bpp colour pixels buf)) =
    length (painted stride bpp colour (insert (cx, cy) pixels) buf)"
    using assms(4) by (simp add: length_overlay)
next
  fix k
  assume "k < length (overlay ((cy * stride + cx) * bpp) colour (painted stride bpp colour pixels buf))"
  then have k: "k < length buf" using assms(4) by (simp add: length_overlay)
  let ?in = "(cy * stride + cx) * bpp \<le> k \<and> k < (cy * stride + cx) * bpp + length colour"
  have i: "?in \<longleftrightarrow> k mod bpp < length colour \<and> k div bpp mod stride = cx \<and> k div bpp div stride = cy"
    by (rule pixel_of_byte [OF assms(1-3)])
  have "k - (cy * stride + cx) * bpp = k mod bpp" if ?in
  proof -
    have "k div bpp = cy * stride + cx" using that i by (intro div_mod_unique) blast+
    then show ?thesis using that by (metis minus_div_mult_eq_mod)
  qed
  then show "overlay ((cy * stride + cx) * bpp) colour (painted stride bpp colour pixels buf) ! k =
    painted stride bpp colour (insert (cx, cy) pixels) buf ! k"
    using k i assms(4) by (auto simp: nth_overlay painted_def)
qed

lemma grey: "ucast ((ucast r + ucast g + ucast b :: u16) div 3) = (of_nat ((unat r + unat g + unat b) div 3) :: u8)"
  for r g b :: u8
proof -
  have u: "unat (ucast w :: u16) = unat w" for w :: u8
    using unat_u8_less [of w] by (simp add: unsigned_ucast_eq take_bit_nat_eq_self)
  have "unat (ucast r + ucast g + ucast b :: u16) = unat r + unat g + unat b"
    using unat_u8_less [of r] unat_u8_less [of g] unat_u8_less [of b]
    by (simp add: unat_word_ariths(1) u)
  then have "unat ((ucast r + ucast g + ucast b :: u16) div 3) = (unat r + unat g + unat b) div 3"
    by (simp add: unat_div_distrib)
  then show ?thesis by (metis of_nat_unat)
qed

lemma set_past_ok:
  assumes "unat base + unat i < length buf" "length buf < 2 ^ 63"
  shows "set_past prof base i v buf = Ret (buf[unat base + unat i := v])"
proof -
  have "unat base + unat i < 2 ^ 64" using assms by simp
  then have "arith_add prof base i = Ret (base + i)" "unat (base + i) = unat base + unat i"
    by (simp_all add: arith_add_ok unat_word_ariths(1))
  then show ?thesis using assms(1) by (simp add: set_past_def set_at_def)
qed

lemma store_pixel_ok:
  assumes "unat base + length (colour_bytes format r g b) \<le> length buf" "length buf < 2 ^ 63"
  shows "store_pixel prof format base r g b buf = Ret (overlay (unat base) (colour_bytes format r g b) buf)"
proof -
  have three: "obind (set_at base p buf) (\<lambda>buf. obind (set_past prof base 1 q buf) (set_past prof base 2 s)) =
    Ret (overlay (unat base) [p, q, s] buf)" if "unat base + 3 \<le> length buf" for p q s
    using that assms(2) overlay_1 [of "unat base" buf p] overlay_update [of "unat base" "[p]" buf q]
      overlay_update [of "unat base" "[p, q]" buf s]
    by (simp add: set_at_def set_past_ok length_overlay)
  show ?thesis
    using assms three
    by (cases format) (auto simp: store_pixel_def colour_bytes_def set_at_def grey overlay_1 overlay_def)
qed

lemma put_pixel_ok:
  assumes "framebuffer_ok drv" "cx < unat (fb_width (fb_info drv))" "cy < unat (fb_height (fb_info drv))"
  shows "put_pixel prof (of_nat cx) (of_nat cy) r g b drv =
    Ret (drv\<lparr>fb_buffer := overlay ((cy * unat (fb_stride (fb_info drv)) + cx) * unat (bytes_per_pixel (fb_info drv)))
      (colour_bytes (fb_format (fb_info drv)) r g b) (fb_buffer drv)\<rparr>)"
proof -
  define s bpp h where "s = unat (fb_stride (fb_info drv))" and "bpp = unat (bytes_per_pixel (fb_info drv))"
    and "h = unat (fb_height (fb_info drv))"
  have l: "length (colour_bytes (fb_format (fb_info drv)) r g b) \<le> bpp"
    using assms(1) unfolding framebuffer_ok_def Let_def bpp_def
    by (cases "fb_format (fb_info drv)") (auto simp: colour_bytes_def)
  have ok: "cx < s" "0 < bpp" "h * s * bpp \<le> length (fb_buffer drv)" "length (fb_buffer drv) < 2 ^ 63"
    using assms unfolding framebuffer_ok_def Let_def s_def bpp_def h_def by auto
  have "cy * s + cx + 1 \<le> Suc cy * s" using ok(1) by simp
  also have "\<dots> \<le> h * s" using assms(3) unfolding h_def [symmetric] by (intro mult_right_mono) simp_all
  finally have "(cy * s + cx + 1) * bpp \<le> h * s * bpp" by (intro mult_right_mono) simp_all
  then have fits: "(cy * s + cx) * bpp + bpp \<le> length (fb_buffer drv)" using ok(3) by (simp add: algebra_simps)
  have off: "cy * s + cx \<le> (cy * s + cx) * bpp" using ok(2) by simp
  have m: "length (fb_buffer drv) < 2 ^ 64" using ok(4) by (rule less_trans) simp
  have small: "cy * s < 2 ^ 64" "cy * s + cx < 2 ^ 64" "(cy * s + cx) * bpp < 2 ^ 64" "(cy * s + cx) * bpp + bpp < 2 ^ 64"
    using fits off m by linarith+
  have "unat (fb_width (fb_info drv)) < 2 ^ LENGTH(64)" "unat (fb_height (fb_info drv)) < 2 ^ LENGTH(64)"
    by (rule unsigned_less)+
  then have "cy < 2 ^ 64" "cx < 2 ^ 64" using assms(2,3) by simp_all
  then have c: "unat (of_nat cy :: u64) = cy" "unat (of_nat cx :: u64) = cx" by (simp_all only: unat_of_nat_u64)
  obtain line where line: "arith_mul prof (of_nat cy) (fb_stride (fb_info drv)) = Ret line" "unat line = cy * s"
    using arith_mul_ex [of "of_nat cy" "fb_stride (fb_info drv)" prof] small(1) c(1) by (auto simp: s_def)
  obtain o1 where o1: "arith_add prof line (of_nat cx) = Ret o1" "unat o1 = cy * s + cx"
    using arith_add_ex [of line "of_nat cx" prof] small(2) c(2) line(2) by auto
  obtain base where base: "arith_mul prof o1 (bytes_per_pixel (fb_info drv)) = Ret base" "unat base = (cy * s + cx) * bpp"
    using arith_mul_ex [of o1 "bytes_per_pixel (fb_info drv)" prof] small(3) o1(2) by (auto simp: bpp_def)
  obtain past where past: "arith_add prof base (bytes_per_pixel (fb_info drv)) = Ret past" "unat past = (cy * s + cx) * bpp + bpp"
    using arith_add_ex [of base "bytes_per_pixel (fb_info drv)" prof] small(4) base(2) by (auto simp: bpp_def)
  have "store_pixel prof (fb_format (fb_info drv)) base r g b (fb_buffer drv) =
    Ret (overlay ((cy * s + cx) * bpp) (colour_bytes (fb_format (fb_info drv)) r g b) (fb_buffer drv))"
    using store_pixel_ok [of base "fb_format (fb_info drv)" r g b "fb_buffer drv" prof] fits l ok(4) base by simp
  then show ?thesis
    using fits by (simp add: put_pixel_def line o1 base past Let_def s_def bpp_def)
qed

section \<open>Drawing a rectangle\<close>

text \<open>
  The driver while some pixels are painted: its description is that of the start, and its
  bytes are those of the start with these pixels in the colour.
\<close>

definition painting :: "framebuffer_driver \<Rightarrow> u8 \<Rightarrow> u8 \<Rightarrow> u8 \<Rightarrow> (nat \<times> nat) set \<Rightarrow> framebuffer_driver" where
  "painting drv r g b pixels =
     drv\<lparr>fb_buffer := painted (unat (fb_stride (fb_info drv))) (unat (bytes_per_pixel (fb_info drv)))
       (colour_bytes (fb_format (fb_info drv)) r g b) pixels (fb_buffer drv)\<rparr>"

lemma painting_info [simp]: "fb_info (painting drv r g b pixels) = fb_info drv"
  by (simp add: painting_def)

lemma painting_ok [simp]: "framebuffer_ok (painting drv r g b pixels) = framebuffer_ok drv"
  by (simp add: framebuffer_ok_def painting_def)

lemma length_colour_bytes: "length (colour_bytes f r g b) = length (colour_bytes f 0 0 0)"
  by (cases f) (simp_all add: colour_bytes_def)

lemma put_pixel_painting:
  assumes "framebuffer_ok drv" "cx < unat (fb_width (fb_info drv))" "cy < unat (fb_height (fb_info drv))"
  shows "put_pixel prof (of_nat cx) (of_nat cy) r g b (painting drv r g b pixels) =
    Ret (painting drv r g b (insert (cx, cy) pixels))"
proof -
  define s bpp where "s = unat (fb_stride (fb_info drv))" and "bpp = unat (bytes_per_pixel (fb_info drv))"
  let ?c = "colour_bytes (fb_format (fb_info drv)) r g b"
  have ok: "cx < s" "0 < bpp" "length ?c \<le> bpp" "unat (fb_height (fb_info drv)) * s * bpp \<le> length (fb_buffer drv)"
    using assms length_colour_bytes [of "fb_format (fb_info drv)" r g b]
    unfolding framebuffer_ok_def Let_def s_def bpp_def by auto
  have "cy * s + cx + 1 \<le> Suc cy * s" using ok(1) by simp
  also have "\<dots> \<le> unat (fb_height (fb_info drv)) * s" using assms(3) by (intro mult_right_mono) simp_all
  finally have "(cy * s + cx + 1) * bpp \<le> unat (fb_height (fb_info drv)) * s * bpp" by (intro mult_right_mono) simp_all
  then have "(cy * s + cx) * bpp + length ?c \<le> length (fb_buffer drv)" using ok by (simp add: algebra_simps)
  then have "overlay ((cy * s + cx) * bpp) ?c (painted s bpp ?c pixels (fb_buffer drv)) =
    painted s bpp ?c (insert (cx, cy) pixels) (fb_buffer drv)"
    using ok by (intro overlay_painted) simp_all
  moreover have "put_pixel prof (of_nat cx) (of_nat cy) r g b (painting drv r g b pixels) =
    Ret ((painting drv r g b pixels)\<lparr>fb_buffer := overlay ((cy * s + cx) * bpp) ?c (fb_buffer (painting drv r g b pixels))\<rparr>)"
    using put_pixel_ok [of "painting drv r g b pixels" cx cy prof r g b] assms by (simp add: s_def bpp_def)
  ultimately show ?thesis by (simp add: painting_def s_def bpp_def)
qed

lemma fill_row_painting:
  assumes "framebuffer_ok drv" "cy < unat (fb_height (fb_info drv))" "unat x + unat w < 2 ^ 64"
  shows "fill_row prof x w r g b cy (painting drv r g b pixels) =
    Ret (painting drv r g b (pixels \<union> {unat x..<min (unat x + unat w) (unat (fb_width (fb_info drv)))} \<times> {cy}))"
proof -
  have cols: "ofold (\<lambda>col. put_pixel prof (of_nat col) (of_nat cy) r g b) cols (painting drv r g b pixels) =
      Ret (painting drv r g b (pixels \<union> set cols \<times> {cy}))"
    if "\<forall>c \<in> set cols. c < unat (fb_width (fb_info drv))" for cols pixels
    using that
  proof (induction cols arbitrary: pixels)
    case (Cons c cols)
    have "insert (c, cy) pixels \<union> set cols \<times> {cy} = pixels \<union> set (c # cols) \<times> {cy}" by auto
    with Cons show ?case by (simp add: put_pixel_painting assms)
  qed simp
  obtain right where "arith_add prof x w = Ret right" "unat right = unat x + unat w"
    using arith_add_ex [of x w prof] assms(3) by auto
  then show ?thesis by (simp add: fill_row_def cols)
qed

lemma driver_fill_rect_painting:
  assumes "framebuffer_ok drv" "unat x + unat w < 2 ^ 64" "unat y + unat h < 2 ^ 64"
  shows "driver_fill_rect prof x y w h r g b drv =
    Ret (painting drv r g b ({unat x..<min (unat x + unat w) (unat (fb_width (fb_info drv)))} \<times>
      {unat y..<min (unat y + unat h) (unat (fb_height (fb_info drv)))}))"
proof -
  let ?X = "{unat x..<min (unat x + unat w) (unat (fb_width (fb_info drv)))}"
  have rows: "ofold (fill_row prof x w r g b) rows (painting drv r g b pixels) =
      Ret (painting drv r g b (pixels \<union> ?X \<times> set rows))"
    if "\<forall>c \<in> set rows. c < unat (fb_height (fb_info drv))" for rows pixels
    using that
  proof (induction rows arbitrary: pixels)
    case (Cons c rows)
    have "(pixels \<union> ?X \<times> {c}) \<union> ?X \<times> set rows = pixels \<union> ?X \<times> set (c # rows)" by auto
    with Cons show ?case by (simp add: fill_row_painting [OF assms(1) _ assms(2)])
  qed simp
  obtain bottom where "arith_add prof y h = Ret bottom" "unat bottom = unat y + unat h"
    using arith_add_ex [of y h prof] assms(3) by auto
  then show ?thesis
    using rows [of "[unat y..<min (unat y + unat h) (unat (fb_height (fb_info drv)))]" "{}"]
    by (simp add: driver_fill_rect_def painting_def)
qed

section \<open>Properties\<close>

text \<open>
  Claim C29.  Filling a rectangle paints exactly the rectangle: for a frame buffer whose lines
  fit its buffer and whose pixels have room for their colour, and a rectangle whose far corner
  can be represented, the driver does not panic in either build profile and afterwards every byte
  of the buffer that belongs to a colour channel of a visible pixel of the rectangle holds the
  colour, and every other byte is as before.
\<close>

theorem fill_rect_paints_rectangle:
  assumes "framebuffer_ok drv" "unat x + unat w < 2 ^ 64" "unat y + unat h < 2 ^ 64"
  shows "\<exists>drv'. fb_fill_rect prof x y w h r g b (Some drv) = Ret (Some drv') \<and> fb_info drv' = fb_info drv \<and>
    length (fb_buffer drv') = length (fb_buffer drv) \<and>
    (\<forall>k < length (fb_buffer drv).
      let bpp = unat (bytes_per_pixel (fb_info drv)); channel = k mod bpp;
          col = k div bpp mod unat (fb_stride (fb_info drv)); line = k div bpp div unat (fb_stride (fb_info drv));
          colour = colour_bytes (fb_format (fb_info drv)) r g b
      in fb_buffer drv' ! k =
        (if channel < length colour \<and> unat x \<le> col \<and> col < unat x + unat w \<and> col < unat (fb_width (fb_info drv)) \<and>
            unat y \<le> line \<and> line < unat y + unat h \<and> line < unat (fb_height (fb_info drv))
         then colour ! channel else fb_buffer drv ! k))"
  using driver_fill_rect_painting [OF assms, of prof r g b]
  by (simp add: fb_fill_rect_def painting_def painted_def Let_def)

definition fb_sample :: framebuffer_driver where
  "fb_sample = \<lparr>fb_buffer = replicate 12 0,
     fb_info = \<lparr>fb_width = 2, fb_height = 2, fb_stride = 2, bytes_per_pixel = 3, fb_format = Rgb\<rparr>\<rparr>"

theorem fill_rect_paints_rectangle_witness:
  "\<exists>drv'. fb_fill_rect Dev 1 0 5 1 10 20 30 (Some fb_sample) = Ret (Some drv') \<and>
     fb_buffer drv' ! 2 = 0 \<and> fb_buffer drv' ! 3 = 10 \<and> fb_buffer drv' ! 5 = 30 \<and> fb_buffer drv' ! 9 = 0"
proof -
  have "framebuffer_ok fb_sample" by (simp add: framebuffer_ok_def fb_sample_def colour_bytes_def)
  from fill_rect_paints_rectangle [OF this, of 1 5 0 1 Dev 10 20 30]
  obtain drv' where d: "fb_fill_rect Dev 1 0 5 1 10 20 30 (Some fb_sample) = Ret (Some drv')"
    "\<forall>k < length (fb_buffer fb_sample). fb_buffer drv' ! k =
      (if k mod 3 < length (colour_bytes Rgb 10 20 30) \<and> 1 \<le> k div 3 mod 2 \<and> k div 3 mod 2 < 6 \<and>
          k div 3 mod 2 < 2 \<and> 0 \<le> k div 3 div 2 \<and> k div 3 div 2 < 1 \<and> k div 3 div 2 < 2
       then colour_bytes Rgb 10 20 30 ! (k mod 3) else fb_buffer fb_sample ! k)"
    by (auto simp: fb_sample_def Let_def)
  have "fb_buffer drv' ! 2 = 0" "fb_buffer drv' ! 3 = 10" "fb_buffer drv' ! 5 = 30" "fb_buffer drv' ! 9 = 0"
    using d(2) by (simp_all add: fb_sample_def colour_bytes_def)
  with d(1) show ?thesis by blast
qed

text \<open>A format with three channels in pixels of one byte passes the bound check and then panics.\<close>

lemma put_pixel_small_pixel_panics:
  "put_pixel prof 0 0 r g b
     \<lparr>fb_buffer = [0], fb_info = \<lparr>fb_width = 1, fb_height = 1, fb_stride = 1, bytes_per_pixel = 1, fb_format = Rgb\<rparr>\<rparr> =
   Panic Index_Out_Of_Range"
  by (simp add: put_pixel_def arith_mul_def arith_add_def store_pixel_def set_at_def set_past_def Let_def)

end
