(* ===== verification/Locking.thy ===== *)
theory Locking
  imports Prelude
begin

text \<open>
  The lock discipline of the kernel.  The kernel runs on one processor; its statics are behind
  spin locks, and a hardware interrupt can arrive between any two actions while interrupts are
  enabled.  A spin lock that an interrupt handler needs must therefore be held only with
  interrupts disabled.  Each operation of the source is represented here by the locks it takes and
  releases and by its \<open>without_interrupts\<close> sections, in the order of the code; a processor with a
  stack of interrupted activities runs them.
\<close>

section \<open>Actions and scripts\<close>

datatype kernel_lock = L_PROCESS_TABLE | L_SERIAL1 | L_WRITER | L_KEYBOARD | L_KEY_BUFFER | L_PICS
  | L_FD_TABLE | L_PCI | L_FB

datatype lock_action = Acquire kernel_lock | Release kernel_lock | Cli_save | Sti_restore

definition without_interrupts :: "lock_action list \<Rightarrow> lock_action list" where
  "without_interrupts body = Cli_save # body @ [Sti_restore]"

definition locked :: "kernel_lock \<Rightarrow> lock_action list \<Rightarrow> lock_action list" where
  "locked l body = Acquire l # body @ [Release l]"

subsection \<open>Drivers\<close>

definition serial_print_locks :: "lock_action list" where
  "serial_print_locks = without_interrupts (locked L_SERIAL1 [])"

definition kprint_locks :: "lock_action list" where
  "kprint_locks = without_interrupts (locked L_WRITER [])"

definition try_read_char_locks :: "lock_action list" where
  "try_read_char_locks = without_interrupts (locked L_KEY_BUFFER [])"

text \<open>\<open>decoded\<close> tells whether a key was decoded, which is then echoed with the keyboard locked.\<close>

definition decode_scancode_locks :: "bool \<Rightarrow> lock_action list" where
  "decode_scancode_locks decoded = locked L_KEYBOARD (if decoded then serial_print_locks else [])"

definition poll_char_locks :: "bool \<Rightarrow> lock_action list" where
  "poll_char_locks decoded = without_interrupts (decode_scancode_locks decoded)"

definition handle_interrupt_locks :: "bool \<Rightarrow> bool \<Rightarrow> lock_action list" where
  "handle_interrupt_locks decoded pushed =
     decode_scancode_locks decoded @ (if pushed then locked L_KEY_BUFFER [] else [])"

definition config_access_locks :: "lock_action list" where
  "config_access_locks = locked L_PCI []"

definition framebuffer_locks :: "lock_action list" where
  "framebuffer_locks = locked L_FB []"

subsection \<open>Processes\<close>

definition kill_locks :: "lock_action list" where
  "kill_locks = without_interrupts (locked L_PROCESS_TABLE [])"

definition dispatch_signals_locks :: "lock_action list" where
  "dispatch_signals_locks = without_interrupts (locked L_PROCESS_TABLE [])"

text \<open>\<open>lost\<close> tells whether the current process is not in the table, which is reported on the serial port.\<close>

definition schedule_locks :: "bool \<Rightarrow> lock_action list" where
  "schedule_locks lost = locked L_PROCESS_TABLE (if lost then serial_print_locks else [])"

definition tick_locks :: "bool \<Rightarrow> bool \<Rightarrow> lock_action list" where
  "tick_locks slice_over lost = dispatch_signals_locks @ (if slice_over then schedule_locks lost else [])"

definition fork_locks :: "lock_action list" where
  "fork_locks = without_interrupts (locked L_PROCESS_TABLE [])"

definition execve_locks :: "lock_action list" where
  "execve_locks = without_interrupts (locked L_PROCESS_TABLE [])"

definition exit_locks :: "bool \<Rightarrow> lock_action list" where
  "exit_locks lost =
     without_interrupts (locked L_PROCESS_TABLE []) @ serial_print_locks @ schedule_locks lost"

definition current_is_zombie_locks :: "lock_action list" where
  "current_is_zombie_locks = without_interrupts (locked L_PROCESS_TABLE [])"

text \<open>One attempt of \<open>waitpid\<close>.\<close>

definition waitpid_locks :: "lock_action list" where
  "waitpid_locks = without_interrupts (locked L_PROCESS_TABLE [])"

subsection \<open>System calls and shell\<close>

text \<open>Reading from and writing \<open>n\<close> bytes to an open file; the serial device prints byte by byte.\<close>

definition sys_read_file_locks :: "lock_action list" where
  "sys_read_file_locks = locked L_FD_TABLE []"

definition sys_write_file_locks :: "nat \<Rightarrow> lock_action list" where
  "sys_write_file_locks n = locked L_FD_TABLE (concat (replicate n serial_print_locks))"

definition sys_write_console_locks :: "lock_action list" where
  "sys_write_console_locks = serial_print_locks @ kprint_locks"

definition sys_open_locks :: "lock_action list" where
  "sys_open_locks = locked L_FD_TABLE []"

definition sys_close_locks :: "lock_action list" where
  "sys_close_locks = locked L_FD_TABLE []"

definition sys_getppid_locks :: "lock_action list" where
  "sys_getppid_locks = locked L_PROCESS_TABLE []"

text \<open>\<open>ps\<close> with \<open>n\<close> processes: the header and a line for each, printed with the table locked.\<close>

definition cmd_ps_locks :: "nat \<Rightarrow> lock_action list" where
  "cmd_ps_locks n = locked L_PROCESS_TABLE (concat (replicate (Suc n) kprint_locks))"

definition cmd_clear_locks :: "lock_action list" where
  "cmd_clear_locks = without_interrupts (locked L_WRITER [])"

subsection \<open>Interrupt handlers\<close>

definition end_of_interrupt_locks :: "lock_action list" where
  "end_of_interrupt_locks = locked L_PICS []"

definition timer_interrupt_locks :: "bool \<Rightarrow> bool \<Rightarrow> lock_action list" where
  "timer_interrupt_locks slice_over lost = tick_locks slice_over lost @ end_of_interrupt_locks"

definition keyboard_interrupt_locks :: "bool \<Rightarrow> bool \<Rightarrow> lock_action list" where
  "keyboard_interrupt_locks decoded pushed = handle_interrupt_locks decoded pushed @ end_of_interrupt_locks"

text \<open>What each of the handlers may do; the other fourteen only acknowledge.\<close>

definition irq_scripts :: "lock_action list list" where
  "irq_scripts =
     [timer_interrupt_locks False False, timer_interrupt_locks True False, timer_interrupt_locks True True,
      keyboard_interrupt_locks False False, keyboard_interrupt_locks True False, keyboard_interrupt_locks True True,
      end_of_interrupt_locks]"

text \<open>The operations that run with interrupts enabled.\<close>

definition operations :: "nat \<Rightarrow> (string \<times> lock_action list) list" where
  "operations n =
     [(''serial_print'', serial_print_locks), (''kprint'', kprint_locks), (''try_read_char'', try_read_char_locks),
      (''poll_char'', poll_char_locks True), (''config_read32'', config_access_locks), (''fill_rect'', framebuffer_locks),
      (''kill'', kill_locks), (''fork'', fork_locks), (''execve'', execve_locks), (''exit'', exit_locks False),
      (''current_is_zombie'', current_is_zombie_locks), (''waitpid'', waitpid_locks),
      (''sys_read'', sys_read_file_locks), (''sys_write (file)'', sys_write_file_locks n),
      (''sys_write (console)'', sys_write_console_locks), (''sys_open'', sys_open_locks), (''sys_close'', sys_close_locks),
      (''sys_getppid'', sys_getppid_locks), (''cmd_ps'', cmd_ps_locks n), (''cmd_clear'', cmd_clear_locks)]"

section \<open>The processor\<close>

text \<open>
  One action, on the stack of saved interrupt flags of the activity, the locks held and the interrupt
  flag; a lock that is held cannot be acquired.
\<close>

fun lock_step :: "lock_action \<Rightarrow> bool list \<Rightarrow> kernel_lock list \<Rightarrow> bool \<Rightarrow> (bool list \<times> kernel_lock list \<times> bool) option" where
  "lock_step (Acquire l) flags held i = (if l \<in> set held then None else Some (flags, l # held, i))"
| "lock_step (Release l) flags held i = Some (flags, removeAll l held, i)"
| "lock_step Cli_save flags held i = Some (i # flags, held, False)"
| "lock_step Sti_restore [] held i = Some ([], held, i)"
| "lock_step Sti_restore (f # flags) held i = Some (flags, held, f)"

text \<open>
  A processor: the activities, the running one first, each with its remaining actions, its saved
  flags and the interrupt flag to restore when it returns; the locks held; the interrupt flag.
\<close>

type_synonym activity = "lock_action list \<times> bool list \<times> bool"
type_synonym cpu = "activity list \<times> kernel_lock list \<times> bool"

inductive cpu_step :: "cpu \<Rightarrow> cpu \<Rightarrow> bool" where
  act: "lock_step a flags held i = Some (flags', held', i') \<Longrightarrow>
    cpu_step ((a # as, flags, r) # acts, held, i) ((as, flags', r) # acts, held', i')"
| irq: "h \<in> set irq_scripts \<Longrightarrow> cpu_step (acts, held, True) ((h, [], True) # acts, held, False)"
| iret: "acts \<noteq> [] \<Longrightarrow> cpu_step (([], flags, r) # acts, held, i) (acts, held, r)"

inductive_cases cpu_stepE: "cpu_step (acts, held, i) st"

definition cpu_start :: "lock_action list \<Rightarrow> cpu \<Rightarrow> bool" where
  "cpu_start script st \<longleftrightarrow> st = ([(script, [], True)], [], True)"

text \<open>The running activity waits for a lock that is held, by itself or by an activity it interrupted.\<close>

fun deadlocked :: "cpu \<Rightarrow> bool" where
  "deadlocked ((Acquire l # as, flags, r) # acts, held, i) = (l \<in> set held)"
| "deadlocked st = False"

definition can_deadlock :: "lock_action list \<Rightarrow> bool" where
  "can_deadlock script \<longleftrightarrow> (\<exists>st. reachable (cpu_start script) cpu_step st \<and> deadlocked st)"

section \<open>The discipline\<close>

text \<open>The locks handlers take; a script keeps the discipline if it holds none of them with interrupts enabled.\<close>

definition irq_locks :: "kernel_lock list" where
  "irq_locks = [l. h \<leftarrow> irq_scripts, Acquire l \<leftarrow> h]"

fun disciplined :: "lock_action list \<Rightarrow> bool list \<Rightarrow> kernel_lock list \<Rightarrow> bool \<Rightarrow> bool" where
  "disciplined script flags held i =
     ((i \<longrightarrow> set held \<inter> set irq_locks = {}) \<and>
      (case script of
         [] \<Rightarrow> True
       | a # as \<Rightarrow> (case lock_step a flags held i of
           None \<Rightarrow> False | Some (flags', held', i') \<Rightarrow> disciplined as flags' held' i')))"

declare disciplined.simps [simp del]

text \<open>A handler runs with interrupts disabled throughout and leaves nothing locked.\<close>

fun handler_disciplined :: "lock_action list \<Rightarrow> bool list \<Rightarrow> kernel_lock list \<Rightarrow> bool" where
  "handler_disciplined [] flags held = (flags = [] \<and> held = [])"
| "handler_disciplined (a # as) flags held =
     ((case a of Acquire l \<Rightarrow> l \<in> set irq_locks | Release l \<Rightarrow> l \<in> set held | _ \<Rightarrow> True) \<and>
      (case lock_step a flags held False of
         None \<Rightarrow> False | Some (flags', held', i') \<Rightarrow> \<not> i' \<and> handler_disciplined as flags' held'))"

definition irq_safe :: "lock_action list \<Rightarrow> bool" where
  "irq_safe script = disciplined script [] [] True"

lemmas lock_scripts = without_interrupts_def locked_def serial_print_locks_def kprint_locks_def try_read_char_locks_def
  decode_scancode_locks_def poll_char_locks_def handle_interrupt_locks_def config_access_locks_def framebuffer_locks_def
  kill_locks_def dispatch_signals_locks_def schedule_locks_def tick_locks_def fork_locks_def execve_locks_def exit_locks_def
  current_is_zombie_locks_def waitpid_locks_def sys_read_file_locks_def sys_write_file_locks_def
  sys_write_console_locks_def sys_open_locks_def sys_close_locks_def sys_getppid_locks_def cmd_ps_locks_def
  cmd_clear_locks_def end_of_interrupt_locks_def timer_interrupt_locks_def keyboard_interrupt_locks_def irq_scripts_def

lemma set_irq_locks: "set irq_locks = {L_PROCESS_TABLE, L_SERIAL1, L_KEYBOARD, L_KEY_BUFFER, L_PICS}"
  by (auto simp: irq_locks_def lock_scripts)

lemma irq_scripts_disciplined: "h \<in> set irq_scripts \<Longrightarrow> handler_disciplined h [] []"
  by (auto simp: lock_scripts set_irq_locks)

lemma irq_locks_script:
  assumes "l \<in> set irq_locks"
  obtains h where "h \<in> set irq_scripts" "Acquire l \<in> set h"
proof -
  have "\<exists>h \<in> set irq_scripts. \<exists>a \<in> set h. a = Acquire l"
    using assms unfolding irq_locks_def by (auto split: lock_action.splits)
  then show ?thesis using that by blast
qed

subsection \<open>Disciplined operations do not deadlock\<close>

text \<open>
  Either the operation runs, or one handler runs on top of it with interrupts disabled and the
  locks the operation holds are none that handlers take.
\<close>

fun cpu_inv :: "cpu \<Rightarrow> bool" where
  "cpu_inv ([(as, flags, r)], held, i) = disciplined as flags held i"
| "cpu_inv ([(h, hflags, hr), (as, flags, r)], held, i) =
     (\<not> i \<and> hr \<and> (\<exists>hheld mheld. held = hheld @ mheld \<and> handler_disciplined h hflags hheld \<and>
        set hheld \<subseteq> set irq_locks \<and> disciplined as flags mheld True))"
| "cpu_inv st = False"

lemma disciplined_free: "disciplined as flags held True \<Longrightarrow> set held \<inter> set irq_locks = {}"
  by (simp add: disciplined.simps [of as])

lemma disciplined_step:
  "disciplined (a # as) flags held i \<Longrightarrow> lock_step a flags held i = Some (flags', held', i') \<Longrightarrow> disciplined as flags' held' i'"
  by (subst (asm) disciplined.simps) simp

lemma disciplined_acquire: "disciplined (Acquire l # as) flags held i \<Longrightarrow> l \<notin> set held"
  by (subst (asm) disciplined.simps) (simp split: if_splits)

lemma handler_step:
  assumes "handler_disciplined (a # as) flags hheld" "set hheld \<subseteq> set irq_locks" "set mheld \<inter> set irq_locks = {}"
  obtains flags' hheld' where "lock_step a flags (hheld @ mheld) False = Some (flags', hheld' @ mheld, False)"
    "handler_disciplined as flags' hheld'" "set hheld' \<subseteq> set irq_locks"
proof (cases a)
  case (Acquire l)
  then have "l \<notin> set mheld" using assms by auto
  with Acquire show ?thesis using assms that [of flags "l # hheld"] by (auto split: if_splits)
next
  case (Release l)
  then have "l \<notin> set mheld" using assms by auto
  then have "removeAll l (hheld @ mheld) = removeAll l hheld @ mheld" by simp
  with Release show ?thesis using assms that [of flags "removeAll l hheld"] by auto
next
  case Cli_save
  then show ?thesis using assms that [of "False # flags" hheld] by auto
next
  case Sti_restore
  then show ?thesis using assms that by (cases flags) auto
qed

lemma cpu_inv_handler:
  "handler_disciplined h hflags hheld \<Longrightarrow> set hheld \<subseteq> set irq_locks \<Longrightarrow> disciplined as flags mheld True \<Longrightarrow>
   cpu_inv ([(h, hflags, True), (as, flags, r)], hheld @ mheld, False)"
  by auto

lemma cpu_inv_irq:
  "disciplined as flags held True \<Longrightarrow> handler_disciplined h [] [] \<Longrightarrow> cpu_inv ([(h, [], True), (as, flags, r)], held, False)"
  using cpu_inv_handler [of h "[]" "[]" as flags held r] by simp

lemma cpu_inv_step: "cpu_inv st \<Longrightarrow> cpu_step st st' \<Longrightarrow> cpu_inv st'"
proof (induction st rule: cpu_inv.induct)
  case (1 as flags r held i)
  then show ?case using irq_scripts_disciplined
    by (auto elim!: cpu_stepE dest: disciplined_step simp del: cpu_inv.simps(2) intro: cpu_inv_irq)
next
  case (2 h hflags hr as flags r held i)
  then obtain hheld mheld where s: "\<not> i" hr "held = hheld @ mheld" "handler_disciplined h hflags hheld"
    "set hheld \<subseteq> set irq_locks" "disciplined as flags mheld True"
    by auto
  show ?case
  proof (cases h)
    case Nil
    with "2.prems" s show ?thesis by (auto elim!: cpu_stepE)
  next
    case (Cons a as')
    obtain flags2 hheld2 where "lock_step a hflags (hheld @ mheld) False = Some (flags2, hheld2 @ mheld, False)"
      "handler_disciplined as' flags2 hheld2" "set hheld2 \<subseteq> set irq_locks"
      using handler_step [of a as' hflags hheld mheld] s disciplined_free [OF s(6)] Cons by auto
    then show ?thesis using "2.prems"(2) s Cons cpu_inv_handler by (auto elim!: cpu_stepE simp del: cpu_inv.simps)
  qed
qed simp_all

lemma cpu_inv_not_deadlocked: "cpu_inv st \<Longrightarrow> \<not> deadlocked st"
proof (induction st rule: cpu_inv.induct)
  case (1 as flags r held i)
  then show ?case
    by (cases as; cases "hd as") (auto dest: disciplined_acquire)
next
  case (2 h hflags hr as flags r held i)
  then obtain hheld mheld where s: "held = hheld @ mheld" "handler_disciplined h hflags hheld"
    "disciplined as flags mheld True"
    by auto
  then show ?case using disciplined_free [OF s(3)]
    by (cases h; cases "hd h") (auto split: if_splits)
qed simp_all

interpretation cpu: invariant_system "\<lambda>st. irq_safe script \<and> cpu_start script st" cpu_step cpu_inv for script
  by unfold_locales (auto simp: irq_safe_def cpu_start_def intro: cpu_inv_step)

subsection \<open>Undisciplined operations can deadlock\<close>

lemma handler_deadlocks:
  assumes "reachable S cpu_step ((h, hflags, r) # acts, hheld @ mheld, False)" "handler_disciplined h hflags hheld"
    and "set hheld \<inter> set mheld = {}" "l \<in> set mheld" "Acquire l \<in> set h"
  shows "\<exists>st. reachable S cpu_step st \<and> deadlocked st"
  using assms
proof (induction h arbitrary: hflags hheld)
  case (Cons a h)
  show ?case
  proof (cases "\<exists>l. a = Acquire l \<and> l \<in> set mheld")
    case True
    then have "deadlocked ((a # h, hflags, r) # acts, hheld @ mheld, False)" by auto
    with Cons.prems(1) show ?thesis by blast
  next
    case False
    obtain flags' hheld' where n: "lock_step a hflags (hheld @ mheld) False = Some (flags', hheld' @ mheld, False)"
      "handler_disciplined h flags' hheld'" "set hheld' \<inter> set mheld = {}"
    proof (cases a)
      case (Acquire l)
      then show ?thesis using Cons.prems(2,3) False that [of hflags "l # hheld"] by (auto split: if_splits)
    next
      case (Release l)
      then have "l \<notin> set mheld" using Cons.prems(2,3) by auto
      then have "removeAll l (hheld @ mheld) = removeAll l hheld @ mheld" by simp
      with Release show ?thesis using Cons.prems(2,3) that [of hflags "removeAll l hheld"] by auto
    next
      case Cli_save
      then show ?thesis using Cons.prems(2,3) that [of "False # hflags" hheld] by auto
    next
      case Sti_restore
      then show ?thesis using Cons.prems(2,3) that by (cases hflags) auto
    qed
    have "reachable S cpu_step ((h, flags', r) # acts, hheld' @ mheld, False)"
      by (rule reachable_step [OF Cons.prems(1)]) (rule cpu_step.act [OF n(1)])
    moreover have "Acquire l \<in> set h" using Cons.prems(4,5) False by auto
    ultimately show ?thesis using Cons.IH n(2,3) Cons.prems(4) by blast
  qed
qed simp

lemma handler_on_held_lock:
  assumes "reachable S cpu_step (acts, held, True)" "set held \<inter> set irq_locks \<noteq> {}"
  shows "\<exists>st. reachable S cpu_step st \<and> deadlocked st"
proof -
  obtain l where l: "l \<in> set held" "l \<in> set irq_locks" using assms(2) by auto
  obtain h where h: "h \<in> set irq_scripts" "Acquire l \<in> set h" by (rule irq_locks_script [OF l(2)])
  have "reachable S cpu_step ((h, [], True) # acts, [] @ held, False)"
    using reachable_step [OF assms(1) cpu_step.irq [OF h(1)]] by simp
  then show ?thesis
    using handler_deadlocks [of S h "[]" True acts "[]" held l] irq_scripts_disciplined [OF h(1)] l(1) h(2) by simp
qed

lemma undisciplined_deadlocks:
  assumes "reachable S cpu_step ([(script, flags, r)], held, i)" "\<not> disciplined script flags held i"
  shows "\<exists>st. reachable S cpu_step st \<and> deadlocked st"
  using assms
proof (induction script arbitrary: flags held i)
  case Nil
  then show ?case using handler_on_held_lock by (auto simp: disciplined.simps [of "[]"])
next
  case (Cons a script)
  show ?case
  proof (cases "i \<and> set held \<inter> set irq_locks \<noteq> {}")
    case True
    with Cons.prems(1) show ?thesis using handler_on_held_lock by auto
  next
    case False
    show ?thesis
    proof (cases "lock_step a flags held i")
      case None
      then have "deadlocked ([(a # script, flags, r)], held, i)"
        by (cases a; cases flags) (auto split: if_splits)
      with Cons.prems(1) show ?thesis by blast
    next
      case (Some nxt)
      obtain flags' held' i' where n: "lock_step a flags held i = Some (flags', held', i')"
        using Some by (cases nxt) auto
      have "\<not> disciplined script flags' held' i'" using Cons.prems(2) False n by (subst (asm) disciplined.simps) auto
      moreover have "reachable S cpu_step ([(script, flags', r)], held', i')"
        by (rule reachable_step [OF Cons.prems(1)]) (rule cpu_step.act [OF n])
      ultimately show ?thesis using Cons.IH by blast
    qed
  qed
qed

lemma can_deadlock_iff: "can_deadlock script \<longleftrightarrow> \<not> irq_safe script"
proof
  assume "can_deadlock script"
  then obtain st where st: "reachable (cpu_start script) cpu_step st" "deadlocked st" by (auto simp: can_deadlock_def)
  show "\<not> irq_safe script"
  proof
    assume "irq_safe script"
    then have "(\<lambda>st. irq_safe script \<and> cpu_start script st) = cpu_start script" by auto
    then have "cpu_inv st" using cpu.inv_reachable [of script st] st(1) by simp
    then show False using st(2) cpu_inv_not_deadlocked by blast
  qed
next
  assume "\<not> irq_safe script"
  moreover have "reachable (cpu_start script) cpu_step ([(script, [], True)], [], True)"
    by (rule reachable_start) (simp add: cpu_start_def)
  ultimately show "can_deadlock script" using undisciplined_deadlocks unfolding can_deadlock_def irq_safe_def by blast
qed

text \<open>A deadlock in a handler is final: nothing can happen any more.\<close>

lemma deadlocked_no_step: "deadlocked (acts, held, False) \<Longrightarrow> \<not> cpu_step (acts, held, False) st"
  by (induction "(acts, held, False)" rule: deadlocked.induct) (auto elim!: cpu_stepE)

subsection \<open>Deciding the discipline\<close>

lemma disciplined_Nil: "disciplined [] flags held i = (i \<longrightarrow> set held \<inter> set irq_locks = {})"
  by (simp add: disciplined.simps [of "[]"])

lemma disciplined_Cons:
  "disciplined (a # as) flags held i =
     ((i \<longrightarrow> set held \<inter> set irq_locks = {}) \<and>
      (case lock_step a flags held i of None \<Rightarrow> False | Some (flags', held', i') \<Rightarrow> disciplined as flags' held' i'))"
  by (simp add: disciplined.simps [of "a # as"])

lemma disciplined_free_flag: "disciplined as flags held i \<Longrightarrow> i \<Longrightarrow> set held \<inter> set irq_locks = {}"
  by (simp add: disciplined.simps [of as])

text \<open>A locked section without interrupts changes nothing for what follows it.\<close>

lemma disciplined_section:
  assumes "l \<notin> set held"
  shows "disciplined (without_interrupts (locked l []) @ as) flags held i = disciplined as flags held i"
  using assms disciplined_free_flag [of as flags held i]
  by (auto simp: without_interrupts_def locked_def disciplined_Cons)

lemma disciplined_sections:
  "l \<notin> set held \<Longrightarrow>
   disciplined (concat (replicate n (without_interrupts (locked l []))) @ as) flags held i = disciplined as flags held i"
  by (induction n) (simp_all add: disciplined_section)

lemma irq_safe_write_file: "irq_safe (sys_write_file_locks n)"
  by (simp add: irq_safe_def sys_write_file_locks_def serial_print_locks_def locked_def [of L_FD_TABLE]
      disciplined_Cons disciplined_Nil set_irq_locks disciplined_sections)

lemma irq_unsafe_ps: "\<not> irq_safe (cmd_ps_locks n)"
  by (cases n) (simp_all add: irq_safe_def cmd_ps_locks_def kprint_locks_def locked_def without_interrupts_def
      disciplined_Cons set_irq_locks)

section \<open>Properties\<close>

text \<open>
  Claim C11.  Which operations of the kernel can deadlock with an interrupt: of all operations
  that run with interrupts enabled exactly \<open>exit\<close>, the \<open>getppid\<close> system call and the shell's
  \<open>ps\<close> command (whatever the number of processes) have an interleaving with interrupt handlers in
  which the processor waits for a lock that is held by an activity it interrupted.  For every
  other operation no interleaving does.
\<close>

theorem operations_that_can_deadlock:
  "map fst (filter (\<lambda>(name, script). can_deadlock script) (operations n)) = [''exit'', ''sys_getppid'', ''cmd_ps'']"
  by (simp add: operations_def can_deadlock_iff irq_safe_write_file irq_unsafe_ps)
    (simp add: irq_safe_def lock_scripts disciplined_Cons disciplined_Nil set_irq_locks)

end
