(* ===== verification/Syscall_Safety.thy ===== *)
theory Syscall_Safety
  imports Syscall_Files
begin

text \<open>
  What a system call may do at all: the memory a read writes, the calls that can panic, and that a
  call that fails changes nothing.
\<close>

section \<open>What a system call may touch\<close>

lemma run_handler_frame:
  "run_handler prof K data h s = Ret s' \<Longrightarrow> k_mem s' = k_mem s \<and> FD_TABLE s' = FD_TABLE s"
  by (cases h) (auto simp: notify_end_of_interrupt_def)

lemma take_interrupts_frame:
  "take_interrupts prof K is s = Ret s' \<Longrightarrow> k_mem s' = k_mem s \<and> FD_TABLE s' = FD_TABLE s"
  by (induction prof K "is" s rule: take_interrupts.induct)
    (auto simp: take_interrupt_def dest!: run_handler_frame split: option.splits)

lemma stdin_first_frame:
  "stdin_first prof K env s = Ret (Some (c, env', s')) \<Longrightarrow> k_mem s' = k_mem s \<and> FD_TABLE s' = FD_TABLE s"
  by (induction prof K env s rule: stdin_first.induct)
    (fastforce dest!: take_interrupts_frame split: if_splits option.splits prod.splits)+

lemma stdin_rest_frame:
  "stdin_rest prof K n env s = Ret (Some (cs, s')) \<Longrightarrow>
     k_mem s' = k_mem s \<and> FD_TABLE s' = FD_TABLE s \<and> length cs \<le> n"
  by (induction prof K n env s arbitrary: cs rule: stdin_rest.induct)
    (fastforce dest!: take_interrupts_frame split: if_splits option.splits prod.splits)+

lemma sint_le_uint: "sint (w :: 'a::len word) \<le> uint w"
proof -
  have "signed_take_bit (LENGTH('a) - Suc 0) (uint w) \<le> uint w"
    unfolding signed_take_bit_int_less_eq_self_iff by (rule order_trans [OF _ uint_ge_0]) simp
  then show ?thesis by (simp add: sint_uint)
qed

lemma as_i64_le:
  fixes count :: usize
  assumes "n \<le> unat count"
  shows "as_i64 (of_nat n) \<le> uint count"
proof -
  have "unat count < 2 ^ LENGTH(64)" by (rule unsigned_less)
  with assms have "unat (of_nat n :: usize) = n" by (simp add: unat_of_nat)
  then have "uint (of_nat n :: usize) \<le> uint count" using assms by (simp only: uint_nat of_nat_le_iff)
  with sint_le_uint [of "of_nat n :: usize"] show ?thesis by (simp only: as_i64_def)
qed

lemma length_read_node:
  "fst (read_node node tcks offset (load_bytes m p n)) \<le> n"
  "length (snd (read_node node tcks offset (load_bytes m p n))) = n"
  by (cases node; simp add: read_static_eq Let_def copy_into_def)+

lemma read_stdin_cases:
  assumes "read_stdin prof K env buf n s = Ret (Returned r s')"
  obtains (interrupted) "r = errno_i64 Intr" "k_mem s' = k_mem s" "FD_TABLE s' = FD_TABLE s"
  | (line) ch cs s2 where "r = as_i64 (of_nat (length (ch # cs)))" "length cs \<le> n - 1"
      "s' = s2\<lparr>k_mem := store_bytes buf (ch # cs) (k_mem s)\<rparr>" "FD_TABLE s2 = FD_TABLE s"
proof -
  from assms obtain x where x: "stdin_first prof K env s = Ret x"
    by (auto simp: read_stdin_def)
  with assms obtain c env1 s1 where c: "x = Some (c, env1, s1)"
    by (cases x) (auto simp: read_stdin_def)
  show thesis
  proof (cases c)
    case None
    with assms x c stdin_first_frame [of prof K env s c env1 s1] show thesis
      by (auto simp: read_stdin_def intro: interrupted)
  next
    case (Some ch)
    with assms x c obtain y where y: "stdin_rest prof K (n - 1) env1 s1 = Ret y"
      by (auto simp: read_stdin_def)
    with assms x c Some obtain cs s2 where "y = Some (cs, s2)"
      by (cases y) (auto simp: read_stdin_def)
    with assms x c y Some stdin_first_frame [of prof K env s c env1 s1]
      stdin_rest_frame [of prof K "n - 1" env1 s1 cs s2] show thesis
      by (auto simp: read_stdin_def intro: line)
  qed
qed

text \<open>
  Claim C19.  A read never writes outside the caller's buffer and never reports more than
  it was asked for: on every descriptor, standard input included, and whatever interrupts
  arrive meanwhile, each address that is not one of the \<open>count\<close> bytes from \<open>buf\<close> keeps its
  value, and the result is at most \<open>count\<close>.
\<close>

theorem read_stays_in_buffer:
  assumes "sys_read prof K env fd buf count s = Ret (Returned r s')"
  shows "r \<le> uint count \<and> (unat count \<le> unat (a - buf) \<longrightarrow> k_mem s' a = k_mem s a)"
proof -
  have neg: "errno_i64 e \<le> uint count" for e
    by (rule order_trans [OF _ uint_ge_0]) (cases e; simp)
  show ?thesis
  proof (cases "count = 0 \<or> buf = 0 \<or> fd \<noteq> 0")
    case True
    then show ?thesis
      using assms neg [of Fault] neg [of BadF] as_i64_le [OF length_read_node(1)]
      by (auto simp: sys_read_def Let_def case_prod_beta store_bytes_outside length_read_node(2)
          split: if_splits option.splits)
  next
    case False
    then have pos: "0 < unat count" by (simp add: unat_gt_0)
    from False assms have "read_stdin prof K env buf (unat count) s = Ret (Returned r s')"
      by (simp add: sys_read_def)
    then show ?thesis
      by (cases rule: read_stdin_cases) (use pos neg [of Intr] in \<open>auto simp: store_bytes_outside intro!: as_i64_le simp del: of_nat_Suc\<close>)
  qed
qed

theorem read_stays_in_buffer_witness:
  "\<exists>r s'. sys_read Dev echo_decoder [] (fd_num 1) 0x2000 5 hostname_kernel = Ret (Returned r s') \<and>
     r \<le> 5 \<and> k_mem s' 0x2005 = k_mem hostname_kernel 0x2005"
proof -
  have "fd_lookup (FD_TABLE hostname_kernel) 1 = Some \<lparr>of_node = SysHostname, of_offset = 0\<rparr>"
    by (simp add: hostname_kernel_def fd_lookup_def)
  from read_text_step [OF this, of hostname_text "0x2000" 5 Dev echo_decoder "[]"] obtain r s' where
    r: "sys_read Dev echo_decoder [] (fd_num 1) 0x2000 5 hostname_kernel = Ret (Returned r s')" by auto
  with read_stays_in_buffer [OF r, of "0x2005"] show ?thesis by auto
qed

lemma ucast_scast_i32: "(ucast (scast fd :: usize) :: i32) = fd"
proof (rule bit_word_eqI)
  fix n assume "n < LENGTH(32)"
  then show "bit (ucast (scast fd :: usize) :: i32) n = bit fd n"
    by (cases "n = 31") (auto simp: bit_unsigned_iff bit_signed_iff min_def)
qed

lemma scast_less_3: "(scast (fd :: i32) :: usize) < 3 \<longleftrightarrow> fd \<in> {0, 1, 2}"
proof
  assume "(scast fd :: usize) < 3"
  then have "unat (scast fd :: usize) < 3" by (simp add: word_less_nat_alt)
  then have "unat (scast fd :: usize) = 0 \<or> unat (scast fd :: usize) = 1 \<or> unat (scast fd :: usize) = 2" by arith
  then have "(scast fd :: usize) \<in> {0, 1, 2}" by (auto simp: word_unat_eq_iff)
  with ucast_scast_i32 [of fd] show "fd \<in> {0, 1, 2}" by auto
qed auto

lemma returns_fd_index: "returns (fd_index prof fd) \<longleftrightarrow> \<not> (prof = Dev \<and> fd \<in> {0, 1, 2})"
  by (auto simp: fd_index_def arith_sub_def scast_less_3)

lemma returns_sys_read:
  "fd \<noteq> 0 \<Longrightarrow> returns (sys_read prof K env fd buf count s) \<longleftrightarrow>
     \<not> (prof = Dev \<and> buf \<noteq> 0 \<and> count \<noteq> 0 \<and> fd \<in> {1, 2})"
  using returns_fd_index [of prof fd]
  by (cases "fd_index prof fd") (auto simp: sys_read_def Let_def split: option.splits prod.splits)

lemma returns_sys_write:
  "returns (sys_write prof fd buf count s) \<longleftrightarrow> \<not> (prof = Dev \<and> buf \<noteq> 0 \<and> count \<noteq> 0 \<and> fd = 0)"
  using returns_fd_index [of prof fd]
  by (cases "fd_index prof fd") (auto simp: sys_write_def Let_def split: option.splits pseudo_node.splits)

lemma returns_sys_close: "returns (sys_close prof fd s)"
  using returns_fd_index [of prof fd]
  by (cases "fd_index prof fd") (auto simp: sys_close_def)

text \<open>The numbers that are declared but not dispatched: their calls do nothing and report that.\<close>

definition declared_only :: "u64 list" where
  "declared_only = [SYS_STAT, SYS_FSTAT, SYS_LSTAT, SYS_POLL, SYS_LSEEK, SYS_MMAP, SYS_MPROTECT, SYS_MUNMAP,
     SYS_RT_SIGACTION, SYS_RT_SIGPROCMASK, SYS_IOCTL, SYS_VFORK]"

lemma declared_only_not_implemented:
  assumes "num f \<in> set declared_only"
  shows "dispatch prof K env f s = Ret (Returned (-38) s)"
proof -
  have "num f \<notin> {SYS_READ, SYS_WRITE, SYS_OPEN, SYS_CLOSE, SYS_GETPID, SYS_FORK, SYS_EXECVE, SYS_EXIT, SYS_EXIT_GROUP,
      SYS_WAIT4, SYS_KILL, SYS_GETPPID, SYS_BRK}"
    using assms by (auto simp: declared_only_def declared_numbers syscall_numbers)
  then show ?thesis by (simp add: dispatch_def)
qed

lemma returns_returned [simp]: "returns (returned x)"
  by (cases x) simp

text \<open>
  Apart from the two calls that wait (reading standard input and wait4), a system call panics in
  exactly one situation: in the profile with overflow checks, a read of a non-empty buffer from
  descriptor 1 or 2, or a write of one to descriptor 0, where \<open>fd as usize - 3\<close> underflows.
\<close>

lemma nonwaiting_call_panics_iff:
  assumes "\<not> (num f = SYS_READ \<and> (ucast (rdi f) :: i32) = 0)" and "num f \<noteq> SYS_WAIT4"
  shows "returns (dispatch prof K env f s) \<longleftrightarrow>
    \<not> (prof = Dev \<and> rsi f \<noteq> 0 \<and> rdx f \<noteq> 0 \<and>
       (num f = SYS_READ \<and> (ucast (rdi f) :: i32) \<in> {1, 2} \<or> num f = SYS_WRITE \<and> (ucast (rdi f) :: i32) = 0))"
proof -
  obtain y where "sys_close prof (ucast (rdi f)) s = Ret y"
    using returns_sys_close [of prof "ucast (rdi f)" s] unfolding returns_iff by blast
  then show ?thesis
    using assms by (auto simp: dispatch_def Let_def returns_sys_read returns_sys_write syscall_numbers)
qed

lemma dispatch_error_aux:
  "sys_write prof fd buf count s = Ret (Returned r s') \<Longrightarrow> r < 0 \<Longrightarrow> uint count < 2 ^ 63 \<Longrightarrow> s' = s"
  "fd \<noteq> 0 \<Longrightarrow> sys_read prof K env fd buf count s = Ret (Returned r s') \<Longrightarrow> r < 0 \<Longrightarrow> uint count < 2 ^ 63 \<Longrightarrow> s' = s"
  "sys_close prof fd s = Ret (r, s') \<Longrightarrow> r < 0 \<Longrightarrow> s' = s"
  "returned (sys_open path flags mode s) = Ret (Returned r s') \<Longrightarrow> r < 0 \<Longrightarrow> s' = s"
  "returned (sys_fork s) = Ret (Returned r s') \<Longrightarrow> r < 0 \<Longrightarrow> s' = s"
  "returned (sys_execve path s) = Ret (Returned r s') \<Longrightarrow> r < 0 \<Longrightarrow> s' = s"
  "returned (sys_kill q sig s) = Ret (Returned r s') \<Longrightarrow> r < 0 \<Longrightarrow> s' = s"
proof -
  have cnt: "unat count < 2 ^ 63" if "uint count < 2 ^ 63"
  proof -
    have "int (unat count) < int (2 ^ 63)" using that by simp
    then show ?thesis by (simp only: of_nat_less_iff)
  qed
  have "0 \<le> as_i64 count" if "uint count < 2 ^ 63"
    using as_i64_of_nat [OF cnt [OF that]] by simp
  then show "sys_write prof fd buf count s = Ret (Returned r s') \<Longrightarrow> r < 0 \<Longrightarrow> uint count < 2 ^ 63 \<Longrightarrow> s' = s"
    by (cases "fd_index prof fd")
      (auto simp: sys_write_def Let_def split: if_splits option.splits pseudo_node.splits)
  have "0 \<le> as_i64 (of_nat (fst (read_node node tcks offset (load_bytes m buf (unat count)))))"
    if "uint count < 2 ^ 63" for node tcks offset m
    using cnt [OF that] length_read_node(1) [of node tcks offset m buf "unat count"]
    by (simp add: as_i64_of_nat)
  then show "fd \<noteq> 0 \<Longrightarrow> sys_read prof K env fd buf count s = Ret (Returned r s') \<Longrightarrow> r < 0 \<Longrightarrow> uint count < 2 ^ 63 \<Longrightarrow> s' = s"
    by (auto simp: sys_read_def Let_def case_prod_beta not_less [symmetric] split: if_splits option.splits)
  have free: "s\<lparr>FD_TABLE := fd_take i (FD_TABLE s)\<rparr> = s" if "FD_TABLE s ! i = None" for i
    using list_update_id [of "FD_TABLE s" i] that by (simp add: fd_take_def)
  show "sys_close prof fd s = Ret (r, s') \<Longrightarrow> r < 0 \<Longrightarrow> s' = s"
    by (auto simp: sys_close_def free split: if_splits)
qed (auto simp: sys_open_def sys_fork_def sys_execve_def sys_kill_def fork_def
    execve_def kill_def Let_def split: if_splits option.splits prod.splits)

text \<open>
  Claim C17.  A failing system call has no effect.  Whenever a call other than the two that
  wait returns a negative value, for a byte count a positive result can express, the whole
  kernel state (processes, descriptors, user memory, console, keyboard) is what it was
  before the call.
\<close>

theorem failed_syscall_has_no_effect:
  assumes "dispatch prof K env f s = Ret (Returned r s')" and "r < 0" and "uint (rdx f) < 2 ^ 63"
    and "\<not> (num f = SYS_READ \<and> (ucast (rdi f) :: i32) = 0)" and "num f \<noteq> SYS_WAIT4"
  shows "s' = s"
  using assms dispatch_error_aux
  by (auto simp: dispatch_def Let_def sys_brk_def sys_getpid_def split: if_splits)

theorem failed_syscall_has_no_effect_witness:
  "dispatch Dev echo_decoder no_env (syscall SYS_CLOSE 9 0 0) hostname_kernel = Ret (Returned (-9) hostname_kernel)"
proof -
  obtain s' where d: "dispatch Dev echo_decoder no_env (syscall SYS_CLOSE 9 0 0) hostname_kernel = Ret (Returned (-9) s')"
    by (simp add: dispatch_def syscall_def syscall_numbers sys_close_def fd_index_def arith_sub_def hostname_kernel_def)
  have "s' = hostname_kernel"
    by (rule failed_syscall_has_no_effect [OF d]) (simp_all add: syscall_def syscall_numbers)
  with d show ?thesis by simp
qed

end
