(* ===== verification/Syscall_Console.thy ===== *)
theory Syscall_Console
  imports Syscall_Safety
begin

text \<open>
  System calls on the console: what a reader of keys takes, and printing text.
\<close>

section \<open>Standard input and output\<close>

text \<open>What a reader of at most \<open>n\<close> more bytes takes of the bytes typed: up to and including an end of line.\<close>

fun line_take :: "nat \<Rightarrow> u8 list \<Rightarrow> u8 list" where
  "line_take 0 cs = []"
| "line_take (Suc n) [] = []"
| "line_take (Suc n) (c # cs) = (if c = 0x0A \<or> c = 0x0D then [c] else c # line_take n cs)"

text \<open>No interrupt arrives and the controller's output buffer is empty.\<close>

fun quiet :: "irqs \<times> u8 \<times> u8 \<Rightarrow> bool" where
  "quiet (is, status, data) \<longleftrightarrow> is = [] \<and> status AND STATUS_OUTPUT_BUFFER_FULL = 0"

abbreviation typed :: "'kb kernel \<Rightarrow> u8 list" where
  "typed s \<equiv> kb_contents (KEY_BUFFER (k_keyboard s))"

lemma read_key_quiet:
  assumes "kb_inv (KEY_BUFFER k)" "kb_contents (KEY_BUFFER k) = []" "status AND STATUS_OUTPUT_BUFFER_FULL = 0"
  shows "read_key K status data k = Ret (None, k)"
  using key_fifo.pop_nil [OF assms(1,2)] assms(3)
  by (simp add: read_key_def try_read_char_def poll_char_def)



end
