(* ===== verification/Shell.thy ===== *)
theory Shell
  imports Syscall_Console
begin

text \<open>
  The interactive shell (\<open>kernel/src/shell.rs\<close>) on the whole kernel state: reading a line with
  its editing keys and echo, splitting it into a command and arguments, and the built-in
  commands.  Waiting for a key takes an environment, as in the system call layer: for each
  attempt the interrupts taken before it and the values of the keyboard's ports.
\<close>

section \<open>Output\<close>

definition MAX_CMD_LEN :: nat where
  "MAX_CMD_LEN = 256"

definition HOSTNAME :: string where
  "HOSTNAME = ''computekernel''"

definition USERNAME :: string where
  "USERNAME = ''root''"

text \<open>\<open>kprint!\<close> and \<open>kprintln!\<close> of a formatted text, and the operations on \<open>WRITER\<close>.\<close>

definition on_writer :: "(writer \<Rightarrow> writer) \<Rightarrow> 'kb kernel \<Rightarrow> 'kb kernel" where
  "on_writer f s = s\<lparr>k_writer := f (k_writer s)\<rparr>"

definition print_bytes :: "u8 list \<Rightarrow> 'kb kernel \<Rightarrow> 'kb kernel" where
  "print_bytes bs = on_writer (kprint bs)"

definition println :: "string \<Rightarrow> 'kb kernel \<Rightarrow> 'kb kernel" where
  "println str = print_bytes (bytes str @ [0x0A])"

definition shell_color :: "color \<Rightarrow> color \<Rightarrow> 'kb kernel \<Rightarrow> 'kb kernel" where
  "shell_color fg bg = on_writer (set_color fg bg)"

definition print_prompt :: "'kb kernel \<Rightarrow> 'kb kernel" where
  "print_prompt s =
     (let s = shell_color LightGreen Black s; s = print_bytes (bytes (USERNAME @ ''@'' @ HOSTNAME)) s;
          s = shell_color White Black s; s = print_bytes (bytes '' ~ '') s;
          s = shell_color LightCyan Black s; s = print_bytes (bytes ''% '') s
      in shell_color White Black s)"

section \<open>Reading a line\<close>

text \<open>\<open>buf[i] = v\<close> on an array.\<close>

definition put_index :: "nat \<Rightarrow> 'a \<Rightarrow> 'a list \<Rightarrow> 'a list outcome" where
  "put_index i v xs = (if i < length xs then Ret (xs[i := v]) else Panic Index_Out_Of_Range)"

text \<open>
  The loop of \<open>read_line\<close>: \<open>None\<close> while no end of line has been typed, otherwise the number of
  bytes, the buffer, the rest of the environment and the state.
\<close>

fun read_line :: "profile \<Rightarrow> ('kb, 'ev, 'kc) pc_keyboard \<Rightarrow> (irqs \<times> u8 \<times> u8) list \<Rightarrow> nat \<Rightarrow> u8 list \<Rightarrow> 'kb kernel \<Rightarrow>
    (nat \<times> u8 list \<times> (irqs \<times> u8 \<times> u8) list \<times> 'kb kernel) option outcome" where
  "read_line prof K [] pos buf s = Ret None"
| "read_line prof K ((is, status, data) # env) pos buf s =
     obind (take_interrupts prof K is s) (\<lambda>s.
     obind (read_key K status data (k_keyboard s)) (\<lambda>(c, k).
       let s = s\<lparr>k_keyboard := k\<rparr>
       in case c of
            None \<Rightarrow> read_line prof K env pos buf s
          | Some ch \<Rightarrow>
              if ch = 0x0A \<or> ch = 0x0D then Ret (Some (pos, buf, env, println '''' s))
              else if ch = 0x08 \<or> ch = 0x7F then
                if 0 < pos then
                  obind (put_index (pos - 1) 0 buf) (\<lambda>buf.
                    read_line prof K env (pos - 1) buf (on_writer backspace s))
                else read_line prof K env pos buf s
              else if ch = 0x03 then Ret (Some (0, buf, env, println ''^C'' s))
              else if 0x20 \<le> ch \<and> pos < MAX_CMD_LEN - 1 then
                obind (put_index pos ch buf) (\<lambda>buf.
                  read_line prof K env (pos + 1) buf (print_bytes (char_to_utf8 (ucast ch)) s))
              else read_line prof K env pos buf s))"

section \<open>Splitting a line\<close>

text \<open>The characters with the Unicode property White\_Space, by their encodings.\<close>

definition white_space :: "u8 list \<Rightarrow> bool" where
  "white_space c \<longleftrightarrow>
     c \<in> set [[0x09], [0x0A], [0x0B], [0x0C], [0x0D], [0x20], [0xC2, 0x85], [0xC2, 0xA0], [0xE1, 0x9A, 0x80],
       [0xE2, 0x80, 0xA8], [0xE2, 0x80, 0xA9], [0xE2, 0x80, 0xAF], [0xE2, 0x81, 0x9F], [0xE3, 0x80, 0x80]] \<or>
     (\<exists>b \<in> set (map of_nat [0x80..<0x8B]). c = [0xE2, 0x80, b])"

text \<open>\<open>str::trim\<close> of a text, given as bytes.\<close>

definition trim_utf8 :: "u8 list \<Rightarrow> u8 list" where
  "trim_utf8 bs =
     (case utf8_split bs of
        None \<Rightarrow> bs
      | Some cs \<Rightarrow> concat (rev (dropWhile white_space (rev (dropWhile white_space cs)))))"

definition split_command :: "u8 list \<Rightarrow> u8 list \<times> u8 list" where
  "split_command line =
     (case position (\<lambda>b. b = 0x20) line of
        Some i \<Rightarrow> (take i line, trim_utf8 (drop (i + 1) line))
      | None \<Rightarrow> (line, []))"

section \<open>Commands\<close>

definition println_all :: "string list \<Rightarrow> 'kb kernel \<Rightarrow> 'kb kernel" where
  "println_all strs s = fold println strs s"

definition cmd_help :: "'kb kernel \<Rightarrow> 'kb kernel" where
  "cmd_help = println_all
     [''ComputeKERNEL built-in commands:'',
      ''  help      - show this help'',
      ''  clear     - clear the screen'',
      ''  echo      - print arguments'',
      ''  uname     - print system information'',
      ''  version   - print kernel version'',
      ''  ps        - list processes'',
      ''  uptime    - show uptime in ticks'',
      ''  halt      - halt the system'',
      ''  reboot    - reboot the system'']"

definition cmd_clear :: "'kb kernel \<Rightarrow> 'kb kernel" where
  "cmd_clear = on_writer clear"

definition cmd_echo :: "u8 list \<Rightarrow> 'kb kernel \<Rightarrow> 'kb kernel" where
  "cmd_echo args = print_bytes (args @ [0x0A])"

definition cmd_uname :: "'kb kernel \<Rightarrow> 'kb kernel" where
  "cmd_uname = println ''ComputeKERNEL v1.0.0 x86_64''"

definition cmd_version :: "'kb kernel \<Rightarrow> 'kb kernel" where
  "cmd_version = println_all [''ComputeKERNEL v1.0.0'', ''Built with Rust (nightly)'', ''Architecture: x86_64'']"

fun state_label :: "process_state \<Rightarrow> string" where
  "state_label Ready = ''READY  ''"
| "state_label Running = ''RUNNING''"
| "state_label Blocked = ''BLOCKED''"
| "state_label Zombie = ''ZOMBIE ''"

text \<open>\<open>{:3}\<close> of a number: padded with spaces on the left.\<close>

definition pad_left :: "nat \<Rightarrow> string \<Rightarrow> string" where
  "pad_left width str = replicate (width - length str) CHR '' '' @ str"

definition ps_line :: "process \<Rightarrow> string" where
  "ps_line p = ''  '' @ pad_left 3 (show_nat (unat (pid p))) @ ''  '' @ state_label (proc_state p) @ ''  '' @ proc_name p"

definition cmd_ps :: "'kb kernel \<Rightarrow> 'kb kernel" where
  "cmd_ps s = println_all (''  PID  STATE    NAME'' # map ps_line (PROCESS_TABLE (k_procs s))) s"

definition cmd_uptime :: "'kb kernel \<Rightarrow> 'kb kernel" where
  "cmd_uptime s = println (''uptime: '' @ show_nat (unat (ticks (k_procs s))) @ '' ticks'') s"

text \<open>
  \<open>halt\<close> and \<open>reboot\<close> do not return: the processor halts for good with interrupts disabled,
  or the reset command 0xFE is written to port 0x64 and the processor halts.
\<close>

datatype 'kb command_result = Done "'kb kernel" | Halted "'kb kernel" | Reset "'kb kernel"

definition cmd_halt :: "'kb kernel \<Rightarrow> 'kb command_result" where
  "cmd_halt s = Halted (println ''Halting system...'' s)"

definition cmd_reboot :: "'kb kernel \<Rightarrow> 'kb command_result" where
  "cmd_reboot s = Reset (println ''Rebooting...'' s)"

definition execute :: "u8 list \<Rightarrow> 'kb kernel \<Rightarrow> 'kb command_result" where
  "execute raw s =
     (let line = trim_utf8 (if from_utf8 raw = None then [] else raw)
      in if line = [] then Done s
         else let (cmd, args) = split_command line
              in if cmd = bytes ''help'' then Done (cmd_help s)
                 else if cmd = bytes ''clear'' then Done (cmd_clear s)
                 else if cmd = bytes ''echo'' then Done (cmd_echo args s)
                 else if cmd = bytes ''uname'' then Done (cmd_uname s)
                 else if cmd = bytes ''version'' then Done (cmd_version s)
                 else if cmd = bytes ''ps'' then Done (cmd_ps s)
                 else if cmd = bytes ''uptime'' then Done (cmd_uptime s)
                 else if cmd = bytes ''halt'' \<or> cmd = bytes ''poweroff'' then cmd_halt s
                 else if cmd = bytes ''reboot'' then cmd_reboot s
                 else Done (shell_color White Black
                   (print_bytes (bytes ''shell: command not found: '' @ cmd @ [0x0A]) (shell_color LightRed Black s))))"

section \<open>The shell\<close>

text \<open>One iteration of the loop of \<open>run\<close>; \<open>None\<close> while the line is not complete.\<close>

definition shell_iteration :: "profile \<Rightarrow> ('kb, 'ev, 'kc) pc_keyboard \<Rightarrow> (irqs \<times> u8 \<times> u8) list \<Rightarrow> 'kb kernel \<Rightarrow>
    ('kb command_result \<times> (irqs \<times> u8 \<times> u8) list) option outcome" where
  "shell_iteration prof K env s =
     obind (read_line prof K env 0 (replicate MAX_CMD_LEN 0) (print_prompt s)) (\<lambda>r.
       case r of
         None \<Rightarrow> Ret None
       | Some (len, buf, env, s) \<Rightarrow> obind (slice 0 len buf) (\<lambda>line. Ret (Some (execute line s, env))))"

definition shell_banner :: "'kb kernel \<Rightarrow> 'kb kernel" where
  "shell_banner = println_all ['''', ''Welcome to ComputeKERNEL v1.0.0'', ''Type '' @ [CHR 0x27] @ ''help'' @ [CHR 0x27] @ '' for available commands.'', '''']"

text \<open>
  \<open>run\<close> with a bound on the number of lines: \<open>None\<close> if it waits for input, \<open>Done\<close> if the
  bound is used up, and otherwise the result of the command that ended it.
\<close>

fun shell_loop :: "profile \<Rightarrow> ('kb, 'ev, 'kc) pc_keyboard \<Rightarrow> nat \<Rightarrow> (irqs \<times> u8 \<times> u8) list \<Rightarrow> 'kb kernel \<Rightarrow>
    'kb command_result option outcome" where
  "shell_loop prof K 0 env s = Ret (Some (Done s))"
| "shell_loop prof K (Suc n) env s =
     obind (shell_iteration prof K env s) (\<lambda>r.
       case r of
         None \<Rightarrow> Ret None
       | Some (Done s, env) \<Rightarrow> shell_loop prof K n env s
       | Some (result, _) \<Rightarrow> Ret (Some result))"

definition shell_run :: "profile \<Rightarrow> ('kb, 'ev, 'kc) pc_keyboard \<Rightarrow> nat \<Rightarrow> (irqs \<times> u8 \<times> u8) list \<Rightarrow> 'kb kernel \<Rightarrow>
    'kb command_result option outcome" where
  "shell_run prof K n env s = shell_loop prof K n env (shell_banner s)"

section \<open>The line editor\<close>

text \<open>What typing a key does to the line typed so far, and a whole line.\<close>

definition edit_key :: "u8 list \<Rightarrow> u8 \<Rightarrow> u8 list" where
  "edit_key line ch =
     (if ch = 0x08 \<or> ch = 0x7F then butlast line
      else if 0x20 \<le> ch \<and> length line < 255 then line @ [ch] else line)"

definition edit_line :: "u8 list \<Rightarrow> u8 list" where
  "edit_line keys = foldl edit_key [] keys"

definition ends_line :: "u8 \<Rightarrow> bool" where
  "ends_line ch \<longleftrightarrow> ch = 0x0A \<or> ch = 0x0D"

text \<open>The line that ends with a key: Ctrl+C discards it.\<close>

definition committed :: "u8 \<Rightarrow> u8 list \<Rightarrow> u8 list" where
  "committed e line = (if e = 0x03 then [] else line)"

lemma edit_key_bound: "length line \<le> 255 \<Longrightarrow> length (edit_key line ch) \<le> 255"
  by (auto simp: edit_key_def)

lemma edit_line_bound: "length line \<le> 255 \<Longrightarrow> length (foldl edit_key line keys) \<le> 255"
  by (induction keys arbitrary: line) (simp_all add: edit_key_bound)

lemma put_index_ok: "i < length xs \<Longrightarrow> put_index i v xs = Ret (xs[i := v])"
  by (simp add: put_index_def)

text \<open>One key of a line, as the loop handles it.\<close>

lemma read_line_key:
  assumes "kb_inv (KEY_BUFFER (k_keyboard s))" "typed s = ch # rest" "\<not> ends_line ch" "ch \<noteq> 0x03"
    and "length buf = MAX_CMD_LEN" "length line \<le> 255" "take (length line) buf = line"
  shows "\<exists>k w buf'. read_line prof K (([], status, data) # env) (length line) buf s =
      read_line prof K env (length (edit_key line ch)) buf' (s\<lparr>k_keyboard := k, k_writer := w\<rparr>) \<and>
    kb_inv (KEY_BUFFER k) \<and> kb_contents (KEY_BUFFER k) = rest \<and> KEYBOARD k = KEYBOARD (k_keyboard s) \<and>
    length buf' = MAX_CMD_LEN \<and> take (length (edit_key line ch)) buf' = edit_key line ch"
proof -
  obtain k where k: "read_key K status data (k_keyboard s) = Ret (Some ch, k)" "kb_inv (KEY_BUFFER k)"
    "kb_contents (KEY_BUFFER k) = rest" "KEYBOARD k = KEYBOARD (k_keyboard s)"
    using read_key_buffered [OF assms(1,2), of K status data] by auto
  have same: "s\<lparr>k_keyboard := k\<rparr> = s\<lparr>k_keyboard := k, k_writer := k_writer s\<rparr>" by simp
  consider (erase) "ch = 0x08 \<or> ch = 0x7F" "line \<noteq> []" | (store) "0x20 \<le> ch" "ch \<noteq> 0x7F" "length line < 255"
    | (nothing) "ch = 0x08 \<or> ch = 0x7F" "line = []"
    | (ignore) "ch \<noteq> 0x08" "ch \<noteq> 0x7F" "\<not> (0x20 \<le> ch \<and> length line < 255)"
    by blast
  then show ?thesis
  proof cases
    case erase
    have "length line - 1 < length buf" using assms(5,6) by (simp add: MAX_CMD_LEN_def)
    moreover have "take (length line - 1) (buf[length line - 1 := 0]) = butlast line"
      using assms(7) by (metis butlast_conv_take length_take take_take take_update_cancel diff_le_self le_refl min.absorb1 butlast_take min_def)
    ultimately show ?thesis using erase k assms(3-6)
      by (intro exI [of _ k] exI [of _ "backspace (k_writer s)"] exI [of _ "buf[length line - 1 := 0]"])
        (auto simp: ends_line_def on_writer_def put_index_ok edit_key_def)
  next
    case store
    have "ch \<noteq> 0x08" using store by auto
    moreover have "length line < length buf" using assms(5) store by (simp add: MAX_CMD_LEN_def)
    moreover have "take (Suc (length line)) (buf[length line := ch]) = line @ [ch]"
      using assms(7) calculation(2) by (simp add: take_Suc_conv_app_nth)
    ultimately show ?thesis using store k assms(3-6)
      by (intro exI [of _ k] exI [of _ "kprint (char_to_utf8 (ucast ch)) (k_writer s)"] exI [of _ "buf[length line := ch]"])
        (auto simp: ends_line_def on_writer_def print_bytes_def put_index_ok edit_key_def MAX_CMD_LEN_def)
  next
    case nothing
    then show ?thesis using k assms(3-7)
      by (intro exI [of _ k] exI [of _ "k_writer s"] exI [of _ buf])
        (auto simp: ends_line_def same [symmetric] edit_key_def)
  next
    case ignore
    then show ?thesis using k assms(3-7)
      by (intro exI [of _ k] exI [of _ "k_writer s"] exI [of _ buf])
        (auto simp: ends_line_def MAX_CMD_LEN_def same [symmetric] edit_key_def)
  qed
qed

text \<open>The key that ends a line.\<close>

lemma read_line_end:
  assumes "kb_inv (KEY_BUFFER (k_keyboard s))" "typed s = e # rest" "ends_line e \<or> e = 0x03"
  shows "\<exists>k w. read_line prof K (([], status, data) # env) (length line) buf s =
      Ret (Some (length (committed e line), buf, env, s\<lparr>k_keyboard := k, k_writer := w\<rparr>)) \<and>
    kb_contents (KEY_BUFFER k) = rest \<and> KEYBOARD k = KEYBOARD (k_keyboard s)"
proof -
  obtain k where k: "read_key K status data (k_keyboard s) = Ret (Some e, k)" "kb_contents (KEY_BUFFER k) = rest"
    "KEYBOARD k = KEYBOARD (k_keyboard s)"
    using read_key_buffered [OF assms(1,2), of K status data] by auto
  show ?thesis
  proof (cases "e = 0x03")
    case True
    then show ?thesis using k
      by (intro exI [of _ k] exI [of _ "kprint (bytes ''^C'' @ [0x0A]) (k_writer s)"])
        (simp add: println_def print_bytes_def on_writer_def committed_def)
  next
    case False
    then have "ends_line e" using assms(3) by simp
    then show ?thesis using k False
      by (intro exI [of _ k] exI [of _ "kprint [0x0A] (k_writer s)"])
        (simp add: println_def print_bytes_def on_writer_def ends_line_def bytes_def committed_def)
  qed
qed

lemma read_line_typed:
  assumes "kb_inv (KEY_BUFFER (k_keyboard s))" "typed s = ks @ e # rest" "ends_line e \<or> e = 0x03"
    and "\<forall>ch \<in> set ks. \<not> ends_line ch \<and> ch \<noteq> 0x03" "list_all quiet env" "length ks < length env"
    and "length buf = MAX_CMD_LEN" "length line \<le> 255" "take (length line) buf = line"
  shows "\<exists>k w buf'. read_line prof K env (length line) buf s =
      Ret (Some (length (committed e (foldl edit_key line ks)), buf', drop (Suc (length ks)) env,
        s\<lparr>k_keyboard := k, k_writer := w\<rparr>)) \<and>
    kb_contents (KEY_BUFFER k) = rest \<and> KEYBOARD k = KEYBOARD (k_keyboard s) \<and> length buf' = MAX_CMD_LEN \<and>
    take (length (committed e (foldl edit_key line ks))) buf' = (committed e (foldl edit_key line ks))"
  using assms
proof (induction ks arbitrary: s env buf line)
  case Nil
  obtain status data env' where env: "env = ([], status, data) # env'" using Nil.prems(5,6) by (cases env) auto
  obtain k w where "read_line prof K env (length line) buf s =
      Ret (Some (length (committed e line), buf, env', s\<lparr>k_keyboard := k, k_writer := w\<rparr>))"
    "kb_contents (KEY_BUFFER k) = rest" "KEYBOARD k = KEYBOARD (k_keyboard s)"
    using read_line_end [OF Nil.prems(1) _ Nil.prems(3), of rest prof K status data env' line buf] Nil.prems(2)
    unfolding env by auto
  then show ?case using Nil.prems
    by (intro exI [of _ k] exI [of _ w] exI [of _ buf]) (simp add: env committed_def)
next
  case (Cons ch ks)
  obtain status data env' where env: "env = ([], status, data) # env'" using Cons.prems(5,6) by (cases env) auto
  obtain k1 w1 buf1 where 1: "read_line prof K (([], status, data) # env') (length line) buf s =
      read_line prof K env' (length (edit_key line ch)) buf1 (s\<lparr>k_keyboard := k1, k_writer := w1\<rparr>)"
    "kb_inv (KEY_BUFFER k1)" "kb_contents (KEY_BUFFER k1) = ks @ e # rest" "KEYBOARD k1 = KEYBOARD (k_keyboard s)"
    "length buf1 = MAX_CMD_LEN"
    "take (length (edit_key line ch)) buf1 = edit_key line ch"
    using read_line_key [OF Cons.prems(1), of ch "ks @ e # rest" buf line prof K status data env'] Cons.prems by auto
  have "list_all quiet env'" "length ks < length env'" using Cons.prems(5,6) env by auto
  with Cons.IH [of "s\<lparr>k_keyboard := k1, k_writer := w1\<rparr>" env' buf1 "edit_key line ch"] Cons.prems(3,4,8) 1(2-)
  show ?case unfolding env 1(1) by (simp add: edit_key_bound)
qed

lemma execute_blank [simp]: "execute [] s = Done s"
  by (simp add: execute_def trim_utf8_def from_utf8_def)

text \<open>A line that is not UTF-8 is ignored without a message.\<close>

lemma execute_not_utf8: "from_utf8 raw = None \<Longrightarrow> execute raw s = Done s"
  by (simp add: execute_def trim_utf8_def)

lemma print_prompt_eq: "\<exists>w. print_prompt s = s\<lparr>k_writer := w\<rparr>"
  by (simp add: print_prompt_def shell_color_def print_bytes_def on_writer_def Let_def) (rule exI, rule refl)

end
