(* ===== verification/Syscall_Process.thy ===== *)
theory Syscall_Process
  imports Syscall_Safety
begin

text \<open>
  System calls on processes: how an exit status or a signal reaches the parent through \<open>wait4\<close>, and
  that \<open>wait4\<close> on the whole kernel refines \<open>waitpid\<close> on the process subsystem.
\<close>

section \<open>Exit status\<close>

lemma wait_status_bytes: "u32_to_le_bytes (wait_status code) = [0, ucast code, 0, 0]"
proof -
  have m: "(0xFF :: i32) = mask 8" by (simp add: mask_eq_exp_minus_1)
  have b: "bit (wait_status code) n \<longleftrightarrow> 8 \<le> n \<and> n < 16 \<and> bit code (n - 8)" for n
    by (auto simp: wait_status_def m bit_push_bit_iff bit_and_iff bit_mask_iff)
  have "(ucast (wait_status code) :: u8) = 0" "(ucast (drop_bit 8 (wait_status code)) :: u8) = ucast code"
    "(ucast (drop_bit 16 (wait_status code)) :: u8) = 0" "(ucast (drop_bit 24 (wait_status code)) :: u8) = 0"
    by (rule bit_word_eqI; simp add: bit_unsigned_iff bit_drop_bit_eq b)+
  then show ?thesis by (simp add: u32_to_le_bytes_def)
qed

text \<open>
  Claim C22.  The exit status reaches the parent: after a process calls exit, a wait4 by its
  parent for that PID returns the PID at once and stores, at the status pointer, the four
  bytes of \<open>(code & 0xff) << 8\<close> (so the second byte is the low byte of the code and the
  others are 0); the child is gone from the table and no other entry is.
\<close>

theorem exit_status_reaches_parent:
  assumes "distinct (pids (k_procs s))" and "find_pid (CURRENT_PID (k_procs s)) (k_procs s) = Some c"
    and "parent_pid c \<noteq> pid c" and "0 < sint (pid c)"
    and "num f1 = SYS_EXIT \<or> num f1 = SYS_EXIT_GROUP"
    and "num f2 = SYS_WAIT4" and "ucast (rdi f2) = pid c" and "rsi f2 \<noteq> 0"
  shows "\<exists>s1 s2. dispatch prof K env1 f1 s = Ret (NoReturn s1) \<and>
    dispatch prof K env2 f2 (s1\<lparr>k_procs := (k_procs s1)\<lparr>CURRENT_PID := parent_pid c\<rparr>\<rparr>) =
      Ret (Returned (uint (pid c)) s2) \<and>
    load_bytes (k_mem s2) (rsi f2) 4 = [0, ucast (rdi f1), 0, 0] \<and>
    pids (k_procs s2) = remove1 (pid c) (pids (k_procs s))"
proof -
  let ?code = "ucast (rdi f1) :: i32"
  let ?p = "(exit ?code (k_procs s))\<lparr>CURRENT_PID := parent_pid c\<rparr>"
  note z = exit_leaves_zombie [OF assms(2,3), where code = ?code and q = "parent_pid c"]
  obtain p2 where w: "waitpid_once (Some (pid c)) ?p = (Inr (Some (pid c, ?code)), p2)"
    "pids p2 = remove1 (pid c) (pids (k_procs s))"
    using waitpid_once_zombie [OF _ z(1)] z(2) assms(1) by auto
  let ?s2 = "s\<lparr>k_procs := p2, k_mem := store_bytes (rsi f2) [0, ucast ?code, 0, 0] (k_mem s)\<rparr>"
  have "dispatch prof K env1 f1 s = Ret (NoReturn (s\<lparr>k_procs := exit ?code (k_procs s)\<rparr>))"
    using assms(5) by (auto simp: dispatch_def syscall_numbers sys_exit_def)
  moreover have "dispatch prof K env2 f2 (s\<lparr>k_procs := ?p\<rparr>) = Ret (Returned (uint (pid c)) ?s2)"
    using assms(4,6-8) w(1)
    by (simp add: dispatch_def syscall_numbers sys_wait4_def waitpid_kernel.simps wait_status_bytes)
  moreover have "load_bytes (k_mem ?s2) (rsi f2) 4 = [0, ucast (rdi f1), 0, 0]"
    using load_store_bytes [of 4 "[0, ucast ?code, 0, 0]" "rsi f2" "k_mem s"]
    by (auto simp: bit_unsigned_iff intro: bit_word_eqI)
  ultimately show ?thesis using w(2) by (intro exI conjI) auto
qed

theorem exit_status_reaches_parent_witness:
  "\<exists>s1 s2. dispatch Dev echo_decoder no_env (syscall SYS_EXIT 0x107 0 0) ((user_kernel (\<lambda>_. 0xAA))\<lparr>k_procs := two_procs\<rparr>) =
       Ret (NoReturn s1) \<and>
     dispatch Dev echo_decoder no_env (syscall SYS_WAIT4 2 0x5000 0)
       (s1\<lparr>k_procs := (k_procs s1)\<lparr>CURRENT_PID := 1\<rparr>\<rparr>) = Ret (Returned 2 s2) \<and>
     load_bytes (k_mem s2) 0x5000 4 = [0, 7, 0, 0]"
proof -
  let ?s = "(user_kernel (\<lambda>_. 0xAA))\<lparr>k_procs := two_procs\<rparr>"
  let ?c = "PROCESS_TABLE two_procs ! 2"
  have "distinct (pids (k_procs ?s))" "find_pid (CURRENT_PID (k_procs ?s)) (k_procs ?s) = Some ?c"
    "parent_pid ?c = 1" "pid ?c = 2" "parent_pid ?c \<noteq> pid ?c"
    by (simp_all add: two_procs_eq boot_procs_eq idle_process_def pids_def)
  with exit_status_reaches_parent [of ?s ?c "syscall SYS_EXIT 0x107 0 0" "syscall SYS_WAIT4 2 0x5000 0"
      Dev echo_decoder no_env no_env]
  show ?thesis by (auto simp: syscall_def)
qed

text \<open>An interrupt as the process subsystem sees it.\<close>

fun irq_of :: "interrupt_index \<times> u8 \<Rightarrow> irq" where
  "irq_of (i, data) = (if i = Timer then Timer_Irq else Other_Irq)"

lemma run_handler_procs:
  assumes "take_interrupt prof K (as_u8 i) data s = Some (Ret s')"
  shows "take_irqs prof [irq_of (i, data)] (k_procs s) = Ret (k_procs s')"
  using assms
  by (cases i) (auto simp: take_interrupt_def idt_build_def PIC_1_OFFSET_def notify_end_of_interrupt_def)

lemma take_interrupts_procs:
  "take_interrupts prof K is s = Ret s' \<Longrightarrow> take_irqs prof (map irq_of is) (k_procs s) = Ret (k_procs s')"
proof (induction prof K "is" s rule: take_interrupts.induct)
  case (2 prof K i data "is" s)
  then obtain s1 where s1: "take_interrupt prof K (as_u8 i) data s = Some (Ret s1)"
    "take_interrupts prof K is s1 = Ret s'"
    by (auto split: option.split_asm)
  have "take_irqs prof (map irq_of is) (k_procs s1) = Ret (k_procs s')"
    using "2.IH" [OF s1(1)] s1(2) by blast
  with run_handler_procs [OF s1(1)] show ?case by (auto split: if_splits)
qed simp

lemma waitpid_kernel_refines:
  assumes "waitpid_kernel prof K hlts target s = Ret (Some (res, s'))"
  shows "waitpid prof (map (map irq_of) hlts) target (k_procs s) = Ret (Some (res, k_procs s')) \<and> k_mem s' = k_mem s"
  using assms
proof (induction hlts arbitrary: s)
  case Nil
  then show ?case
    by (subst (asm) waitpid_kernel.simps, subst waitpid.simps)
      (auto split: prod.splits sum.splits option.splits)
next
  case (Cons h hlts)
  show ?case
  proof (cases "\<exists>p. waitpid_once target (k_procs s) = (Inr None, p)")
    case True
    then obtain p s1 where w: "waitpid_once target (k_procs s) = (Inr None, p)"
      "take_interrupts prof K h (s\<lparr>k_procs := p\<rparr>) = Ret s1"
      and r: "waitpid_kernel prof K hlts target s1 = Ret (Some (res, s'))"
      using Cons.prems by (subst (asm) waitpid_kernel.simps) auto
    with Cons.IH [OF r] take_interrupts_procs [OF w(2)] take_interrupts_frame [OF w(2)] show ?thesis
      by (subst waitpid.simps) auto
  next
    case False
    with Cons.prems show ?thesis
      by (subst (asm) waitpid_kernel.simps, subst waitpid.simps)
        (auto split: prod.splits sum.splits option.splits)
  qed
qed

text \<open>
  Claim C24.  wait4 is the kernel's waitpid: if it returns, then waitpid on the process state,
  woken by the same interrupts, returned as well and left the same processes; the result
  is the reaped child's PID, with the four bytes of \<open>(code & 0xff) << 8\<close> stored at a non-null
  status pointer and no other memory changed, or the no-such-process error with memory
  untouched when there was no child to wait for.
\<close>

theorem wait4_refines_waitpid:
  assumes "sys_wait4 prof K hlts q status s = Ret (Returned r s')"
  shows "\<exists>res. waitpid prof (map (map irq_of) hlts) (if sint q \<le> 0 then None else Some q) (k_procs s) =
      Ret (Some (res, k_procs s')) \<and>
    (case res of
       Inl _ \<Rightarrow> r = errno_i64 Srch \<and> k_mem s' = k_mem s
     | Inr (child, code) \<Rightarrow> r = uint child \<and>
         k_mem s' = (if status = 0 then k_mem s else store_bytes status [0, ucast code, 0, 0] (k_mem s)))"
proof -
  let ?target = "if sint q \<le> 0 then None else Some q"
  from assms obtain x where x: "waitpid_kernel prof K hlts ?target s = Ret x"
    by (auto simp: sys_wait4_def)
  with assms obtain res s1 where x1: "x = Some (res, s1)"
    by (cases x) (auto simp: sys_wait4_def)
  from waitpid_kernel_refines [OF x [unfolded x1]] assms x x1 show ?thesis
    by (cases res) (auto simp: sys_wait4_def wait_status_bytes)
qed

theorem wait4_refines_waitpid_witness:
  "\<exists>r s'. sys_wait4 Dev echo_decoder [] 5 0 (user_kernel (\<lambda>_. 0)) = Ret (Returned r s') \<and> r = -3 \<and>
     k_mem s' = (\<lambda>_. 0)"
proof -
  have w: "sys_wait4 Dev echo_decoder [] 5 0 (user_kernel (\<lambda>_. 0)) = Ret (Returned (-3) (user_kernel (\<lambda>_. 0)))"
    by (simp add: sys_wait4_def waitpid_kernel.simps user_kernel_def waitpid_once_def boot_procs_eq
        idle_process_def wanted_def current_pid_def)
  from wait4_refines_waitpid [OF w] w show ?thesis
    by (auto simp: user_kernel_def)
qed

end
