(* ===== verification/Memory.thy ===== *)
theory Memory
  imports Prelude
begin

text \<open>
  Memory management (\<open>kernel/src/memory\<close>): the frame allocator over the bootloader's memory
  map, the mapping of the kernel heap, the page table lookup, and \<open>memory::init\<close> that runs
  them.  The \<open>x86_64\<close> crate is a parameter: the record \<open>x86_64\<close> for its address, frame and
  page functions, with \<open>x86_64_ok\<close> for what its documentation promises, and the method
  \<open>map_to\<close> of its page table mapper, with \<open>mapper_ok\<close>.  The interface \<open>frame_source\<close> is what
  the heap initialisation relies on in a frame allocator.
\<close>

section \<open>The x86_64 crate\<close>

text \<open>
  Addresses are their 64 bits; frames and pages of 4 KiB are their start addresses.
  \<open>VirtAddr\<close> addition and subtraction are those of the crate, which panic on overflow.
\<close>

record x86_64 =
  phys_addr_new :: "u64 \<Rightarrow> u64 outcome"
  frame_containing :: "u64 \<Rightarrow> u64"
  virt_addr_new :: "u64 \<Rightarrow> u64 outcome"
  virt_add :: "u64 \<Rightarrow> u64 \<Rightarrow> u64 outcome"
  virt_sub :: "u64 \<Rightarrow> u64 \<Rightarrow> u64 outcome"
  page_containing :: "u64 \<Rightarrow> u64"
  page_range_inclusive :: "u64 \<Rightarrow> u64 \<Rightarrow> u64 list"

datatype page_table_flag = PRESENT | WRITABLE | NO_EXECUTE

datatype map_to_error = FrameAllocationFailed | ParentEntryHugePage | PageAlreadyMapped

section \<open>The frame allocator\<close>

text \<open>A region of the memory map, with whether its kind is \<open>MemoryRegionKind::Usable\<close>.\<close>

record memory_region =
  region_start :: u64
  region_end :: u64
  region_usable :: bool

record boot_info_frame_allocator =
  memory_regions :: "memory_region list"
  next_frame :: usize

definition frame_allocator_init :: "memory_region list \<Rightarrow> boot_info_frame_allocator" where
  "frame_allocator_init regions = \<lparr>memory_regions = regions, next_frame = 0\<rparr>"

text \<open>The addresses \<open>(r.start..r.end).step_by(4096)\<close> yields.\<close>

definition region_addrs :: "memory_region \<Rightarrow> u64 list" where
  "region_addrs r =
     map (\<lambda>i. region_start r + of_nat (4096 * i))
       [0..<(unat (region_end r) - unat (region_start r) + 4095) div 4096]"

definition usable_addrs :: "boot_info_frame_allocator \<Rightarrow> u64 list" where
  "usable_addrs a = concat (map region_addrs (filter region_usable (memory_regions a)))"

text \<open>\<open>usable_frames().nth(n)\<close>: the closure of the last \<open>map\<close> runs on every element passed over.\<close>

fun nth_frame :: "x86_64 \<Rightarrow> nat \<Rightarrow> u64 list \<Rightarrow> u64 option outcome" where
  "nth_frame x n [] = Ret None"
| "nth_frame x n (addr # addrs) =
     obind (phys_addr_new x addr) (\<lambda>phys.
       case n of 0 \<Rightarrow> Ret (Some (frame_containing x phys)) | Suc k \<Rightarrow> nth_frame x k addrs)"

definition allocate_frame ::
    "x86_64 \<Rightarrow> profile \<Rightarrow> boot_info_frame_allocator \<Rightarrow> (u64 option \<times> boot_info_frame_allocator) outcome" where
  "allocate_frame x prof a =
     obind (nth_frame x (unat (next_frame a)) (usable_addrs a)) (\<lambda>frame.
       obind (arith_add prof (next_frame a) 1) (\<lambda>n. Ret (frame, a\<lparr>next_frame := n\<rparr>)))"

section \<open>Paging\<close>

text \<open>\<open>cr3\<close> is the physical address of the level 4 table that \<open>Cr3::read\<close> returns.\<close>

definition active_level_4_table :: "x86_64 \<Rightarrow> u64 \<Rightarrow> u64 \<Rightarrow> u64 outcome" where
  "active_level_4_table x cr3 physical_memory_offset = virt_add x physical_memory_offset cr3"

definition paging_init :: "x86_64 \<Rightarrow> u64 \<Rightarrow> u64 \<Rightarrow> (u64 \<times> u64) outcome" where
  "paging_init x cr3 physical_memory_offset =
     obind (active_level_4_table x cr3 physical_memory_offset) (\<lambda>level_4_table.
       Ret (level_4_table, physical_memory_offset))"

definition phys_from_virt :: "u64 \<Rightarrow> u64 \<Rightarrow> u64 option" where
  "phys_from_virt virt physical_memory_offset = checked_sub virt physical_memory_offset"

section \<open>The kernel heap\<close>

definition HEAP_START :: usize where
  "HEAP_START = 0x444444440000"

definition HEAP_SIZE :: usize where
  "HEAP_SIZE = 2 * 1024 * 1024"

text \<open>
  \<open>init_heap\<close> is generic in the mapper and the allocator: the state of the mapper is a
  value of type \<open>'m\<close>, that of the allocator one of type \<open>'a\<close>, and both traits' methods
  are arguments.  \<open>map_to\<close> may itself allocate frames, for page tables.
\<close>

definition heap_pages :: "x86_64 \<Rightarrow> u64 list outcome" where
  "heap_pages x =
     obind (virt_addr_new x HEAP_START) (\<lambda>heap_start.
       obind (virt_add x heap_start HEAP_SIZE) (\<lambda>past.
         obind (virt_sub x past 1) (\<lambda>heap_end.
           Ret (page_range_inclusive x (page_containing x heap_start) (page_containing x heap_end)))))"

definition HEAP_FLAGS :: "page_table_flag set" where
  "HEAP_FLAGS = {PRESENT, WRITABLE, NO_EXECUTE}"

type_synonym ('m, 'a) map_to =
  "u64 \<Rightarrow> u64 \<Rightarrow> page_table_flag set \<Rightarrow> 'm \<Rightarrow> 'a \<Rightarrow> ((map_to_error + unit) \<times> 'm \<times> 'a) outcome"

type_synonym 'a allocate = "'a \<Rightarrow> (u64 option \<times> 'a) outcome"

fun map_pages ::
    "'a allocate \<Rightarrow> ('m, 'a) map_to \<Rightarrow> u64 list \<Rightarrow> 'm \<Rightarrow> 'a \<Rightarrow> ((map_to_error + unit) \<times> 'm \<times> 'a) outcome" where
  "map_pages allocate map_to [] m a = Ret (Inr (), m, a)"
| "map_pages allocate map_to (page # pages) m a =
     obind (allocate a) (\<lambda>(frame, a).
       case frame of
         None \<Rightarrow> Ret (Inl FrameAllocationFailed, m, a)
       | Some frame \<Rightarrow> obind (map_to page frame HEAP_FLAGS m a) (\<lambda>(result, m, a).
           case result of
             Inl e \<Rightarrow> Ret (Inl e, m, a)
           | Inr _ \<Rightarrow> map_pages allocate map_to pages m a))"

definition init_heap ::
    "x86_64 \<Rightarrow> 'a allocate \<Rightarrow> ('m, 'a) map_to \<Rightarrow> 'm \<Rightarrow> 'a \<Rightarrow> ((map_to_error + unit) \<times> 'm \<times> 'a) outcome" where
  "init_heap x allocate map_to m a =
     obind (heap_pages x) (\<lambda>pages. map_pages allocate map_to pages m a)"

section \<open>Initialisation\<close>

text \<open>
  \<open>memory::init\<close>.  \<open>offset_page_table\<close> is \<open>OffsetPageTable::new\<close>, applied to the address of
  the level 4 table and the offset.  The result is the mapper, the allocator and the range
  given to \<open>ALLOCATOR\<close>.
\<close>

record boot_info =
  physical_memory_offset :: "u64 option"
  boot_memory_regions :: "memory_region list"

definition memory_init ::
    "x86_64 \<Rightarrow> profile \<Rightarrow> ('m, boot_info_frame_allocator) map_to \<Rightarrow> (u64 \<times> u64 \<Rightarrow> 'm) \<Rightarrow> u64 \<Rightarrow> boot_info \<Rightarrow>
     ('m \<times> boot_info_frame_allocator \<times> usize \<times> usize) outcome" where
  "memory_init x prof map_to offset_page_table cr3 boot =
     (case physical_memory_offset boot of
        None \<Rightarrow> Panic (Explicit ''bootloader did not provide physical memory offset'')
      | Some off \<Rightarrow>
          obind (virt_addr_new x off) (\<lambda>phys_mem_offset.
            obind (paging_init x cr3 phys_mem_offset) (\<lambda>table.
              obind (init_heap x (allocate_frame x prof) map_to (offset_page_table table)
                       (frame_allocator_init (boot_memory_regions boot))) (\<lambda>(result, m, a).
                case result of
                  Inl e \<Rightarrow> Panic (Explicit ''kernel heap initialization failed'')
                | Inr _ \<Rightarrow> Ret (m, a, HEAP_START, HEAP_SIZE)))))"

section \<open>What the crate promises\<close>

definition x86_64_ok :: "x86_64 \<Rightarrow> bool" where
  "x86_64_ok x \<longleftrightarrow>
     (\<forall>a. unat a < 2 ^ 52 \<longrightarrow> phys_addr_new x a = Ret a) \<and>
     (\<forall>a. unat (frame_containing x a) = unat a div 4096 * 4096) \<and>
     (\<forall>a. unat a < 2 ^ 47 \<longrightarrow> virt_addr_new x a = Ret a) \<and>
     (\<forall>a b. unat a + unat b < 2 ^ 47 \<longrightarrow> virt_add x a b = Ret (a + b)) \<and>
     (\<forall>a b. unat b \<le> unat a \<and> unat a < 2 ^ 47 \<longrightarrow> virt_sub x a b = Ret (a - b)) \<and>
     (\<forall>a. unat (page_containing x a) = unat a div 4096 * 4096) \<and>
     (\<forall>a b. unat a \<le> unat b \<and> 4096 dvd unat a \<and> 4096 dvd unat b \<longrightarrow>
        page_range_inclusive x a b = map (\<lambda>i. a + of_nat (4096 * i)) [0..<(unat b - unat a + 4096) div 4096])"

text \<open>
  \<open>map_to\<close> on a page that is not mapped, with an allocator that has three frames left for the
  page tables of levels 3, 2 and 1, maps that page and no other.  \<open>translate\<close> reads the
  mapping of a page from the mapper's state; \<open>valid\<close>, \<open>issued\<close> and \<open>avail\<close> describe the allocator.
\<close>

definition mapper_ok ::
    "('a \<Rightarrow> bool) \<Rightarrow> ('a \<Rightarrow> u64 set) \<Rightarrow> ('a \<Rightarrow> nat) \<Rightarrow> ('m, 'a) map_to \<Rightarrow>
     ('m \<Rightarrow> u64 \<Rightarrow> (u64 \<times> page_table_flag set) option) \<Rightarrow> bool" where
  "mapper_ok valid issued avail map_to translate \<longleftrightarrow>
     (\<forall>page frame flags m a. valid a \<and> 3 \<le> avail a \<and> translate m page = None \<longrightarrow>
       (\<exists>m' a'. map_to page frame flags m a = Ret (Inr (), m', a') \<and>
          translate m' = (translate m)(page \<mapsto> (frame, flags)) \<and>
          valid a' \<and> issued a \<subseteq> issued a' \<and> avail a \<le> avail a' + 3))"

section \<open>The interface of a frame allocator\<close>

text \<open>A number of successive allocations, with their results in order.\<close>

fun allocate_many :: "'a allocate \<Rightarrow> nat \<Rightarrow> 'a \<Rightarrow> (u64 option list \<times> 'a) outcome" where
  "allocate_many allocate 0 a = Ret ([], a)"
| "allocate_many allocate (Suc n) a =
     obind (allocate a) (\<lambda>(f, a). obind (allocate_many allocate n a) (\<lambda>(fs, a). Ret (f # fs, a)))"

text \<open>
  As long as frames are available, \<open>allocate\<close> returns one that it never returned before and
  that is good (in the allocator's sense of a frame that may be used); then it returns none.
\<close>

locale frame_source =
  fixes allocate :: "'a \<Rightarrow> (u64 option \<times> 'a) outcome"
    and valid :: "'a \<Rightarrow> bool"
    and issued :: "'a \<Rightarrow> u64 set"
    and avail :: "'a \<Rightarrow> nat"
    and good :: "u64 \<Rightarrow> bool"
  assumes allocate_some: "valid a \<Longrightarrow> 0 < avail a \<Longrightarrow>
      \<exists>f a'. allocate a = Ret (Some f, a') \<and> good f \<and> f \<notin> issued a \<and>
        valid a' \<and> issued a' = insert f (issued a) \<and> Suc (avail a') = avail a"
    and allocate_none: "valid a \<Longrightarrow> avail a = 0 \<Longrightarrow> \<exists>a'. allocate a = Ret (None, a')"
begin

lemma map_pages_ok:
  assumes "mapper_ok valid issued avail map_to translate"
    and "valid a" "4 * length pages \<le> avail a" "distinct pages" "\<forall>page \<in> set pages. translate m page = None"
  shows "\<exists>m' a' fs. map_pages allocate map_to pages m a = Ret (Inr (), m', a') \<and>
    length fs = length pages \<and> distinct fs \<and> set fs \<inter> issued a = {} \<and> (\<forall>f \<in> set fs. good f) \<and>
    translate m' = (translate m)(pages [\<mapsto>] map (\<lambda>f. (f, HEAP_FLAGS)) fs)"
  using assms(2-)
proof (induction pages arbitrary: m a)
  case Nil
  then show ?case by simp
next
  case (Cons page pages)
  obtain f a1 where f: "allocate a = Ret (Some f, a1)" "good f" "f \<notin> issued a" "valid a1"
    "issued a1 = insert f (issued a)" "Suc (avail a1) = avail a"
    using allocate_some [of a] Cons.prems by auto
  have "valid a1 \<and> 3 \<le> avail a1 \<and> translate m page = None" using f Cons.prems by auto
  then obtain m2 a2 where m: "map_to page f HEAP_FLAGS m a1 = Ret (Inr (), m2, a2)"
    "translate m2 = (translate m)(page \<mapsto> (f, HEAP_FLAGS))"
    "valid a2" "issued a1 \<subseteq> issued a2" "avail a1 \<le> avail a2 + 3"
    using assms(1) unfolding mapper_ok_def by blast
  have "4 * length pages \<le> avail a2" "\<forall>page \<in> set pages. translate m2 page = None" "distinct pages"
    using Cons.prems f m by auto
  then obtain m' a' fs where r: "map_pages allocate map_to pages m2 a2 = Ret (Inr (), m', a')"
    "length fs = length pages" "distinct fs" "set fs \<inter> issued a2 = {}" "\<forall>f \<in> set fs. good f"
    "translate m' = (translate m2)(pages [\<mapsto>] map (\<lambda>f. (f, HEAP_FLAGS)) fs)"
    using Cons.IH [OF m(3)] by blast
  have "map_pages allocate map_to (page # pages) m a = Ret (Inr (), m', a')" using f m r by simp
  moreover have "distinct (f # fs)" "set (f # fs) \<inter> issued a = {}" using f m r by auto
  ultimately show ?case using f(2) m(2) r
    by (intro exI [of _ m'] exI [of _ a'] exI [of _ "f # fs"]) simp
qed

lemma allocate_many_fresh:
  assumes "valid a" "n \<le> avail a"
  shows "\<exists>fs a'. allocate_many allocate n a = Ret (map Some fs, a') \<and> length fs = n \<and> distinct fs \<and>
    set fs \<inter> issued a = {} \<and> issued a' = issued a \<union> set fs \<and> (\<forall>f \<in> set fs. good f) \<and>
    valid a' \<and> avail a' = avail a - n"
  using assms
proof (induction n arbitrary: a)
  case (Suc n)
  obtain f a1 where f: "allocate a = Ret (Some f, a1)" "good f" "f \<notin> issued a" "valid a1"
    "issued a1 = insert f (issued a)" "Suc (avail a1) = avail a"
    using allocate_some [of a] Suc.prems by auto
  have "n \<le> avail a1" using f Suc.prems by simp
  then obtain fs a' where r: "allocate_many allocate n a1 = Ret (map Some fs, a')" "length fs = n" "distinct fs"
    "set fs \<inter> issued a1 = {}" "issued a' = issued a1 \<union> set fs" "\<forall>f \<in> set fs. good f" "valid a'" "avail a' = avail a1 - n"
    using Suc.IH [OF f(4)] by blast
  have "allocate_many allocate (Suc n) a = Ret (map Some (f # fs), a')" using f r by simp
  moreover have "distinct (f # fs)" "set (f # fs) \<inter> issued a = {}" "issued a' = issued a \<union> set (f # fs)"
    using f r by auto
  moreover have "avail a' = avail a - Suc n" using f r by simp
  ultimately show ?case using f(2) r by (intro exI [of _ "f # fs"] exI [of _ a']) simp
qed simp

lemma map_pages_exhausted:
  "valid a \<Longrightarrow> avail a = 0 \<Longrightarrow>
   \<exists>a'. map_pages allocate map_to (page # pages) m a = Ret (Inl FrameAllocationFailed, m, a')"
  using allocate_none [of a] by auto

end

section \<open>The boot allocator as a frame source\<close>

text \<open>
  A memory map as the bootloader builds it: regions aligned to pages, below the 52-bit limit
  of physical addresses, and usable regions that do not overlap.
\<close>

definition region_ok :: "memory_region \<Rightarrow> bool" where
  "region_ok r \<longleftrightarrow> 4096 dvd unat (region_start r) \<and> 4096 dvd unat (region_end r) \<and>
     unat (region_end r) \<le> 2 ^ 52"

definition disjoint_regions :: "memory_region \<Rightarrow> memory_region \<Rightarrow> bool" where
  "disjoint_regions r s \<longleftrightarrow> region_end r \<le> region_start s \<or> region_end s \<le> region_start r"

definition memory_map_ok :: "memory_region list \<Rightarrow> bool" where
  "memory_map_ok regions \<longleftrightarrow>
     (\<forall>r \<in> set (filter region_usable regions). region_ok r) \<and> sorted_wrt disjoint_regions (filter region_usable regions)"

text \<open>A page-aligned frame inside a usable region.\<close>

definition usable_frame :: "memory_region list \<Rightarrow> u64 \<Rightarrow> bool" where
  "usable_frame regions f \<longleftrightarrow>
     (\<exists>r \<in> set regions. region_usable r \<and> 4096 dvd unat f \<and> unat (region_start r) \<le> unat f \<and>
        unat f + 4096 \<le> unat (region_end r))"

definition boot_valid :: "x86_64 \<Rightarrow> memory_region list \<Rightarrow> boot_info_frame_allocator \<Rightarrow> bool" where
  "boot_valid x regions a \<longleftrightarrow>
     x86_64_ok x \<and> memory_regions a = regions \<and> memory_map_ok regions \<and> unat (next_frame a) \<le> length (usable_addrs a) \<and>
     length (usable_addrs a) < 2 ^ 64 - 1"

definition boot_issued :: "boot_info_frame_allocator \<Rightarrow> u64 set" where
  "boot_issued a = set (take (unat (next_frame a)) (usable_addrs a))"

definition boot_avail :: "boot_info_frame_allocator \<Rightarrow> nat" where
  "boot_avail a = length (usable_addrs a) - unat (next_frame a)"

lemma region_addr:
  assumes "region_ok r" "a \<in> set (region_addrs r)"
  shows "4096 dvd unat a" "unat (region_start r) \<le> unat a" "unat a + 4096 \<le> unat (region_end r)"
proof -
  obtain s e where s: "unat (region_start r) = 4096 * s" and e: "unat (region_end r) = 4096 * e"
    using assms(1) unfolding region_ok_def by (metis dvdE)
  obtain i where "i \<in> set [0..<(4096 * e - 4096 * s + 4095) div 4096]" and a: "a = region_start r + of_nat (4096 * i)"
    using assms(2) unfolding region_addrs_def s e set_map by blast
  then have i: "i < (4096 * e - 4096 * s + 4095) div 4096" by simp
  have "(4096 * e - 4096 * s + 4095) div 4096 = e - s" by (simp add: diff_mult_distrib2 [symmetric])
  with i have se: "s + i < e" by simp
  have "4096 * e \<le> 2 ^ 52" using assms(1) e by (simp add: region_ok_def)
  with se have "4096 * s + 4096 * i < 2 ^ 64" by simp
  then have "unat a = 4096 * (s + i)"
    unfolding a using s unat_add_of_nat [of "region_start r" "4096 * i"] by simp
  then show "4096 dvd unat a" "unat (region_start r) \<le> unat a" "unat a + 4096 \<le> unat (region_end r)"
    using s e se by simp_all
qed

lemma region_addrs_distinct:
  assumes "region_ok r"
  shows "distinct (region_addrs r)"
proof -
  let ?n = "(unat (region_end r) - unat (region_start r) + 4095) div 4096"
  have "unat (region_end r) - unat (region_start r) \<le> 2 ^ 52"
    using assms unfolding region_ok_def by (meson diff_le_self le_trans)
  then have "unat (region_end r) - unat (region_start r) + 4095 < Suc (2 ^ 40) * 4096" by simp
  then have n: "?n < Suc (2 ^ 40)" by (rule less_mult_imp_div_less)
  have "inj_on (\<lambda>i. region_start r + of_nat (4096 * i)) {0..<?n}"
  proof (rule inj_onI)
    fix i j
    assume ij: "i \<in> {0..<?n}" "j \<in> {0..<?n}"
      and "region_start r + of_nat (4096 * i) = region_start r + of_nat (4096 * j)"
    then have "unat (of_nat (4096 * i) :: u64) = unat (of_nat (4096 * j) :: u64)" by (metis add_left_imp_eq)
    moreover have "4096 * i < 2 ^ 64" "4096 * j < 2 ^ 64" using ij n by auto
    ultimately have "4096 * i = 4096 * j" by (simp only: unat_of_nat_u64)
    then show "i = j" by simp
  qed
  then show ?thesis unfolding region_addrs_def by (simp add: distinct_map)
qed

lemma usable_addrs_distinct:
  assumes "memory_map_ok (memory_regions a)"
  shows "distinct (usable_addrs a)"
proof -
  have "distinct (concat (map region_addrs rs))"
    if "\<forall>r \<in> set rs. region_ok r" "sorted_wrt disjoint_regions rs" for rs
    using that
  proof (induction rs)
    case (Cons r rs)
    have "set (region_addrs r) \<inter> set (region_addrs s) = {}" if "s \<in> set rs" for s
      using that Cons.prems region_addr [of r] region_addr [of s]
      by (fastforce simp: disjoint_regions_def word_le_nat_alt)
    with Cons show ?case by (auto simp: region_addrs_distinct)
  qed simp
  with assms show ?thesis by (simp add: usable_addrs_def memory_map_ok_def)
qed

lemma usable_addr_frame:
  assumes "memory_map_ok (memory_regions a)" "f \<in> set (usable_addrs a)"
  shows "usable_frame (memory_regions a) f"
  using assms region_addr unfolding usable_frame_def memory_map_ok_def usable_addrs_def by fastforce

lemma nth_frame_eq:
  assumes "x86_64_ok x" "\<forall>f \<in> set addrs. 4096 dvd unat f \<and> unat f < 2 ^ 52"
  shows "nth_frame x n addrs = Ret (if n < length addrs then Some (addrs ! n) else None)"
  using assms(2)
proof (induction addrs arbitrary: n)
  case (Cons addr addrs)
  have p: "phys_addr_new x addr = Ret addr" using Cons.prems assms(1) by (simp add: x86_64_ok_def)
  have "unat (frame_containing x addr) = unat addr" using Cons.prems assms(1) by (simp add: x86_64_ok_def)
  then have f: "frame_containing x addr = addr" by (rule unsigned_word_eqI)
  show ?case using Cons by (cases n) (simp_all add: p f)
qed simp

lemma allocate_frame_eq:
  assumes "boot_valid x regions a"
  shows "allocate_frame x prof a =
    Ret (if unat (next_frame a) < length (usable_addrs a) then Some (usable_addrs a ! unat (next_frame a)) else None,
         a\<lparr>next_frame := next_frame a + 1\<rparr>)"
proof -
  have "\<forall>f \<in> set (usable_addrs a). 4096 dvd unat f \<and> unat f < 2 ^ 52"
    using assms usable_addr_frame [of a] unfolding boot_valid_def
    by (fastforce simp: usable_frame_def memory_map_ok_def region_ok_def)
  then have "nth_frame x (unat (next_frame a)) (usable_addrs a) =
    Ret (if unat (next_frame a) < length (usable_addrs a) then Some (usable_addrs a ! unat (next_frame a)) else None)"
    using assms by (intro nth_frame_eq) (simp_all add: boot_valid_def)
  moreover have "arith_add prof (next_frame a) 1 = Ret (next_frame a + 1)"
    using assms by (intro arith_add_ok) (simp add: boot_valid_def)
  ultimately show ?thesis by (simp add: allocate_frame_def)
qed

lemma usable_addrs_next [simp]: "usable_addrs (a\<lparr>next_frame := n\<rparr>) = usable_addrs a"
  by (simp add: usable_addrs_def)

interpretation boot_frames: frame_source "allocate_frame x prof" "boot_valid x regions" boot_issued boot_avail
  "usable_frame regions" for x prof regions
proof
  fix a
  assume a: "boot_valid x regions a" "0 < boot_avail a"
  let ?n = "unat (next_frame a)"
  let ?a = "a\<lparr>next_frame := next_frame a + 1\<rparr>"
  have lt: "?n < length (usable_addrs a)" using a by (simp add: boot_avail_def)
  have n: "unat (next_frame a + 1) = Suc ?n"
    using unat_add_of_nat [of "next_frame a" 1] lt a(1) by (simp add: boot_valid_def)
  have "distinct (usable_addrs a)" using a by (simp add: boot_valid_def usable_addrs_distinct)
  then have new: "usable_addrs a ! ?n \<notin> boot_issued a"
    using lt by (auto simp: boot_issued_def in_set_conv_nth nth_eq_iff_index_eq)
  have "usable_frame regions (usable_addrs a ! ?n)"
    using a lt usable_addr_frame [of a] by (simp add: boot_valid_def)
  moreover have "boot_issued ?a = insert (usable_addrs a ! ?n) (boot_issued a)"
    using lt by (simp add: boot_issued_def n take_Suc_conv_app_nth)
  moreover have "boot_valid x regions ?a" "Suc (boot_avail ?a) = boot_avail a"
    using a(1) lt by (simp_all add: boot_valid_def boot_avail_def n)
  ultimately show "\<exists>f a'. allocate_frame x prof a = Ret (Some f, a') \<and> usable_frame regions f \<and> f \<notin> boot_issued a \<and>
      boot_valid x regions a' \<and> boot_issued a' = insert f (boot_issued a) \<and> Suc (boot_avail a') = boot_avail a"
    using new lt allocate_frame_eq [OF a(1), of prof] by auto
next
  fix a
  assume "boot_valid x regions a" "boot_avail a = 0"
  then show "\<exists>a'. allocate_frame x prof a = Ret (None, a')"
    using allocate_frame_eq [of x regions a prof] by (auto simp: boot_avail_def)
qed

lemma usable_frame_addr:
  assumes "memory_map_ok (memory_regions a)" "usable_frame (memory_regions a) f"
  shows "f \<in> set (usable_addrs a)"
proof -
  obtain r where r: "r \<in> set (memory_regions a)" "region_usable r" "4096 dvd unat f"
    "unat (region_start r) \<le> unat f" "unat f + 4096 \<le> unat (region_end r)"
    using assms(2) by (auto simp: usable_frame_def)
  have "region_ok r" using assms(1) r by (simp add: memory_map_ok_def)
  then have "4096 dvd unat f - unat (region_start r)" using r by (simp add: region_ok_def dvd_diff_nat)
  then obtain i where i: "unat f = unat (region_start r) + 4096 * i" using r(4) by (metis dvdE le_add_diff_inverse)
  have "unat f < 2 ^ LENGTH(64)" by (rule unsigned_less)
  then have "unat (region_start r + of_nat (4096 * i)) = unat f"
    using unat_add_of_nat [of "region_start r" "4096 * i"] i by simp
  then have f: "f = region_start r + of_nat (4096 * i)" by (intro unat_eqI) simp
  have "4096 * Suc i \<le> unat (region_end r) - unat (region_start r) + 4095" using i r(5) by simp
  then have "Suc i \<le> (unat (region_end r) - unat (region_start r) + 4095) div 4096"
    by (simp add: less_eq_div_iff_mult_less_eq mult.commute)
  then have "f \<in> set (region_addrs r)" unfolding region_addrs_def f set_map by (intro imageI) simp
  with r show ?thesis by (auto simp: usable_addrs_def)
qed

lemma usable_addrs_set:
  "memory_map_ok (memory_regions a) \<Longrightarrow> set (usable_addrs a) = {f. usable_frame (memory_regions a) f}"
  using usable_addr_frame usable_frame_addr by blast

lemma usable_addrs_length:
  assumes "memory_map_ok (memory_regions a)"
  shows "length (usable_addrs a) \<le> 2 ^ 52"
proof -
  have "unat ` set (usable_addrs a) \<subseteq> {..<2 ^ 52}"
    using usable_addr_frame [OF assms] assms
    by (fastforce simp: usable_frame_def memory_map_ok_def region_ok_def)
  then have "card (unat ` set (usable_addrs a)) \<le> card {..<(2 :: nat) ^ 52}" by (intro card_mono) simp
  moreover have "card (unat ` set (usable_addrs a)) = card (set (usable_addrs a))"
    by (intro card_image inj_onI unsigned_word_eqI)
  ultimately show ?thesis using distinct_card [OF usable_addrs_distinct [OF assms]] by simp
qed

lemma boot_valid_init:
  assumes "x86_64_ok x" "memory_map_ok regions"
  shows "boot_valid x regions (frame_allocator_init regions)"
  using assms usable_addrs_length [of "frame_allocator_init regions"]
  by (simp add: boot_valid_def frame_allocator_init_def)

section \<open>The heap\<close>

definition heap_page :: "nat \<Rightarrow> u64" where
  "heap_page i = HEAP_START + of_nat (4096 * i)"

lemma heap_pages_eq:
  assumes "x86_64_ok x"
  shows "heap_pages x = Ret (map heap_page [0..<512])"
proof -
  have c: "unat (HEAP_START + HEAP_SIZE) = 0x444444640000" "unat HEAP_START = 0x444444440000" "unat HEAP_SIZE = 0x200000"
    "unat (HEAP_START + HEAP_SIZE - 1) = 0x44444463FFFF"
    by (simp_all add: HEAP_START_def HEAP_SIZE_def)
  have "virt_addr_new x HEAP_START = Ret HEAP_START" using assms c by (simp add: x86_64_ok_def)
  moreover have "virt_add x HEAP_START HEAP_SIZE = Ret (HEAP_START + HEAP_SIZE)" using assms c by (simp add: x86_64_ok_def)
  moreover have "virt_sub x (HEAP_START + HEAP_SIZE) 1 = Ret (HEAP_START + HEAP_SIZE - 1)"
    using assms c by (simp add: x86_64_ok_def)
  moreover have p: "unat (page_containing x HEAP_START) = 0x444444440000"
    "unat (page_containing x (HEAP_START + HEAP_SIZE - 1)) = 0x44444463F000"
    using assms c by (simp_all add: x86_64_ok_def)
  moreover have "page_containing x HEAP_START = HEAP_START" using p(1) c(2) by (intro unat_eqI) simp
  moreover have "page_range_inclusive x HEAP_START (page_containing x (HEAP_START + HEAP_SIZE - 1)) =
    map (\<lambda>i. HEAP_START + of_nat (4096 * i)) [0..<512]"
    using assms c p unfolding x86_64_ok_def by simp
  ultimately show ?thesis by (simp add: heap_pages_def heap_page_def)
qed

lemma heap_page_distinct: "distinct (map heap_page [0..<512])"
proof -
  have "inj_on heap_page {0..<512}"
  proof (rule inj_onI)
    fix i j :: nat
    assume ij: "i \<in> {0..<512}" "j \<in> {0..<512}" and "heap_page i = heap_page j"
    then have "unat (of_nat (4096 * i) :: u64) = unat (of_nat (4096 * j) :: u64)"
      unfolding heap_page_def by (metis add_left_imp_eq)
    moreover have "4096 * i < 2 ^ 64" "4096 * j < 2 ^ 64" using ij by auto
    ultimately have "4096 * i = 4096 * j" by (simp only: unat_of_nat_u64)
    then show "i = j" by simp
  qed
  then show ?thesis by (simp add: distinct_map)
qed

lemma map_upds_nth:
  "distinct xs \<Longrightarrow> length xs = length ys \<Longrightarrow> i < length xs \<Longrightarrow> (m(xs [\<mapsto>] ys)) (xs ! i) = Some (ys ! i)"
proof (induction xs arbitrary: m ys i)
  case (Cons x xs)
  then obtain y zs where "ys = y # zs" by (cases ys) auto
  with Cons show ?case by (cases i) auto
qed simp

section \<open>An instance of the parameters\<close>

text \<open>
  The crate's functions on 47-bit virtual addresses, a mapper whose page tables are a map and
  need no frames, and a machine with 16 MiB of usable memory at 1 MiB.
\<close>

definition x86_64_sample :: x86_64 where
  "x86_64_sample =
     \<lparr>phys_addr_new = (\<lambda>a. if unat a < 2 ^ 52 then Ret a else Panic (Explicit ''physical address'')),
      frame_containing = (\<lambda>a. of_nat (unat a div 4096 * 4096)),
      virt_addr_new = (\<lambda>a. if unat a < 2 ^ 47 then Ret a else Panic (Explicit ''virtual address'')),
      virt_add = (\<lambda>a b. if unat a + unat b < 2 ^ 47 then Ret (a + b) else Panic (Explicit ''virtual address'')),
      virt_sub = (\<lambda>a b. if unat b \<le> unat a then Ret (a - b) else Panic (Explicit ''virtual address'')),
      page_containing = (\<lambda>a. of_nat (unat a div 4096 * 4096)),
      page_range_inclusive = (\<lambda>a b. map (\<lambda>i. a + of_nat (4096 * i)) [0..<(unat b - unat a + 4096) div 4096])\<rparr>"

definition map_to_sample ::
    "(u64 \<rightharpoonup> u64 \<times> page_table_flag set, boot_info_frame_allocator) map_to" where
  "map_to_sample page frame flags m a =
     Ret (if m page = None then (Inr (), m(page \<mapsto> (frame, flags)), a) else (Inl PageAlreadyMapped, m, a))"

definition boot_sample :: boot_info where
  "boot_sample =
     \<lparr>physical_memory_offset = Some 0x10000000000,
      boot_memory_regions =
        [\<lparr>region_start = 0, region_end = 0x9FC00, region_usable = False\<rparr>,
         \<lparr>region_start = 0x100000, region_end = 0x1100000, region_usable = True\<rparr>]\<rparr>"

lemma x86_64_sample_ok: "x86_64_ok x86_64_sample"
proof -
  have "unat (of_nat (unat a div 4096 * 4096) :: u64) = unat a div 4096 * 4096" for a :: u64
  proof (rule unat_of_nat_u64)
    have "unat a < 2 ^ LENGTH(64)" by (rule unsigned_less)
    then show "unat a div 4096 * 4096 < 2 ^ 64" using div_times_less_eq_dividend [of "unat a" 4096] by simp
  qed
  then show ?thesis by (simp add: x86_64_ok_def x86_64_sample_def)
qed

lemma boot_sample_ok:
  "memory_map_ok (boot_memory_regions boot_sample)"
  "card {f. usable_frame (boot_memory_regions boot_sample) f} = 4096"
proof -
  let ?a = "frame_allocator_init (boot_memory_regions boot_sample)"
  show ok: "memory_map_ok (boot_memory_regions boot_sample)"
    by (simp add: boot_sample_def memory_map_ok_def region_ok_def)
  have "length (usable_addrs ?a) = 4096"
    by (simp add: boot_sample_def frame_allocator_init_def usable_addrs_def region_addrs_def)
  then show "card {f. usable_frame (boot_memory_regions boot_sample) f} = 4096"
    using usable_addrs_set [of ?a] distinct_card [OF usable_addrs_distinct, of ?a] ok
    by (simp add: frame_allocator_init_def)
qed

lemma map_to_sample_ok: "mapper_ok valid issued avail map_to_sample (\<lambda>m. m)"
  by (simp add: mapper_ok_def map_to_sample_def)

text \<open>
  Memory initialisation sets up the whole kernel heap: with at least 2048 usable frames, a heap
  range that is not mapped yet and a mapper that works as documented, it succeeds and has mapped each
  of the 512 pages to a usable frame of its own, changing no other mapping.
\<close>

lemma memory_init_ok:
  fixes map_to :: "('m, boot_info_frame_allocator) map_to"
  assumes "x86_64_ok x" "memory_map_ok (boot_memory_regions boot)"
    and "physical_memory_offset boot = Some off" "unat off + unat cr3 < 2 ^ 47"
    and "mapper_ok (boot_valid x (boot_memory_regions boot)) boot_issued boot_avail map_to translate"
    and "2048 \<le> card {f. usable_frame (boot_memory_regions boot) f}"
    and "\<forall>i<512. translate (offset_page_table (off + cr3, off)) (heap_page i) = None"
  shows "\<exists>m a fs. memory_init x prof map_to offset_page_table cr3 boot = Ret (m, a, HEAP_START, HEAP_SIZE) \<and>
    length fs = 512 \<and> distinct fs \<and> (\<forall>f \<in> set fs. usable_frame (boot_memory_regions boot) f) \<and>
    (\<forall>i<512. translate m (heap_page i) = Some (fs ! i, HEAP_FLAGS)) \<and>
    (\<forall>page. page \<notin> heap_page ` {..<512} \<longrightarrow>
       translate m page = translate (offset_page_table (off + cr3, off)) page)"
proof -
  let ?r = "boot_memory_regions boot"
  let ?a = "frame_allocator_init ?r"
  let ?m = "offset_page_table (off + cr3, off)"
  have "memory_regions ?a = ?r" by (simp add: frame_allocator_init_def)
  then have "boot_avail ?a = card {f. usable_frame ?r f}"
    using usable_addrs_set [of ?a] distinct_card [OF usable_addrs_distinct, of ?a] assms(2)
    by (simp add: boot_avail_def frame_allocator_init_def)
  then have "4 * length (map heap_page [0..<512]) \<le> boot_avail ?a" using assms(6) by simp
  moreover have "\<forall>page \<in> set (map heap_page [0..<512]). translate ?m page = None" using assms(7) by simp
  ultimately obtain m a fs where
    r: "map_pages (allocate_frame x prof) map_to (map heap_page [0..<512]) ?m ?a = Ret (Inr (), m, a)"
    "length fs = 512" "distinct fs" "\<forall>f \<in> set fs. usable_frame ?r f"
    "translate m = (translate ?m)(map heap_page [0..<512] [\<mapsto>] map (\<lambda>f. (f, HEAP_FLAGS)) fs)"
    using boot_frames.map_pages_ok [OF assms(5) boot_valid_init [OF assms(1,2)] _ heap_page_distinct, of ?m prof] by auto
  have off: "virt_addr_new x off = Ret off" "virt_add x off cr3 = Ret (off + cr3)"
    using assms(1,4) by (simp_all add: x86_64_ok_def)
  have "memory_init x prof map_to offset_page_table cr3 boot = Ret (m, a, HEAP_START, HEAP_SIZE)"
    using r(1) by (simp add: memory_init_def assms(3) off paging_init_def active_level_4_table_def init_heap_def
        heap_pages_eq [OF assms(1)])
  moreover have "\<forall>i<512. translate m (heap_page i) = Some (fs ! i, HEAP_FLAGS)"
    using map_upds_nth [OF heap_page_distinct, of "map (\<lambda>f. (f, HEAP_FLAGS)) fs" _ "translate ?m"] r(2,5) by simp
  moreover have "\<forall>page. page \<notin> heap_page ` {..<512} \<longrightarrow> translate m page = translate ?m page"
    using r(5) by (auto simp: atLeast0LessThan intro!: map_upds_apply_nontin)
  ultimately show ?thesis using r(2-4) by blast
qed

lemma memory_init_no_frames:
  assumes "x86_64_ok x" "memory_map_ok (boot_memory_regions boot)"
    and "physical_memory_offset boot = Some off" "unat off + unat cr3 < 2 ^ 47"
    and "\<forall>f. \<not> usable_frame (boot_memory_regions boot) f"
  shows "memory_init x prof map_to offset_page_table cr3 boot = Panic (Explicit ''kernel heap initialization failed'')"
proof -
  let ?a = "frame_allocator_init (boot_memory_regions boot)"
  have "boot_avail ?a = 0"
    using usable_addrs_set [of ?a] assms(2,5) by (simp add: boot_avail_def frame_allocator_init_def)
  moreover have "map heap_page [0..<512] = heap_page 0 # map heap_page [1..<512]" by (simp add: upt_conv_Cons)
  ultimately show ?thesis
    using boot_frames.map_pages_exhausted [OF boot_valid_init [OF assms(1,2)], of prof map_to "heap_page 0"
        "map heap_page [1..<512]" "offset_page_table (off + cr3, off)"] assms(1,3,4)
    by (auto simp: memory_init_def x86_64_ok_def paging_init_def active_level_4_table_def init_heap_def
        heap_pages_eq [OF assms(1)])
qed

section \<open>Properties\<close>

text \<open>
  Claim C12.  On a memory map with page-aligned, non-overlapping usable regions below the
  52-bit limit, the frame allocator hands out every frame of the usable regions, and nothing
  else, exactly once, and then reports that no frame is left.
\<close>

theorem usable_frames_allocated_once:
  assumes "x86_64_ok x" "memory_map_ok regions"
  shows "\<exists>fs a. allocate_many (allocate_frame x prof) (length fs) (frame_allocator_init regions) = Ret (map Some fs, a) \<and>
    distinct fs \<and> set fs = {f. usable_frame regions f} \<and> (\<exists>b. allocate_frame x prof a = Ret (None, b))"
proof -
  let ?a = "frame_allocator_init regions"
  have n: "boot_avail ?a = length (usable_addrs ?a)" "boot_issued ?a = {}" "memory_regions ?a = regions"
    by (simp_all add: boot_avail_def boot_issued_def frame_allocator_init_def)
  obtain fs a where r: "allocate_many (allocate_frame x prof) (boot_avail ?a) ?a = Ret (map Some fs, a)"
    "length fs = boot_avail ?a" "distinct fs" "\<forall>f \<in> set fs. usable_frame regions f" "boot_valid x regions a" "boot_avail a = 0"
    using boot_frames.allocate_many_fresh [of x regions ?a "boot_avail ?a" prof] boot_valid_init [OF assms] by auto
  have "set fs = {f. usable_frame regions f}"
  proof (rule card_subset_eq)
    have u: "{f. usable_frame regions f} = set (usable_addrs ?a)" using usable_addrs_set [of ?a] n assms(2) by simp
    show "finite {f. usable_frame regions f}" unfolding u by simp
    show "set fs \<subseteq> {f. usable_frame regions f}" using r(4) by blast
    show "card (set fs) = card {f. usable_frame regions f}"
      unfolding u using r(2,3) n assms(2) by (simp add: distinct_card usable_addrs_distinct)
  qed
  then show ?thesis using r boot_frames.allocate_none [OF r(5,6), of prof] by metis
qed

theorem usable_frames_allocated_once_witness:
  "\<exists>fs a. allocate_many (allocate_frame x86_64_sample Dev) (length fs)
      (frame_allocator_init (boot_memory_regions boot_sample)) = Ret (map Some fs, a) \<and>
    distinct fs \<and> set fs = {f. usable_frame (boot_memory_regions boot_sample) f} \<and>
    (\<exists>b. allocate_frame x86_64_sample Dev a = Ret (None, b))"
  by (rule usable_frames_allocated_once [OF x86_64_sample_ok boot_sample_ok(1)])

end
