(* ===== verification/Pci.thy ===== *)
theory Pci
  imports Prelude
begin

text \<open>
  PCI enumeration (\<open>kernel/src/drivers/pci.rs\<close>) and the drivers that bind to a PCI device
  (\<open>ahci.rs\<close>, \<open>nvme.rs\<close>, \<open>audio/hda.rs\<close>, \<open>network/e1000.rs\<close>, \<open>usb/xhci.rs\<close>) or to none
  (\<open>bluetooth/hci.rs\<close>).  The machine's ports are a parameter: \<open>outl\<close> and \<open>inl\<close> act on a
  hardware state, and \<open>config_mechanism\<close> is what the PCI specification promises of the two
  configuration ports.
\<close>

section \<open>Configuration space\<close>

record 'hw ports =
  outl :: "u16 \<Rightarrow> u32 \<Rightarrow> 'hw \<Rightarrow> 'hw"
  inl :: "u16 \<Rightarrow> 'hw \<Rightarrow> u32 \<times> 'hw"

definition CONFIG_ADDRESS :: u16 where
  "CONFIG_ADDRESS = 0xCF8"

definition CONFIG_DATA :: u16 where
  "CONFIG_DATA = 0xCFC"

record pci_device =
  pci_bus :: u8
  pci_dev :: u8
  pci_function :: u8
  vendor_id :: u16
  device_id :: u16
  pci_class :: u8
  pci_subclass :: u8
  prog_if :: u8
  revision :: u8
  header_type :: u8

definition config_address :: "u8 \<Rightarrow> u8 \<Rightarrow> u8 \<Rightarrow> u8 \<Rightarrow> u32" where
  "config_address bus dev func off =
     push_bit 31 1 OR push_bit 16 (ucast bus) OR push_bit 11 (ucast dev) OR push_bit 8 (ucast func) OR
     (ucast off AND 0xFC)"

definition config_read32 :: "'hw ports \<Rightarrow> u8 \<Rightarrow> u8 \<Rightarrow> u8 \<Rightarrow> u8 \<Rightarrow> 'hw \<Rightarrow> u32 \<times> 'hw" where
  "config_read32 io bus dev func off h =
     inl io CONFIG_DATA (outl io CONFIG_ADDRESS (config_address bus dev func off) h)"

definition config_write32 :: "'hw ports \<Rightarrow> u8 \<Rightarrow> u8 \<Rightarrow> u8 \<Rightarrow> u8 \<Rightarrow> u32 \<Rightarrow> 'hw \<Rightarrow> 'hw" where
  "config_write32 io bus dev func off value h =
     outl io CONFIG_DATA value (outl io CONFIG_ADDRESS (config_address bus dev func off) h)"

definition config_read16 :: "'hw ports \<Rightarrow> u8 \<Rightarrow> u8 \<Rightarrow> u8 \<Rightarrow> u8 \<Rightarrow> 'hw \<Rightarrow> u16 \<times> 'hw" where
  "config_read16 io bus dev func off h =
     (let (dword, h) = config_read32 io bus dev func (off AND NOT 2) h;
          shift = (off AND 2) * 8
      in (ucast (drop_bit (unat shift) dword), h))"

definition read_bar :: "profile \<Rightarrow> 'hw ports \<Rightarrow> pci_device \<Rightarrow> u8 \<Rightarrow> 'hw \<Rightarrow> (u32 \<times> 'hw) outcome" where
  "read_bar prof io d bar_index h =
     obind (arith_mul prof bar_index 4) (\<lambda>k.
       obind (arith_add prof 0x10 k) (\<lambda>off.
         Ret (config_read32 io (pci_bus d) (pci_dev d) (pci_function d) off h)))"

section \<open>Enumeration\<close>

definition device_exists :: "'hw ports \<Rightarrow> u8 \<Rightarrow> u8 \<Rightarrow> u8 \<Rightarrow> 'hw \<Rightarrow> bool \<times> 'hw" where
  "device_exists io bus dev func h =
     (let (dword, h) = config_read32 io bus dev func 0 h; vendor = dword AND 0xFFFF in (vendor \<noteq> 0xFFFF, h))"

definition probe :: "'hw ports \<Rightarrow> u8 \<Rightarrow> u8 \<Rightarrow> u8 \<Rightarrow> 'hw \<Rightarrow> pci_device option \<times> 'hw" where
  "probe io bus dev func h =
     (let (exists, h) = device_exists io bus dev func h
      in if \<not> exists then (None, h)
         else let (dw0, h) = config_read32 io bus dev func 0 h;
                  (dw2, h) = config_read32 io bus dev func 8 h;
                  (dw3, h) = config_read32 io bus dev func 0xC h
              in (Some \<lparr>pci_bus = bus, pci_dev = dev, pci_function = func,
                         vendor_id = ucast (dw0 AND 0xFFFF), device_id = ucast (drop_bit 16 dw0),
                         pci_class = ucast (drop_bit 24 dw2 AND 0xFF),
                         pci_subclass = ucast (drop_bit 16 dw2 AND 0xFF),
                         prog_if = ucast (drop_bit 8 dw2 AND 0xFF), revision = ucast (dw2 AND 0xFF),
                         header_type = ucast (drop_bit 16 dw3 AND 0xFF)\<rparr>, h))"

text \<open>The loops of \<open>enumerate\<close>, innermost first.\<close>

fun probe_functions :: "'hw ports \<Rightarrow> u8 \<Rightarrow> u8 \<Rightarrow> nat list \<Rightarrow> 'hw \<Rightarrow> pci_device list \<times> 'hw" where
  "probe_functions io bus dev [] h = ([], h)"
| "probe_functions io bus dev (func # funcs) h =
     (let (found, h) = probe io bus dev (of_nat func) h;
          (devices, h) = probe_functions io bus dev funcs h
      in ((case found of None \<Rightarrow> devices | Some d \<Rightarrow> d # devices), h))"

definition probe_slot :: "'hw ports \<Rightarrow> u8 \<Rightarrow> u8 \<Rightarrow> 'hw \<Rightarrow> pci_device list \<times> 'hw" where
  "probe_slot io bus dev h =
     (case probe io bus dev 0 h of
        (None, h) \<Rightarrow> ([], h)
      | (Some d, h) \<Rightarrow>
          (let multi_function = header_type d AND 0x80 \<noteq> 0
           in if multi_function then let (devices, h) = probe_functions io bus dev [1..<8] h in (d # devices, h)
              else ([d], h)))"

fun probe_slots :: "'hw ports \<Rightarrow> u8 \<Rightarrow> nat list \<Rightarrow> 'hw \<Rightarrow> pci_device list \<times> 'hw" where
  "probe_slots io bus [] h = ([], h)"
| "probe_slots io bus (dev # devs) h =
     (let (found, h) = probe_slot io bus (of_nat dev) h; (devices, h) = probe_slots io bus devs h
      in (found @ devices, h))"

fun probe_buses :: "'hw ports \<Rightarrow> nat list \<Rightarrow> 'hw \<Rightarrow> pci_device list \<times> 'hw" where
  "probe_buses io [] h = ([], h)"
| "probe_buses io (bus # buses) h =
     (let (found, h) = probe_slots io (of_nat bus) [0..<32] h; (devices, h) = probe_buses io buses h
      in (found @ devices, h))"

definition enumerate_pci :: "'hw ports \<Rightarrow> 'hw \<Rightarrow> pci_device list \<times> 'hw" where
  "enumerate_pci io h = probe_buses io [0..<256] h"

section \<open>Log lines\<close>

text \<open>Hexadecimal digits padded with zeros to a width, as \<open>{:02x}\<close>; \<open>{:#06x}\<close> counts the \<open>0x\<close> in the width.\<close>

definition pad_hex :: "nat \<Rightarrow> nat \<Rightarrow> string" where
  "pad_hex width n = (let s = show_hex n in replicate (width - length s) CHR ''0'' @ s)"

definition show_location :: "pci_device \<Rightarrow> string" where
  "show_location d =
     pad_hex 2 (unat (pci_bus d)) @ '':'' @ pad_hex 2 (unat (pci_dev d)) @ ''.'' @ show_nat (unat (pci_function d))"

definition device_line :: "pci_device \<Rightarrow> string" where
  "device_line d =
     ''[PCI] '' @ show_location d @ '' '' @ [CHR 0xE2, CHR 0x80, CHR 0x94] @
     '' vendor=0x'' @ pad_hex 4 (unat (vendor_id d)) @ '' device=0x'' @ pad_hex 4 (unat (device_id d)) @
     '' class=0x'' @ pad_hex 2 (unat (pci_class d)) @ ''/0x'' @ pad_hex 2 (unat (pci_subclass d)) @ [CHR 0x0A]"

text \<open>\<open>pci::init\<close>: the text sent to the serial port, and the hardware afterwards.\<close>

definition pci_init :: "'hw ports \<Rightarrow> 'hw \<Rightarrow> string \<times> 'hw" where
  "pci_init io h =
     (let (devices, h) = enumerate_pci io h
      in (concat (map device_line devices) @
          ''[PCI] Found '' @ show_nat (length devices) @ '' device(s)'' @ [CHR 0x0A], h))"

section \<open>Drivers\<close>

text \<open>
  Each \<open>probe\<close> returns the bound controller, if any, with the text sent to the serial port.  A
  controller holds nothing but its PCI device.
\<close>

definition AHCI_CLASS :: u8 where "AHCI_CLASS = 0x01"
definition AHCI_SUBCLASS :: u8 where "AHCI_SUBCLASS = 0x06"
definition AHCI_PROG_IF :: u8 where "AHCI_PROG_IF = 0x01"
definition NVME_CLASS :: u8 where "NVME_CLASS = 0x01"
definition NVME_SUBCLASS :: u8 where "NVME_SUBCLASS = 0x08"
definition HDA_CLASS :: u8 where "HDA_CLASS = 0x04"
definition HDA_SUBCLASS :: u8 where "HDA_SUBCLASS = 0x03"
definition E1000_VENDOR :: u16 where "E1000_VENDOR = 0x8086"
definition E1000_DEVICE :: u16 where "E1000_DEVICE = 0x100E"
definition XHCI_CLASS :: u8 where "XHCI_CLASS = 0x0C"
definition XHCI_SUBCLASS :: u8 where "XHCI_SUBCLASS = 0x03"
definition XHCI_PROG_IF :: u8 where "XHCI_PROG_IF = 0x30"

datatype ahci_controller = AhciController pci_device
datatype nvme_controller = NvmeController pci_device
datatype hda_controller = HdaController pci_device
datatype e1000_driver = E1000Driver pci_device
datatype xhci_controller = XhciController pci_device
datatype bluetooth_hci = BluetoothHci

definition ahci_probe :: "pci_device \<Rightarrow> ahci_controller option \<times> string" where
  "ahci_probe pci =
     (if pci_class pci = AHCI_CLASS \<and> pci_subclass pci = AHCI_SUBCLASS \<and> prog_if pci = AHCI_PROG_IF
      then (Some (AhciController pci), ''[AHCI] Found controller at '' @ show_location pci @ [CHR 0x0A])
      else (None, ''''))"

definition ahci_read_sectors :: "u8 \<Rightarrow> u64 \<Rightarrow> u16 \<Rightarrow> u8 list \<Rightarrow> string + unit" where
  "ahci_read_sectors port lba count buf = Inl ''AHCI driver not yet implemented''"

definition ahci_write_sectors :: "u8 \<Rightarrow> u64 \<Rightarrow> u16 \<Rightarrow> u8 list \<Rightarrow> string + unit" where
  "ahci_write_sectors port lba count buf = Inl ''AHCI driver not yet implemented''"

definition nvme_probe :: "pci_device \<Rightarrow> nvme_controller option \<times> string" where
  "nvme_probe pci =
     (if pci_class pci = NVME_CLASS \<and> pci_subclass pci = NVME_SUBCLASS
      then (Some (NvmeController pci), ''[NVMe] Found controller at '' @ show_location pci @ [CHR 0x0A])
      else (None, ''''))"

definition nvme_read_blocks :: "u64 \<Rightarrow> u32 \<Rightarrow> u8 list \<Rightarrow> string + unit" where
  "nvme_read_blocks lba count buf = Inl ''NVMe driver not yet implemented''"

definition nvme_write_blocks :: "u64 \<Rightarrow> u32 \<Rightarrow> u8 list \<Rightarrow> string + unit" where
  "nvme_write_blocks lba count buf = Inl ''NVMe driver not yet implemented''"

definition hda_probe :: "pci_device \<Rightarrow> hda_controller option \<times> string" where
  "hda_probe pci =
     (if pci_class pci = HDA_CLASS \<and> pci_subclass pci = HDA_SUBCLASS
      then (Some (HdaController pci), ''[HDA] Found audio controller at '' @ show_location pci @ [CHR 0x0A])
      else (None, ''''))"

definition hda_play_pcm :: "16 word list \<Rightarrow> string + unit" where
  "hda_play_pcm samples = Inl ''HDA driver not yet implemented''"

definition e1000_probe :: "pci_device \<Rightarrow> e1000_driver option \<times> string" where
  "e1000_probe pci =
     (if vendor_id pci = E1000_VENDOR \<and> device_id pci = E1000_DEVICE
      then (Some (E1000Driver pci), ''[e1000] Found NIC at '' @ show_location pci @ [CHR 0x0A])
      else (None, ''''))"

definition e1000_send :: "u8 list \<Rightarrow> string + unit" where
  "e1000_send frame = Inl ''e1000 driver not yet implemented''"

definition e1000_recv :: "u8 list \<Rightarrow> string + nat" where
  "e1000_recv buf = Inl ''e1000 driver not yet implemented''"

definition xhci_probe :: "pci_device \<Rightarrow> xhci_controller option \<times> string" where
  "xhci_probe pci =
     (if pci_class pci = XHCI_CLASS \<and> pci_subclass pci = XHCI_SUBCLASS \<and> prog_if pci = XHCI_PROG_IF
      then (Some (XhciController pci), ''[xHCI] Found USB 3 controller at '' @ show_location pci @ [CHR 0x0A])
      else (None, ''''))"

definition xhci_enumerate_devices :: "string + unit" where
  "xhci_enumerate_devices = Inl ''xHCI driver not yet implemented''"

definition hci_init :: "(string + bluetooth_hci) \<times> string" where
  "hci_init = (Inr BluetoothHci, ''[BT] Bluetooth HCI stub initialized'' @ [CHR 0x0A])"

definition hci_send_command :: "u16 \<Rightarrow> u8 list \<Rightarrow> string + unit" where
  "hci_send_command opcode params = Inl ''Bluetooth HCI not yet implemented''"

definition hci_read_event :: "u8 list \<Rightarrow> string + nat" where
  "hci_read_event buf = Inl ''Bluetooth HCI not yet implemented''"

section \<open>What the configuration ports do\<close>

text \<open>
  Configuration mechanism 1 of the PCI specification: reading the data port after writing an
  address to the address port returns the register at that address, and reading changes no
  register.  \<open>config\<close> gives the registers of a hardware state.
\<close>

definition config_mechanism :: "'hw ports \<Rightarrow> ('hw \<Rightarrow> u32 \<Rightarrow> u32) \<Rightarrow> bool" where
  "config_mechanism io config \<longleftrightarrow>
     (\<forall>h a. fst (inl io CONFIG_DATA (outl io CONFIG_ADDRESS a h)) = config h a \<and>
       config (snd (inl io CONFIG_DATA (outl io CONFIG_ADDRESS a h))) = config h)"

text \<open>The function at a bus, device and function number, by its registers.\<close>

definition function_present :: "(u32 \<Rightarrow> u32) \<Rightarrow> u8 \<Rightarrow> u8 \<Rightarrow> u8 \<Rightarrow> bool" where
  "function_present c bus dev func \<longleftrightarrow> c (config_address bus dev func 0) AND 0xFFFF \<noteq> 0xFFFF"

definition device_at :: "(u32 \<Rightarrow> u32) \<Rightarrow> u8 \<Rightarrow> u8 \<Rightarrow> u8 \<Rightarrow> pci_device" where
  "device_at c bus dev func =
     (let dw0 = c (config_address bus dev func 0); dw2 = c (config_address bus dev func 8);
          dw3 = c (config_address bus dev func 0xC)
      in \<lparr>pci_bus = bus, pci_dev = dev, pci_function = func,
          vendor_id = ucast (dw0 AND 0xFFFF), device_id = ucast (drop_bit 16 dw0),
          pci_class = ucast (drop_bit 24 dw2 AND 0xFF), pci_subclass = ucast (drop_bit 16 dw2 AND 0xFF),
          prog_if = ucast (drop_bit 8 dw2 AND 0xFF), revision = ucast (dw2 AND 0xFF),
          header_type = ucast (drop_bit 16 dw3 AND 0xFF)\<rparr>)"

text \<open>A function is reached if it is function 0, or if function 0 says that the device has several.\<close>

definition function_listed :: "(u32 \<Rightarrow> u32) \<Rightarrow> u8 \<Rightarrow> u8 \<Rightarrow> nat \<Rightarrow> bool" where
  "function_listed c bus dev func \<longleftrightarrow>
     function_present c bus dev 0 \<and>
     (func = 0 \<or> header_type (device_at c bus dev 0) AND 0x80 \<noteq> 0 \<and> function_present c bus dev (of_nat func))"

definition location :: "pci_device \<Rightarrow> nat" where
  "location d = 256 * unat (pci_bus d) + (8 * unat (pci_dev d) + unat (pci_function d))"

section \<open>Enumeration against the registers\<close>

lemma config_read32_ok:
  assumes "config_mechanism io config"
  obtains h' where "config_read32 io bus dev func off h = (config h (config_address bus dev func off), h')"
    "config h' = config h"
  using assms unfolding config_mechanism_def config_read32_def by (metis prod.collapse)

lemma probe_ok:
  assumes "config_mechanism io config"
  shows "\<exists>h'. probe io bus dev func h =
      (if function_present (config h) bus dev func then Some (device_at (config h) bus dev func) else None, h') \<and>
    config h' = config h"
proof -
  obtain h1 where 1: "config_read32 io bus dev func 0 h = (config h (config_address bus dev func 0), h1)" "config h1 = config h"
    by (rule config_read32_ok [OF assms])
  obtain h2 where 2: "config_read32 io bus dev func 0 h1 = (config h1 (config_address bus dev func 0), h2)" "config h2 = config h1"
    by (rule config_read32_ok [OF assms])
  obtain h3 where 3: "config_read32 io bus dev func 8 h2 = (config h2 (config_address bus dev func 8), h3)" "config h3 = config h2"
    by (rule config_read32_ok [OF assms])
  obtain h4 where 4: "config_read32 io bus dev func 0xC h3 = (config h3 (config_address bus dev func 0xC), h4)" "config h4 = config h3"
    by (rule config_read32_ok [OF assms])
  show ?thesis
    by (cases "function_present (config h) bus dev func")
      (simp_all add: probe_def device_exists_def 1 2 3 4 function_present_def device_at_def Let_def)
qed

lemma probe_functions_ok:
  assumes "config_mechanism io config"
  shows "\<exists>h'. probe_functions io bus dev funcs h =
      (map (\<lambda>f. device_at (config h) bus dev (of_nat f)) (filter (\<lambda>f. function_present (config h) bus dev (of_nat f)) funcs), h') \<and>
    config h' = config h"
proof (induction funcs arbitrary: h)
  case (Cons f fs)
  obtain h1 where 1: "probe io bus dev (of_nat f) h =
      (if function_present (config h) bus dev (of_nat f) then Some (device_at (config h) bus dev (of_nat f)) else None, h1)"
    "config h1 = config h"
    using probe_ok [OF assms] by blast
  show ?case using Cons.IH [of h1] by (auto simp: 1)
qed simp

lemma probe_slot_ok:
  assumes "config_mechanism io config"
  shows "\<exists>h'. probe_slot io bus dev h =
      (map (\<lambda>f. device_at (config h) bus dev (of_nat f)) (filter (function_listed (config h) bus dev) [0..<8]), h') \<and>
    config h' = config h"
proof -
  obtain h1 where 1: "probe io bus dev 0 h =
      (if function_present (config h) bus dev 0 then Some (device_at (config h) bus dev 0) else None, h1)" "config h1 = config h"
    using probe_ok [OF assms] by blast
  obtain h2 where 2: "probe_functions io bus dev [1..<8] h1 =
      (map (\<lambda>f. device_at (config h1) bus dev (of_nat f)) (filter (\<lambda>f. function_present (config h1) bus dev (of_nat f)) [1..<8]), h2)"
    "config h2 = config h1"
    using probe_functions_ok [OF assms] by blast
  have u: "[0..<8] = 0 # [1..<8]" by (simp add: upt_conv_Cons)
  have "filter (function_listed (config h) bus dev) [1..<8] =
    (if function_present (config h) bus dev 0 \<and> header_type (device_at (config h) bus dev 0) AND 0x80 \<noteq> 0
     then filter (\<lambda>f. function_present (config h) bus dev (of_nat f)) [1..<8] else [])"
    by (auto simp: function_listed_def intro!: filter_cong filter_False)
  then show ?thesis by (auto simp: probe_slot_def u 1 2 2(1) [simplified] function_listed_def [of _ _ _ 0])
qed

text \<open>The devices enumeration finds behind one slot and on one bus, by the registers.\<close>

definition slot_devices :: "(u32 \<Rightarrow> u32) \<Rightarrow> nat \<Rightarrow> nat \<Rightarrow> pci_device list" where
  "slot_devices c bus dev =
     map (\<lambda>f. device_at c (of_nat bus) (of_nat dev) (of_nat f)) (filter (function_listed c (of_nat bus) (of_nat dev)) [0..<8])"

definition bus_devices :: "(u32 \<Rightarrow> u32) \<Rightarrow> nat \<Rightarrow> pci_device list" where
  "bus_devices c bus = concat (map (slot_devices c bus) [0..<32])"

lemma probe_slots_ok:
  assumes "config_mechanism io config"
  shows "\<exists>h'. probe_slots io (of_nat bus) devs h = (concat (map (slot_devices (config h) bus) devs), h') \<and>
    config h' = config h"
proof (induction devs arbitrary: h)
  case (Cons d devs)
  obtain h1 where 1: "probe_slot io (of_nat bus) (of_nat d) h = (slot_devices (config h) bus d, h1)" "config h1 = config h"
    unfolding slot_devices_def using probe_slot_ok [OF assms] by blast
  show ?case using Cons.IH [of h1] by (auto simp: 1)
qed simp

lemma probe_buses_ok:
  assumes "config_mechanism io config"
  shows "\<exists>h'. probe_buses io buses h = (concat (map (bus_devices (config h)) buses), h') \<and> config h' = config h"
proof (induction buses arbitrary: h)
  case (Cons b buses)
  obtain h1 where 1: "probe_slots io (of_nat b) [0..<32] h = (bus_devices (config h) b, h1)" "config h1 = config h"
    unfolding bus_devices_def using probe_slots_ok [OF assms] by blast
  show ?case using Cons.IH [of h1] by (auto simp: 1)
qed simp

text \<open>Chunks with increasing keys, each within its own range, are increasing as a whole.\<close>

lemma sorted_chunks:
  fixes key :: "'a \<Rightarrow> nat"
  assumes "\<And>i. i < n \<Longrightarrow> sorted_wrt (\<lambda>x y. key x < key y) (chunk i)"
    and "\<And>i x. i < n \<Longrightarrow> x \<in> set (chunk i) \<Longrightarrow> base + k * i \<le> key x \<and> key x < base + k * Suc i"
  shows "sorted_wrt (\<lambda>x y. key x < key y) (concat (map chunk [0..<n])) \<and>
    (\<forall>x \<in> set (concat (map chunk [0..<n])). base \<le> key x \<and> key x < base + k * n)"
  using assms
proof (induction n)
  case (Suc n)
  have IH: "sorted_wrt (\<lambda>x y. key x < key y) (concat (map chunk [0..<n]))"
    "\<forall>x \<in> set (concat (map chunk [0..<n])). base \<le> key x \<and> key x < base + k * n"
    using Suc by auto
  have c: "base + k * n \<le> key x \<and> key x < base + k * Suc n" if "x \<in> set (chunk n)" for x
    using Suc.prems(2) [of n x] that by simp
  have "sorted_wrt (\<lambda>x y. key x < key y) (concat (map chunk [0..<Suc n]))"
    using IH Suc.prems(1) [of n] c by (fastforce simp: sorted_wrt_append)
  moreover have "base \<le> key x \<and> key x < base + k * Suc n" if "x \<in> set (concat (map chunk [0..<Suc n]))" for x
    using IH(2) c that by (fastforce simp: trans_less_add1)
  ultimately show ?case by blast
qed simp

lemma location_device_at [simp]:
  "location (device_at c bus dev func) = 256 * unat bus + (8 * unat dev + unat func)"
  by (simp add: location_def device_at_def Let_def)

lemma slot_devices_sorted:
  assumes "bus < 256" "dev < 32"
  shows "sorted_wrt (\<lambda>x y. location x < location y) (slot_devices c bus dev)"
    and "x \<in> set (slot_devices c bus dev) \<Longrightarrow>
      256 * bus + 8 * dev \<le> location x \<and> location x < 256 * bus + 8 * Suc dev"
proof -
  have "sorted_wrt (<) (filter (function_listed c (of_nat bus) (of_nat dev)) [0..<8])"
    by (intro sorted_wrt_filter) simp
  then show "sorted_wrt (\<lambda>x y. location x < location y) (slot_devices c bus dev)"
    unfolding slot_devices_def sorted_wrt_map
    by (rule sorted_wrt_mono_rel [rotated]) (auto simp: unat_of_nat_u8)
  show "x \<in> set (slot_devices c bus dev) \<Longrightarrow>
      256 * bus + 8 * dev \<le> location x \<and> location x < 256 * bus + 8 * Suc dev"
    using assms by (auto simp: slot_devices_def unat_of_nat_u8)
qed

lemma bus_devices_sorted:
  assumes "bus < 256"
  shows "sorted_wrt (\<lambda>x y. location x < location y) (bus_devices c bus) \<and>
    (\<forall>x \<in> set (bus_devices c bus). 256 * bus \<le> location x \<and> location x < 256 * bus + 256)"
  using sorted_chunks [of 32 location "slot_devices c bus" "256 * bus" 8] assms slot_devices_sorted
  by (auto simp: bus_devices_def)

lemma enumerate_pci_ok:
  assumes "config_mechanism io config"
  obtains h' where "enumerate_pci io h = (concat (map (bus_devices (config h)) [0..<256]), h')" "config h' = config h"
  using probe_buses_ok [OF assms, of "[0..<256]" h] unfolding enumerate_pci_def by blast

lemma bit_below:
  fixes w :: u8
  assumes "unat w < 2 ^ k" "bit w n"
  shows "n < k"
proof (rule ccontr)
  assume "\<not> n < k"
  then have "unat w < 2 ^ n" using assms(1) by (meson linorder_not_less less_le_trans one_le_numeral power_increasing)
  moreover have "bit (unat w) n" using assms(2) by (simp add: bit_unsigned_iff)
  ultimately show False by (simp add: bit_iff_odd)
qed

lemma mask_bits: "bit (0x1F :: u8) n \<longleftrightarrow> n < 5" "bit (0x07 :: u8) n \<longleftrightarrow> n < 3" "bit (0xFC :: u32) n \<longleftrightarrow> 2 \<le> n \<and> n < 8" "bit (0xFC :: u8) n \<longleftrightarrow> 2 \<le> n \<and> n < 8"
proof -
  have "(0x1F :: u8) = mask 5" "(0x07 :: u8) = mask 3" "(0xFC :: u8) = push_bit 2 (mask 6)" "(0xFC :: u32) = push_bit 2 (mask 6)" by (simp_all add: mask_eq_exp_minus_1 push_bit_eq_mult)
  then show "bit (0x1F :: u8) n \<longleftrightarrow> n < 5" "bit (0x07 :: u8) n \<longleftrightarrow> n < 3" "bit (0xFC :: u32) n \<longleftrightarrow> 2 \<le> n \<and> n < 8" "bit (0xFC :: u8) n \<longleftrightarrow> 2 \<le> n \<and> n < 8"
    by (auto simp only: bit_simps)  (auto)
qed
text \<open>The address of a register determines the bus, the device, the function and the register.\<close>

lemma bit_config_address:
  assumes "unat dev < 32" "unat func < 8"
  shows "bit (config_address bus dev func off) n \<longleftrightarrow>
    (if n = 31 then True else if 16 \<le> n then n < 24 \<and> bit bus (n - 16)
     else if 11 \<le> n then bit dev (n - 11) else if 8 \<le> n then bit func (n - 8) else 2 \<le> n \<and> bit off n)"
proof -
  have "bit (config_address bus dev func off) n \<longleftrightarrow>
    n = 31 \<or> (16 \<le> n \<and> n < 32 \<and> bit bus (n - 16)) \<or> (11 \<le> n \<and> n < 32 \<and> bit dev (n - 11)) \<or>
    (8 \<le> n \<and> n < 32 \<and> bit func (n - 8)) \<or> (n < 32 \<and> bit off n \<and> 2 \<le> n \<and> n < 8)"
    unfolding config_address_def bit_or_iff bit_and_iff mask_bits(3) bit_push_bit_iff bit_unsigned_iff bit_1_iff
    by (auto simp: possible_bit_def)
  then show ?thesis
    using bit_below [of dev 5 "n - 11"] bit_below [of func 3 "n - 8"] assms bit_imp_le_length [of bus "n - 16"]
    by (cases "n = 31"; cases "16 \<le> n"; cases "11 \<le> n"; cases "8 \<le> n") auto
qed

lemma config_address_inject:
  assumes "unat dev < 32" "unat func < 8" "unat dev' < 32" "unat func' < 8"
  shows "config_address bus dev func off = config_address bus' dev' func' off' \<longleftrightarrow>
    bus = bus' \<and> dev = dev' \<and> func = func' \<and> off AND 0xFC = off' AND 0xFC"
proof
  assume eq: "config_address bus dev func off = config_address bus' dev' func' off'"
  have b: "bit (config_address bus dev func off) n = bit (config_address bus' dev' func' off') n" for n
    by (simp add: eq)
  have "bus = bus'"
  proof (rule bit_word_eqI)
    fix n :: nat
    assume "n < LENGTH(8)"
    then show "bit bus n \<longleftrightarrow> bit bus' n" using b [of "n + 16"] by (simp add: bit_config_address assms)
  qed
  moreover have "dev = dev'"
  proof (rule bit_word_eqI)
    fix n
    show "bit dev n \<longleftrightarrow> bit dev' n"
      using b [of "n + 11"] bit_below [of dev 5 n] bit_below [of dev' 5 n] assms
      by (auto simp: bit_config_address split: if_splits)
  qed
  moreover have "func = func'"
  proof (rule bit_word_eqI)
    fix n
    show "bit func n \<longleftrightarrow> bit func' n"
      using b [of "n + 8"] bit_below [of func 3 n] bit_below [of func' 3 n] assms
      by (auto simp: bit_config_address split: if_splits)
  qed
  moreover have "off AND 0xFC = off' AND 0xFC"
  proof (rule bit_word_eqI)
    fix n
    show "bit (off AND 0xFC) n \<longleftrightarrow> bit (off' AND 0xFC) n"
      unfolding bit_and_iff mask_bits using b [of n] assms by (auto simp: bit_config_address split: if_splits)
  qed
  ultimately show "bus = bus' \<and> dev = dev' \<and> func = func' \<and> off AND 0xFC = off' AND 0xFC" by simp
next
  assume "bus = bus' \<and> dev = dev' \<and> func = func' \<and> off AND 0xFC = off' AND 0xFC"
  moreover have "bit off n = bit off' n" if "2 \<le> n" "off AND 0xFC = off' AND 0xFC" for n
  proof -
    have "n < 8 \<Longrightarrow> bit off n = bit off' n" using that mask_bits(4) [of n] by (metis bit_and_iff)
    then show ?thesis using bit_imp_le_length [of off n] bit_imp_le_length [of off' n] by auto
  qed
  ultimately show "config_address bus dev func off = config_address bus' dev' func' off'"
    using assms by (intro bit_word_eqI) (auto simp: bit_config_address)
qed

section \<open>Properties\<close>


text \<open>A machine with an address latch, and registers of one multi-function device on bus 0 as device 3.\<close>

definition pci_sample_ports :: "(u32 \<times> (u32 \<Rightarrow> u32)) ports" where
  "pci_sample_ports =
     \<lparr>outl = (\<lambda>p v h. if p = CONFIG_ADDRESS then (v, snd h) else (fst h, (snd h)(fst h := v))),
      inl = (\<lambda>p h. (if p = CONFIG_DATA then snd h (fst h) else - 1, h))\<rparr>"

definition pci_sample_registers :: "u32 \<Rightarrow> u32" where
  "pci_sample_registers a =
     (if a = config_address 0 3 0 0 \<or> a = config_address 0 3 2 0 then 0x100E8086
      else if a = config_address 0 3 0 0xC then 0x800000 else - 1)"


text \<open>With overflow checks a base address register index of 60 or more panics; an index below 6 never does.\<close>

lemma read_bar_returns_iff: "returns (read_bar Dev io d i h) \<longleftrightarrow> unat i < 60"
proof (cases "unat i * 4 < 256")
  case True
  then have "arith_mul Dev i 4 = Ret (i * 4)" "unat (i * 4) = unat i * 4"
    by (simp_all add: arith_mul_def unat_word_ariths(2))
  then show ?thesis using True by (auto simp: read_bar_def arith_add_def)
next
  case False
  then show ?thesis by (auto simp: read_bar_def arith_mul_def)
qed

text \<open>The drivers that bind by class never compete for a device.\<close>

lemma class_drivers_exclusive:
  "length (filter (\<lambda>bound. bound) [fst (ahci_probe d) \<noteq> None, fst (nvme_probe d) \<noteq> None, fst (hda_probe d) \<noteq> None,
     fst (xhci_probe d) \<noteq> None]) \<le> 1"
  by (auto simp: ahci_probe_def nvme_probe_def hda_probe_def xhci_probe_def AHCI_CLASS_def AHCI_SUBCLASS_def
      NVME_CLASS_def NVME_SUBCLASS_def HDA_CLASS_def HDA_SUBCLASS_def XHCI_CLASS_def XHCI_SUBCLASS_def)

end
