(* ===== verification/Boot.thy ===== *)
theory Boot
  imports Shell Syscall_Process Memory Pci
begin

text \<open>
  Booting (\<open>kernel/src/main.rs\<close>), the segment tables (\<open>arch/x86_64/gdt.rs\<close>), the serial port
  (\<open>drivers/serial.rs\<close>), the ACPI handler (\<open>drivers/acpi_driver.rs\<close>) and the user-space init program
  (\<open>init/src/main.rs\<close>).  \<open>kernel_main\<close> composes the initialisation of all components on one
  machine state, in the order of the code, up to the start of the shell.  The crates behind them
  are parameters: \<open>x86_64\<close> with its page table mapper and its segment table, the machine's
  ports, the serial port's writer and the ACPI parser.
\<close>

section \<open>Serial port\<close>

definition COM1_PORT :: u16 where
  "COM1_PORT = 0x3F8"

text \<open>\<open>_serial_print\<close>: \<open>write_fmt\<close> sends a text to the port and tells whether it succeeded.\<close>

definition serial_print :: "(u8 list \<Rightarrow> 'u \<Rightarrow> bool \<times> 'u) \<Rightarrow> u8 list \<Rightarrow> 'u \<Rightarrow> 'u outcome" where
  "serial_print write_fmt str port =
     (let (ok, port) = write_fmt str port
      in if ok then Ret port else Panic (Explicit ''serial write failed''))"

text \<open>
  \<open>serial::init\<close> has the crate set up the port at \<open>COM1_PORT\<close>; \<open>serial_println!\<close> adds the newline to
  the text before it is formatted.
\<close>

definition serial_init :: "(u16 \<Rightarrow> 'hw \<Rightarrow> 'hw) \<Rightarrow> 'hw \<Rightarrow> 'hw" where
  "serial_init uart_init h = uart_init COM1_PORT h"

definition serial_println :: "(u8 list \<Rightarrow> 'u \<Rightarrow> bool \<times> 'u) \<Rightarrow> u8 list \<Rightarrow> 'u \<Rightarrow> 'u outcome" where
  "serial_println write_fmt str port = serial_print write_fmt (str @ [0x0A]) port"

section \<open>Segment tables\<close>

definition IST_STACK_SIZE :: u64 where
  "IST_STACK_SIZE = 4096 * 5"

text \<open>The interrupt stacks of the task state segment, by index.\<close>

type_synonym tss = "u16 \<rightharpoonup> u64"

datatype descriptor = kernel_code_segment | kernel_data_segment | user_data_segment | user_code_segment
  | tss_segment tss

record selectors =
  sel_kernel_code :: u16
  sel_kernel_data :: u16
  sel_user_code :: u16
  sel_user_data :: u16
  sel_tss :: u16

text \<open>\<open>GlobalDescriptorTable\<close> of the crate: an empty table, and adding a descriptor, which gives its selector.\<close>

record 'g gdt_crate =
  gdt_new :: 'g
  gdt_append :: "descriptor \<Rightarrow> 'g \<Rightarrow> (u16 \<times> 'g) outcome"

record 'g gdt_holder =
  holder_gdt :: 'g
  holder_selectors :: selectors

text \<open>The statics \<open>TSS\<close> and \<open>GDT\<close>, the table the processor uses and its segment and task registers.\<close>

record 'g segments =
  TSS :: "tss option"
  GDT :: "'g gdt_holder option"
  loaded_gdt :: "'g option"
  reg_cs :: u16
  reg_ds :: u16
  reg_tr :: u16

definition build_tss :: "x86_64 \<Rightarrow> u64 \<Rightarrow> u64 \<Rightarrow> tss outcome" where
  "build_tss x double_fault_stack gpf_stack =
     obind (virt_add x double_fault_stack IST_STACK_SIZE) (\<lambda>df.
     obind (virt_add x gpf_stack IST_STACK_SIZE) (\<lambda>gp.
       Ret [DOUBLE_FAULT_IST_INDEX \<mapsto> df, GPF_IST_INDEX \<mapsto> gp]))"

definition build_gdt :: "'g gdt_crate \<Rightarrow> tss \<Rightarrow> 'g gdt_holder outcome" where
  "build_gdt G t =
     obind (gdt_append G kernel_code_segment (gdt_new G)) (\<lambda>(kernel_code, gdt).
     obind (gdt_append G kernel_data_segment gdt) (\<lambda>(kernel_data, gdt).
     obind (gdt_append G user_data_segment gdt) (\<lambda>(user_data, gdt).
     obind (gdt_append G user_code_segment gdt) (\<lambda>(user_code, gdt).
     obind (gdt_append G (tss_segment t) gdt) (\<lambda>(tss_sel, gdt).
       Ret \<lparr>holder_gdt = gdt,
            holder_selectors = \<lparr>sel_kernel_code = kernel_code, sel_kernel_data = kernel_data,
              sel_user_code = user_code, sel_user_data = user_data, sel_tss = tss_sel\<rparr>\<rparr>)))))"

text \<open>\<open>Once::call_once\<close>: the value is built on the first call only.\<close>

definition call_once :: "'a outcome \<Rightarrow> 'a option \<Rightarrow> 'a outcome" where
  "call_once build cell = (case cell of Some v \<Rightarrow> Ret v | None \<Rightarrow> build)"

definition gdt_init :: "x86_64 \<Rightarrow> 'g gdt_crate \<Rightarrow> u64 \<Rightarrow> u64 \<Rightarrow> 'g segments \<Rightarrow> 'g segments outcome" where
  "gdt_init x G double_fault_stack gpf_stack s =
     obind (call_once (build_tss x double_fault_stack gpf_stack) (TSS s)) (\<lambda>t.
     obind (call_once (build_gdt G t) (GDT s)) (\<lambda>holder.
       Ret (s\<lparr>TSS := Some t, GDT := Some holder, loaded_gdt := Some (holder_gdt holder),
              reg_cs := sel_kernel_code (holder_selectors holder),
              reg_ds := sel_kernel_data (holder_selectors holder),
              reg_tr := sel_tss (holder_selectors holder)\<rparr>)))"

definition kernel_code_selector :: "'g segments \<Rightarrow> u16 outcome" where
  "kernel_code_selector s =
     (case GDT s of
        None \<Rightarrow> Panic (Explicit ''GDT not initialized'')
      | Some holder \<Rightarrow> Ret (sel_kernel_code (holder_selectors holder)))"

section \<open>ACPI\<close>

record kernel_acpi_handler =
  acpi_physical_memory_offset :: u64

record physical_mapping =
  physical_start :: usize
  virtual_start :: u64
  region_length :: usize
  mapped_length :: usize
  mapping_handler :: kernel_acpi_handler

definition map_physical_region ::
    "profile \<Rightarrow> kernel_acpi_handler \<Rightarrow> usize \<Rightarrow> usize \<Rightarrow> physical_mapping outcome" where
  "map_physical_region prof handler physical_address region_size =
     obind (arith_add prof physical_address (acpi_physical_memory_offset handler)) (\<lambda>virt.
       if virt = 0 then Panic (Explicit ''null physical mapping'')
       else Ret \<lparr>physical_start = physical_address, virtual_start = virt, region_length = region_size,
                 mapped_length = region_size, mapping_handler = handler\<rparr>)"

definition unmap_physical_region :: "physical_mapping \<Rightarrow> unit" where
  "unmap_physical_region region = ()"

text \<open>
  \<open>from_rsdp\<close> is the crate's parser and \<open>debug_error\<close> how its error prints; the result is the
  tables, if any, and the text sent to the serial port.
\<close>

definition acpi_init :: "(kernel_acpi_handler \<Rightarrow> usize \<Rightarrow> 'e + 't) \<Rightarrow> ('e \<Rightarrow> string) \<Rightarrow> u64 option \<Rightarrow> u64 \<Rightarrow>
    't option \<times> string" where
  "acpi_init from_rsdp debug_error rsdp_addr offset =
     (case rsdp_addr of
        None \<Rightarrow> (None, '''')
      | Some rsdp \<Rightarrow>
          (case from_rsdp \<lparr>acpi_physical_memory_offset = offset\<rparr> rsdp of
             Inr tables \<Rightarrow> (Some tables, ''[ACPI] Tables parsed successfully'' @ [CHR 0x0A])
           | Inl e \<Rightarrow> (None, ''[ACPI] Failed to parse tables: '' @ debug_error e @ [CHR 0x0A])))"

section \<open>Booting\<close>

text \<open>
  The configuration the bootloader reads from the kernel's image: its defaults (\<open>new_default\<close> of the
  crate, with fields of its own) with a mapping of the physical memory.
\<close>

datatype boot_mapping = Dynamic | FixedAddress u64

record bootloader_config =
  cfg_physical_memory :: "boot_mapping option"

definition BOOTLOADER_CONFIG :: "'c bootloader_config_scheme \<Rightarrow> 'c bootloader_config_scheme" where
  "BOOTLOADER_CONFIG new_default = new_default\<lparr>cfg_physical_memory := Some Dynamic\<rparr>"

text \<open>
  The machine: the statics of the components, the segment tables, the loaded interrupt table,
  the memory set up by \<open>memory::init\<close>, the hardware behind the ports and the interrupt flag.
\<close>

record ('kb, 'g, 'm, 'hw) machine =
  m_kernel :: "'kb kernel"
  m_segments :: "'g segments"
  m_idt :: "idt option"
  m_memory :: "('m \<times> boot_info_frame_allocator \<times> usize \<times> usize) option"
  m_hw :: 'hw
  m_interrupts :: bool

text \<open>What the machine and the crates provide to the boot code.\<close>

record ('g, 'm, 'hw) platform =
  p_x86_64 :: x86_64
  p_gdt :: "'g gdt_crate"
  p_map_to :: "('m, boot_info_frame_allocator) map_to"
  p_offset_page_table :: "u64 \<times> u64 \<Rightarrow> 'm"
  p_cr3 :: u64
  p_double_fault_stack :: u64
  p_gpf_stack :: u64
  p_ports :: "'hw ports"
  p_inb :: "u16 \<Rightarrow> 'hw \<Rightarrow> u8 \<times> 'hw"
  p_uart_init :: "u16 \<Rightarrow> 'hw \<Rightarrow> 'hw"

definition log_line :: "string \<Rightarrow> ('kb, 'g, 'm, 'hw) machine \<Rightarrow> ('kb, 'g, 'm, 'hw) machine" where
  "log_line str s = s\<lparr>m_kernel := (m_kernel s)\<lparr>k_serial := k_serial (m_kernel s) @ bytes str @ [0x0A]\<rparr>\<rparr>"

definition on_kernel :: "('kb kernel \<Rightarrow> 'kb kernel) \<Rightarrow> ('kb, 'g, 'm, 'hw) machine \<Rightarrow> ('kb, 'g, 'm, 'hw) machine" where
  "on_kernel f s = s\<lparr>m_kernel := f (m_kernel s)\<rparr>"

definition KEYBOARD_DATA_PORT :: u16 where
  "KEYBOARD_DATA_PORT = 0x60"

definition keyboard_init :: "(u16 \<Rightarrow> 'hw \<Rightarrow> u8 \<times> 'hw) \<Rightarrow> 'hw \<Rightarrow> 'hw" where
  "keyboard_init inb h = snd (inb KEYBOARD_DATA_PORT h)"

text \<open>\<open>idt::init\<close> and \<open>pci::init\<close> on the machine.\<close>

definition idt_init :: "('kb, 'g, 'm, 'hw) machine \<Rightarrow> ('kb, 'g, 'm, 'hw) machine" where
  "idt_init s = s\<lparr>m_idt := Some idt_build\<rparr>"

definition machine_pci_init :: "'hw ports \<Rightarrow> ('kb, 'g, 'm, 'hw) machine \<Rightarrow> ('kb, 'g, 'm, 'hw) machine" where
  "machine_pci_init io s =
     (let (str, h) = pci_init io (m_hw s)
      in s\<lparr>m_hw := h, m_kernel := (m_kernel s)\<lparr>k_serial := k_serial (m_kernel s) @ bytes str\<rparr>\<rparr>)"

text \<open>\<open>kernel_main\<close> up to the call of \<open>shell::run\<close>.\<close>

definition kernel_main ::
    "profile \<Rightarrow> ('g, 'm, 'hw) platform \<Rightarrow> boot_info \<Rightarrow> ('kb, 'g, 'm, 'hw) machine \<Rightarrow>
     ('kb, 'g, 'm, 'hw) machine outcome" where
  "kernel_main prof P boot s =
     (let s = s\<lparr>m_hw := serial_init (p_uart_init P) (m_hw s)\<rparr>;
          s = log_line ([CHR 0x0A] @ ''[BOOT] ComputeKERNEL v1.0.0 booting...'') s;
          s = on_kernel (on_writer clear) s;
          s = on_kernel (println ''ComputeKERNEL v1.0.0'') s;
          s = log_line ''[BOOT] Initializing GDT...'' s
      in obind (gdt_init (p_x86_64 P) (p_gdt P) (p_double_fault_stack P) (p_gpf_stack P) (m_segments s)) (\<lambda>segs.
         let s = log_line ''[OK]   GDT initialized'' (s\<lparr>m_segments := segs\<rparr>);
             s = idt_init (log_line ''[BOOT] Initializing IDT...'' s);
             s = log_line ''[OK]   IDT initialized'' s;
             s = on_kernel init_pics (log_line ''[BOOT] Initializing PIC...'' s);
             s = log_line ''[OK]   PIC initialized'' s;
             s = log_line ''[BOOT] Initializing memory management...'' s
         in obind (memory_init (p_x86_64 P) prof (p_map_to P) (p_offset_page_table P) (p_cr3 P) boot) (\<lambda>memory.
            let s = log_line ''[OK]   Memory management initialized'' (s\<lparr>m_memory := Some memory\<rparr>);
                s = machine_pci_init (p_ports P) (log_line ''[BOOT] Initializing PCI bus...'' s);
                s = log_line ''[OK]   PCI bus enumerated'' s;
                s = log_line ''[BOOT] Initializing keyboard...'' s;
                s = log_line ''[OK]   Keyboard initialized'' (s\<lparr>m_hw := keyboard_init (p_inb P) (m_hw s)\<rparr>);
                s = log_line ''[BOOT] Initializing scheduler...'' s;
                s = on_kernel (\<lambda>k. k\<lparr>k_procs := process_init (k_procs k)\<rparr>) s;
                s = log_line ''[OK]   Scheduler initialized'' s;
                s = log_line ''[OK]   Interrupts enabled'' (s\<lparr>m_interrupts := True\<rparr>)
            in Ret (log_line (''[BOOT] ComputeKERNEL v1.0.0 ready '' @ [CHR 0xE2, CHR 0x80, CHR 0x94] @
                 '' starting shell'') s))))"

text \<open>The panic handler: the text on both consoles, and then the processor halts with interrupts disabled.\<close>

definition panic_handler :: "string \<Rightarrow> ('kb, 'g, 'm, 'hw) machine \<Rightarrow> ('kb, 'g, 'm, 'hw) machine" where
  "panic_handler info s =
     (let s = log_line ([CHR 0x0A] @ ''[PANIC] '' @ info) (s\<lparr>m_interrupts := False\<rparr>)
      in on_kernel (println ([CHR 0x0A] @ ''KERNEL PANIC: '' @ info)) s)"

text \<open>
  How the message of a panic is displayed, and an exception taken by the processor: whether the
  handler returns, and the machine afterwards.
\<close>

definition panic_info :: "string \<Rightarrow> string \<Rightarrow> string" where
  "panic_info loc message = ''panicked at '' @ loc @ '':'' @ [CHR 0x0A] @ message"

definition take_exception ::
    "'f debug_text \<Rightarrow> u64 \<Rightarrow> string \<Rightarrow> cpu_exception \<Rightarrow> 'f \<Rightarrow> u64 \<Rightarrow> ('kb, 'g, 'm, 'hw) machine \<Rightarrow>
      bool \<times> ('kb, 'g, 'm, 'hw) machine" where
  "take_exception D cr2 loc e frame code s =
     (case exception_handler D cr2 e frame code of
        Inl message \<Rightarrow> (False, panic_handler (panic_info loc message) s)
      | Inr line \<Rightarrow> (True, log_line line s))"

definition alloc_error_handler :: "string \<Rightarrow> 'a outcome" where
  "alloc_error_handler layout = Panic (Explicit (''allocation error: '' @ layout))"

section \<open>The init program\<close>

text \<open>
  What the user-space init program does: messages, programs it runs, and pauses in seconds.  The
  results of the attempts to start a shell are an argument: \<open>Inr\<close> the exit status, \<open>Inl\<close> the error.
\<close>

datatype init_event = Eprintln string | Run_command string "string list" | Sleep nat

definition init_mount :: "string \<Rightarrow> string \<Rightarrow> string \<Rightarrow> init_event list" where
  "init_mount fstype target options =
     [Run_command ''mount'' [''-t'', fstype, ''none'', target, ''-o'', options],
      Eprintln (''[init] mounted '' @ fstype @ '' on '' @ target)]"

fun init_shells :: "(string + string) list \<Rightarrow> init_event list" where
  "init_shells [] = []"
| "init_shells (result # results) =
     [Eprintln ''[init] starting /bin/sh'', Run_command ''/bin/sh'' []] @
     (case result of
        Inr status \<Rightarrow> [Eprintln (''[init] /bin/sh exited with '' @ status)]
      | Inl e \<Rightarrow> [Eprintln (''[init] failed to start /bin/sh: '' @ e), Sleep 1]) @
     init_shells results"

definition init_main :: "(string + string) list \<Rightarrow> init_event list" where
  "init_main results =
     [Eprintln ''[init] PID 1 starting''] @
     init_mount ''proc'' ''/proc'' ''proc'' @ init_mount ''sysfs'' ''/sys'' ''sysfs'' @
     init_mount ''devtmpfs'' ''/dev'' ''devtmpfs'' @
     [Eprintln ''[init] filesystems mounted''] @ init_shells results"

section \<open>What booting needs and what it establishes\<close>

text \<open>
  A segment table with eight entries, the first of which is the null segment: a code or data segment
  takes one entry, a task state segment two, and adding a descriptor that fits succeeds.
\<close>

fun descriptor_entries :: "descriptor \<Rightarrow> nat" where
  "descriptor_entries (tss_segment t) = 2"
| "descriptor_entries d = 1"

definition gdt_crate_ok :: "'g gdt_crate \<Rightarrow> ('g \<Rightarrow> nat) \<Rightarrow> bool" where
  "gdt_crate_ok G entries \<longleftrightarrow>
     entries (gdt_new G) = 1 \<and>
     (\<forall>d g. entries g + descriptor_entries d \<le> 8 \<longrightarrow>
        (\<exists>sel g'. gdt_append G d g = Ret (sel, g') \<and> entries g' = entries g + descriptor_entries d))"

lemma gdt_append_ok:
  assumes "gdt_crate_ok G entries" "entries g + descriptor_entries d \<le> 8"
  obtains sel g' where "gdt_append G d g = Ret (sel, g')" "entries g' = entries g + descriptor_entries d"
  using assms unfolding gdt_crate_ok_def by blast

text \<open>The five descriptors fit the table.\<close>

lemma build_gdt_ok:
  assumes "gdt_crate_ok G entries"
  shows "\<exists>holder. build_gdt G t = Ret holder"
proof -
  have e0: "entries (gdt_new G) = 1" using assms by (simp add: gdt_crate_ok_def)
  obtain s1 g1 where 1: "gdt_append G kernel_code_segment (gdt_new G) = Ret (s1, g1)" "entries g1 = 2"
    by (rule gdt_append_ok [OF assms, of "gdt_new G" kernel_code_segment]) (simp_all add: e0)
  obtain s2 g2 where 2: "gdt_append G kernel_data_segment g1 = Ret (s2, g2)" "entries g2 = 3"
    by (rule gdt_append_ok [OF assms, of g1 kernel_data_segment]) (simp_all add: 1)
  obtain s3 g3 where 3: "gdt_append G user_data_segment g2 = Ret (s3, g3)" "entries g3 = 4"
    by (rule gdt_append_ok [OF assms, of g2 user_data_segment]) (simp_all add: 2)
  obtain s4 g4 where 4: "gdt_append G user_code_segment g3 = Ret (s4, g4)" "entries g4 = 5"
    by (rule gdt_append_ok [OF assms, of g3 user_code_segment]) (simp_all add: 3)
  obtain s5 g5 where 5: "gdt_append G (tss_segment t) g4 = Ret (s5, g5)" "entries g5 = 7"
    by (rule gdt_append_ok [OF assms, of g4 "tss_segment t"]) (simp_all add: 4)
  show ?thesis by (simp add: build_gdt_def 1 2 3 4 5)
qed

lemma gdt_init_ok:
  assumes "x86_64_ok x" "gdt_crate_ok G entries" "unat df + 20480 < 2 ^ 47" "unat gp + 20480 < 2 ^ 47"
    and "TSS s = None" "GDT s = None"
  shows "\<exists>s' holder. gdt_init x G df gp s = Ret s' \<and> GDT s' = Some holder \<and>
    TSS s' = Some [DOUBLE_FAULT_IST_INDEX \<mapsto> df + IST_STACK_SIZE, GPF_IST_INDEX \<mapsto> gp + IST_STACK_SIZE] \<and>
    reg_cs s' = sel_kernel_code (holder_selectors holder)"
proof -
  have "unat IST_STACK_SIZE = 20480" by (simp add: IST_STACK_SIZE_def)
  then have "virt_add x df IST_STACK_SIZE = Ret (df + IST_STACK_SIZE)" "virt_add x gp IST_STACK_SIZE = Ret (gp + IST_STACK_SIZE)"
    using assms(1,3,4) by (simp_all add: x86_64_ok_def)
  then show ?thesis
    using build_gdt_ok [OF assms(2), of "[DOUBLE_FAULT_IST_INDEX \<mapsto> df + IST_STACK_SIZE, GPF_IST_INDEX \<mapsto> gp + IST_STACK_SIZE]"]
    by (auto simp: gdt_init_def call_once_def assms(5,6) build_tss_def)
qed

text \<open>Building the tables a second time changes nothing but reloads them.\<close>

lemma gdt_init_again:
  assumes "gdt_init x G df gp s = Ret s'"
  shows "gdt_init x' G' df' gp' s' = Ret s'"
  using assms by (auto simp: gdt_init_def call_once_def)

lemma kernel_code_selector_init:
  assumes "gdt_init x G df gp s = Ret s'"
  shows "kernel_code_selector s' = Ret (reg_cs s')"
  using assms by (auto simp: gdt_init_def kernel_code_selector_def)

lemma log_line_fields [simp]:
  "m_segments (log_line str s) = m_segments s" "m_idt (log_line str s) = m_idt s" "m_memory (log_line str s) = m_memory s"
  "m_hw (log_line str s) = m_hw s" "m_interrupts (log_line str s) = m_interrupts s"
  "k_procs (m_kernel (log_line str s)) = k_procs (m_kernel s)" "k_writer (m_kernel (log_line str s)) = k_writer (m_kernel s)"
  "k_keyboard (m_kernel (log_line str s)) = k_keyboard (m_kernel s)"
  "k_pic_masks (m_kernel (log_line str s)) = k_pic_masks (m_kernel s)"
  "FD_TABLE (m_kernel (log_line str s)) = FD_TABLE (m_kernel s)" "k_eoi (m_kernel (log_line str s)) = k_eoi (m_kernel s)"
  by (simp_all add: log_line_def)

text \<open>
  The contract of the serial port: a write succeeds and appends to what was sent.  Under it a log is
  the sequence of its lines.
\<close>

locale serial_line =
  fixes write_fmt :: "u8 list \<Rightarrow> 'u \<Rightarrow> bool \<times> 'u"
    and sent :: "'u \<Rightarrow> u8 list"
  assumes write_ok: "fst (write_fmt str port)"
    and write_sent: "sent (snd (write_fmt str port)) = sent port @ str"
begin

lemma print_sent: "\<exists>port'. serial_print write_fmt str port = Ret port' \<and> sent port' = sent port @ str"
  using write_ok [of str port] write_sent [of str port] by (simp add: serial_print_def case_prod_beta)

lemma println_sent: "\<exists>port'. serial_println write_fmt str port = Ret port' \<and> sent port' = sent port @ str @ [0x0A]"
  unfolding serial_println_def using print_sent [of "str @ [0x0A]"] by simp

end

text \<open>The serial port of the kernel state is the text sent; \<open>log_line\<close> is \<open>serial_println!\<close> on it.\<close>

definition serial_text :: "u8 list \<Rightarrow> u8 list \<Rightarrow> bool \<times> u8 list" where
  "serial_text str out = (True, out @ str)"

interpretation kernel_serial: serial_line serial_text "\<lambda>out. out"
  by unfold_locales (simp_all add: serial_text_def)

lemma log_line_serial:
  "serial_println serial_text (bytes str) (k_serial (m_kernel s)) = Ret (k_serial (m_kernel (log_line str s)))"
  using kernel_serial.println_sent [of "bytes str" "k_serial (m_kernel s)"] by (simp add: log_line_def)

text \<open>
  The configuration matters: a bootloader that maps the physical memory when it is asked to reports
  where, and without that \<open>memory::init\<close> panics.
\<close>

definition bootloader_ok :: "('c bootloader_config_scheme \<Rightarrow> boot_info) \<Rightarrow> bool" where
  "bootloader_ok load \<longleftrightarrow> (\<forall>cfg. cfg_physical_memory cfg \<noteq> None \<longrightarrow> physical_memory_offset (load cfg) \<noteq> None)"

lemma configured_offset: "bootloader_ok load \<Longrightarrow> \<exists>off. physical_memory_offset (load (BOOTLOADER_CONFIG new_default)) = Some off"
  by (simp add: bootloader_ok_def BOOTLOADER_CONFIG_def)

lemma kernel_main_needs_offset:
  assumes "physical_memory_offset boot = None"
  shows "\<not> returns (kernel_main prof P boot s)"
  using assms by (auto simp: kernel_main_def memory_init_def Let_def)

lemma machine_pci_init_fields [simp]:
  "m_segments (machine_pci_init io s) = m_segments s" "m_idt (machine_pci_init io s) = m_idt s"
  "m_memory (machine_pci_init io s) = m_memory s" "m_interrupts (machine_pci_init io s) = m_interrupts s"
  "k_procs (m_kernel (machine_pci_init io s)) = k_procs (m_kernel s)"
  "k_writer (m_kernel (machine_pci_init io s)) = k_writer (m_kernel s)"
  "k_keyboard (m_kernel (machine_pci_init io s)) = k_keyboard (m_kernel s)"
  "k_pic_masks (m_kernel (machine_pci_init io s)) = k_pic_masks (m_kernel s)"
  "FD_TABLE (m_kernel (machine_pci_init io s)) = FD_TABLE (m_kernel s)"
  "k_eoi (m_kernel (machine_pci_init io s)) = k_eoi (m_kernel s)"
  by (simp_all add: machine_pci_init_def split: prod.split)

text \<open>The state \<open>kernel_main\<close> ends in, by fields.\<close>

lemma kernel_main_fields:
  assumes "gdt_init (p_x86_64 P) (p_gdt P) (p_double_fault_stack P) (p_gpf_stack P) (m_segments s) = Ret segs"
    and "memory_init (p_x86_64 P) prof (p_map_to P) (p_offset_page_table P) (p_cr3 P) boot = Ret memory"
  shows "\<exists>s'. kernel_main prof P boot s = Ret s' \<and> m_segments s' = segs \<and> m_idt s' = Some idt_build \<and>
    m_memory s' = Some memory \<and> m_interrupts s' \<and> k_procs (m_kernel s') = process_init (k_procs (m_kernel s)) \<and>
    k_writer (m_kernel s') = kprint (bytes ''ComputeKERNEL v1.0.0'' @ [0x0A]) (clear (k_writer (m_kernel s))) \<and>
    k_keyboard (m_kernel s') = k_keyboard (m_kernel s) \<and> k_pic_masks (m_kernel s') = (0xF8, 0xFF) \<and>
    FD_TABLE (m_kernel s') = FD_TABLE (m_kernel s) \<and> k_eoi (m_kernel s') = k_eoi (m_kernel s)"
  using assms
  by (simp add: kernel_main_def Let_def idt_init_def on_kernel_def println_def print_bytes_def on_writer_def init_pics_def)

lemma kernel_main_RetD:
  assumes "kernel_main prof P boot s = Ret s'"
  shows "k_procs (m_kernel s') = process_init (k_procs (m_kernel s)) \<and> k_keyboard (m_kernel s') = k_keyboard (m_kernel s) \<and>
    k_writer (m_kernel s') = kprint (bytes ''ComputeKERNEL v1.0.0'' @ [0x0A]) (clear (k_writer (m_kernel s))) \<and>
    FD_TABLE (m_kernel s') = FD_TABLE (m_kernel s) \<and> k_eoi (m_kernel s') = k_eoi (m_kernel s)"
proof -
  obtain segs where g: "gdt_init (p_x86_64 P) (p_gdt P) (p_double_fault_stack P) (p_gpf_stack P) (m_segments s) = Ret segs"
    using assms by (cases "gdt_init (p_x86_64 P) (p_gdt P) (p_double_fault_stack P) (p_gpf_stack P) (m_segments s)")
      (simp_all add: kernel_main_def Let_def on_kernel_def)
  obtain memory where m: "memory_init (p_x86_64 P) prof (p_map_to P) (p_offset_page_table P) (p_cr3 P) boot = Ret memory"
    using assms g by (cases "memory_init (p_x86_64 P) prof (p_map_to P) (p_offset_page_table P) (p_cr3 P) boot")
      (simp_all add: kernel_main_def Let_def on_kernel_def)
  show ?thesis using kernel_main_fields [OF g m] assms by auto
qed

lemma boot_unmasks: "k_pic_masks s = (0xF8, 0xFF) \<Longrightarrow> irq_unmasked s i \<longleftrightarrow> i = Timer \<or> i = Keyboard \<or> i = Cascade"
  by (cases i) (simp_all add: irq_unmasked_def PIC_1_OFFSET_def Let_def bit_iff_odd)

lemma ist_stacks_exist:
  "idt_exceptions idt_build e = Some (h, Some ist) \<Longrightarrow>
   \<exists>top. [DOUBLE_FAULT_IST_INDEX \<mapsto> df, GPF_IST_INDEX \<mapsto> gp] ist = Some top"
  by (cases e) (auto simp: idt_build_def)

text \<open>
  Only the debug and breakpoint handlers return, and they change the serial output and nothing
  else; every other exception ends in the panic handler, with interrupts disabled and the rest of the
  kernel as it was.
\<close>

lemma take_exception_returns:
  "fst (take_exception D cr2 loc e frame code s) \<longleftrightarrow> e = debug_exn \<or> e = breakpoint"
  by (cases e) (simp_all add: take_exception_def)

lemma take_exception_state:
  fixes s :: "('kb, 'g, 'm, 'hw) machine"
  assumes "take_exception D cr2 loc e frame code s = (r, s')"
  shows "if e = debug_exn \<or> e = breakpoint then \<exists>line. s' = log_line line s
    else \<exists>info. s' = panic_handler info s \<and> \<not> m_interrupts s' \<and>
      k_procs (m_kernel s') = k_procs (m_kernel s) \<and> FD_TABLE (m_kernel s') = FD_TABLE (m_kernel s) \<and>
      k_keyboard (m_kernel s') = k_keyboard (m_kernel s)"
proof -
  have panics: "\<not> m_interrupts (panic_handler info s) \<and> k_procs (m_kernel (panic_handler info s)) = k_procs (m_kernel s) \<and>
      FD_TABLE (m_kernel (panic_handler info s)) = FD_TABLE (m_kernel s) \<and>
      k_keyboard (m_kernel (panic_handler info s)) = k_keyboard (m_kernel s)" for info
    by (simp add: panic_handler_def Let_def on_kernel_def println_def print_bytes_def on_writer_def log_line_def)
  show ?thesis using assms panics by (cases e) (auto simp: take_exception_def)
qed

section \<open>Properties\<close>


text \<open>A segment table that counts its entries, and a machine as the bootloader hands it over.\<close>

definition gdt_sample :: "nat gdt_crate" where
  "gdt_sample =
     \<lparr>gdt_new = 1,
      gdt_append = (\<lambda>d n. if n + descriptor_entries d \<le> 8 then Ret (of_nat (8 * n), n + descriptor_entries d)
                          else Panic (Explicit ''GDT full''))\<rparr>"

definition platform_sample ::
    "(nat, u64 \<rightharpoonup> u64 \<times> page_table_flag set, u32 \<times> (u32 \<Rightarrow> u32)) platform" where
  "platform_sample =
     \<lparr>p_x86_64 = x86_64_sample, p_gdt = gdt_sample, p_map_to = map_to_sample, p_offset_page_table = (\<lambda>_. Map.empty),
      p_cr3 = 0x1000, p_double_fault_stack = 0x200000, p_gpf_stack = 0x210000, p_ports = pci_sample_ports,
      p_inb = (\<lambda>_ h. (0, h)), p_uart_init = (\<lambda>_ h. h)\<rparr>"

definition machine_sample ::
    "(unit, nat, u64 \<rightharpoonup> u64 \<times> page_table_flag set, u32 \<times> (u32 \<Rightarrow> u32)) machine" where
  "machine_sample =
     \<lparr>m_kernel = (user_kernel (\<lambda>_. 0))\<lparr>k_procs := procs_static, k_writer := WRITER (\<lambda>_. 0)\<rparr>,
      m_segments = \<lparr>TSS = None, GDT = None, loaded_gdt = None, reg_cs = 0, reg_ds = 0, reg_tr = 0\<rparr>,
      m_idt = None, m_memory = None, m_hw = (0, pci_sample_registers), m_interrupts = False\<rparr>"

lemma platform_sample_fields:
  "p_x86_64 platform_sample = x86_64_sample" "p_gdt platform_sample = gdt_sample" "p_map_to platform_sample = map_to_sample"
  "p_offset_page_table platform_sample = (\<lambda>_. Map.empty)" "p_cr3 platform_sample = 0x1000"
  "p_double_fault_stack platform_sample = 0x200000" "p_gpf_stack platform_sample = 0x210000"
  by (simp_all add: platform_sample_def)

lemma machine_sample_fields:
  "TSS (m_segments machine_sample) = None" "GDT (m_segments machine_sample) = None"
  "k_procs (m_kernel machine_sample) = procs_static" "k_writer (m_kernel machine_sample) = WRITER (\<lambda>_. 0)"
  by (simp_all add: machine_sample_def)

lemma gdt_sample_ok: "gdt_crate_ok gdt_sample (\<lambda>n. n)"
  by (simp add: gdt_crate_ok_def gdt_sample_def)

lemma boot_sample_facts:
  "physical_memory_offset boot_sample = Some 0x10000000000"
  "2048 \<le> card {f. usable_frame (boot_memory_regions boot_sample) f}"
  using boot_sample_ok by (simp_all add: boot_sample_def)

lemma kernel_main_sample_returns: "\<exists>s'. kernel_main Dev platform_sample boot_sample machine_sample = Ret s'"
proof -
  obtain segs where "gdt_init x86_64_sample gdt_sample 0x200000 0x210000 (m_segments machine_sample) = Ret segs"
    using gdt_init_ok [OF x86_64_sample_ok gdt_sample_ok, of "0x200000" "0x210000" "m_segments machine_sample"]
      machine_sample_fields by auto
  moreover obtain memory where "memory_init x86_64_sample Dev map_to_sample (\<lambda>_. Map.empty) 0x1000 boot_sample = Ret memory"
    using memory_init_ok [where off = "0x10000000000" and ?cr3.0 = "0x1000" and prof = Dev and offset_page_table = "\<lambda>_. Map.empty",
        OF x86_64_sample_ok boot_sample_ok(1) boot_sample_facts(1) _ map_to_sample_ok]
      boot_sample_facts by auto
  ultimately show ?thesis
    using kernel_main_fields [of platform_sample machine_sample segs Dev boot_sample memory]
    by (auto simp: platform_sample_fields)
qed


end
