(* ===== verification/Kernel_System.thy ===== *)
theory Kernel_System
  imports Boot
begin

text \<open>
  The state of the running kernel.  What a sequence of hardware interrupts does to it, exactly; its
  invariant, the conjunction of the components' invariants; and that interrupts, keys and the
  system calls that wait keep the invariant and, under it, do not panic.
\<close>

section \<open>What a sequence of interrupts does\<close>

text \<open>The interrupts of one line in a sequence.\<close>

definition irq_count :: "interrupt_index \<Rightarrow> irqs \<Rightarrow> nat" where
  "irq_count i irqs = length (filter (\<lambda>(j, _). j = i) irqs)"

text \<open>What an interrupt does before it is acknowledged.\<close>

definition irq_effect :: "profile \<Rightarrow> ('kb, 'ev, 'kc) pc_keyboard \<Rightarrow> interrupt_index \<Rightarrow> u8 \<Rightarrow> 'kb kernel \<Rightarrow> 'kb kernel outcome" where
  "irq_effect prof K i data s =
     (if i = Timer then obind (tick prof (k_procs s)) (\<lambda>p. Ret (s\<lparr>k_procs := p\<rparr>))
      else if i = Keyboard then obind (handle_interrupt K data (k_keyboard s)) (\<lambda>k. Ret (s\<lparr>k_keyboard := k\<rparr>))
      else Ret s)"

lemma take_interrupt_eq:
  "take_interrupt prof K (as_u8 i) data s =
     Some (obind (irq_effect prof K i data s) (\<lambda>s. Ret (notify_end_of_interrupt (as_u8 i) s)))"
proof -
  have assoc: "obind (obind a f) g = obind a (\<lambda>x. obind (f x) g)"
    for a :: "'x outcome" and f :: "'x \<Rightarrow> 'y outcome" and g :: "'y \<Rightarrow> 'z outcome"
    by (cases a) simp_all
  show ?thesis
    by (cases i) (simp_all add: take_interrupt_def idt_build_def PIC_1_OFFSET_def irq_effect_def assoc)
qed

text \<open>The bytes the decoder makes of the keyboard interrupts, and the state it is left in.\<close>

definition decode_byte :: "('kb, 'ev, 'kc) pc_keyboard \<Rightarrow> u8 \<Rightarrow> 'kb \<Rightarrow> u8 option \<times> 'kb" where
  "decode_byte K data kb =
     (let (c, k) = decode_scancode K data \<lparr>KEYBOARD = kb, KEY_BUFFER = key_buffer_new, kbd_serial = []\<rparr>
      in (c, KEYBOARD k))"

fun decoded :: "('kb, 'ev, 'kc) pc_keyboard \<Rightarrow> irqs \<Rightarrow> 'kb \<Rightarrow> u8 list \<times> 'kb" where
  "decoded K [] kb = ([], kb)"
| "decoded K ((i, data) # irqs) kb =
     (if i = Keyboard then
        let (c, kb) = decode_byte K data kb; (bs, kb) = decoded K irqs kb
        in (case c of None \<Rightarrow> bs | Some b \<Rightarrow> b # bs, kb)
      else decoded K irqs kb)"

lemma decode_scancode_eq:
  "fst (decode_scancode K data k) = fst (decode_byte K data (KEYBOARD k))"
  "KEYBOARD (snd (decode_scancode K data k)) = snd (decode_byte K data (KEYBOARD k))"
  by (simp_all add: decode_byte_def decode_scancode_def
      split: prod.splits sum.splits option.splits decoded_key.splits)

lemma decoded_append:
  "decoded K (xs @ ys) kb =
     (let (bs, kb) = decoded K xs kb; (cs, kb) = decoded K ys kb in (bs @ cs, kb))"
  by (induction K xs kb rule: decoded.induct) (auto split: prod.splits option.splits)

text \<open>
  What the interrupts from \<open>s\<close> to \<open>s'\<close> did: the timer advanced the clock, the keyboard filled the
  buffer as far as it has room, each was acknowledged, and the rest is as it was.
\<close>

definition interrupted :: "('kb, 'ev, 'kc) pc_keyboard \<Rightarrow> irqs \<Rightarrow> 'kb kernel \<Rightarrow> 'kb kernel \<Rightarrow> bool" where
  "interrupted K irqs s s' \<longleftrightarrow>
     proc_inv (k_procs s') \<and> pids (k_procs s') = pids (k_procs s) \<and> NEXT_PID (k_procs s') = NEXT_PID (k_procs s) \<and>
     unat (TICK (k_procs s')) = unat (TICK (k_procs s)) + irq_count Timer irqs \<and>
     kb_inv (KEY_BUFFER (k_keyboard s')) \<and>
     typed s' = take KEY_BUF_SIZE (typed s @ fst (decoded K irqs (KEYBOARD (k_keyboard s)))) \<and>
     KEYBOARD (k_keyboard s') = snd (decoded K irqs (KEYBOARD (k_keyboard s))) \<and>
     k_eoi s' = k_eoi s @ map (as_u8 \<circ> fst) irqs \<and>
     FD_TABLE s' = FD_TABLE s \<and> k_mem s' = k_mem s \<and> k_writer s' = k_writer s \<and> k_pic_masks s' = k_pic_masks s"

lemma kb_count_le: "kb_inv b \<Longrightarrow> kb_count b \<le> KEY_BUF_SIZE"
  by (simp add: kb_inv_def)

lemma handle_interrupt_decoded:
  assumes "kb_inv (KEY_BUFFER k)"
  shows "\<exists>k'. handle_interrupt K data k = Ret k' \<and> kb_inv (KEY_BUFFER k') \<and>
    kb_contents (KEY_BUFFER k') =
      take KEY_BUF_SIZE (kb_contents (KEY_BUFFER k) @ fst (decoded K [(Keyboard, data)] (KEYBOARD k))) \<and>
    KEYBOARD k' = snd (decoded K [(Keyboard, data)] (KEYBOARD k))"
proof -
  obtain c k1 where d: "decode_scancode K data k = (c, k1)" by fastforce
  then have b: "KEY_BUFFER k1 = KEY_BUFFER k" using decode_scancode_buffer [of K data k] by simp
  have e: "decode_byte K data (KEYBOARD k) = (c, KEYBOARD k1)"
    using decode_scancode_eq [of K data k] by (simp add: d prod_eq_iff)
  show ?thesis
  proof (cases c)
    case None
    then show ?thesis using assms kb_count_le [OF assms] by (simp add: handle_interrupt_def d b e)
  next
    case (Some x)
    obtain q where "push x (KEY_BUFFER k) = Ret q" "kb_inv q" "kb_contents q =
        (if length (kb_contents (KEY_BUFFER k)) < KEY_BUF_SIZE then kb_contents (KEY_BUFFER k) @ [x] else kb_contents (KEY_BUFFER k))"
      using key_fifo.push_ok [OF assms, of x] by blast
    then show ?thesis using kb_count_le [OF assms] by (auto simp: handle_interrupt_def d b e Some)
  qed
qed

lemma take_interrupt_ok:
  assumes "proc_inv (k_procs s)" "unat (TICK (k_procs s)) + 1 < 2 ^ 64" "kb_inv (KEY_BUFFER (k_keyboard s))"
  shows "\<exists>s'. take_interrupt prof K (as_u8 i) data s = Some (Ret s') \<and> interrupted K [(i, data)] s s'"
  using assms tick_ok [OF assms(1,2), of prof] handle_interrupt_decoded [OF assms(3), of K data] kb_count_le [OF assms(3)]
  by (auto simp: take_interrupt_eq irq_effect_def interrupted_def irq_count_def notify_end_of_interrupt_def)

lemma interrupted_trans:
  assumes "interrupted K xs s s1" "interrupted K ys s1 s'"
  shows "interrupted K (xs @ ys) s s'"
proof -
  have "take n (take n zs @ us) = take n (zs @ us)" for n :: nat and zs us :: "u8 list"
    by (cases "length zs \<le> n") simp_all
  then show ?thesis
    using assms by (auto simp: interrupted_def irq_count_def decoded_append simp del: take_append split: prod.splits)
qed

lemma take_interrupts_ok:
  assumes "proc_inv (k_procs s)" "unat (TICK (k_procs s)) + length irqs < 2 ^ 64" "kb_inv (KEY_BUFFER (k_keyboard s))"
  shows "\<exists>s'. take_interrupts prof K irqs s = Ret s' \<and> interrupted K irqs s s'"
  using assms
proof (induction irqs arbitrary: s)
  case Nil
  then show ?case using kb_count_le by (simp add: interrupted_def irq_count_def)
next
  case (Cons irq irqs)
  obtain i data where irq: "irq = (i, data)" by (cases irq)
  have "unat (TICK (k_procs s)) + 1 < 2 ^ 64" using Cons.prems(2) by simp
  then obtain s1 where s1: "take_interrupt prof K (as_u8 i) data s = Some (Ret s1)" "interrupted K [irq] s s1"
    using take_interrupt_ok [OF Cons.prems(1) _ Cons.prems(3)] irq by blast
  moreover have "irq_count Timer [irq] \<le> 1" by (simp add: irq_count_def irq)
  ultimately have "unat (TICK (k_procs s1)) + length irqs < 2 ^ 64"
    using Cons.prems(2) by (simp add: interrupted_def)
  then obtain s' where s': "take_interrupts prof K irqs s1 = Ret s'" "interrupted K irqs s1 s'"
    using Cons.IH [of s1] s1(2) by (auto simp: interrupted_def)
  then show ?case using s1 interrupted_trans [OF s1(2) s'(2)] by (simp add: irq)
qed

section \<open>The invariant of the kernel\<close>

text \<open>
  An open file of a text node stays within a hundred bytes, since no text is longer; the devices that
  return nothing stay at offset 0.
\<close>

definition file_ok :: "open_file \<Rightarrow> bool" where
  "file_ok f \<longleftrightarrow>
     (of_node f \<in> {ProcVersion, ProcUptime, ProcMeminfo, SysHostname} \<longrightarrow> unat (of_offset f) < 100) \<and>
     (of_node f \<in> {DevNull, DevTtyS0} \<longrightarrow> of_offset f = 0)"

definition fd_table_ok :: "open_file option list \<Rightarrow> bool" where
  "fd_table_ok table \<longleftrightarrow> (\<forall>f. Some f \<in> set table \<longrightarrow> file_ok f)"

text \<open>The screen: the cursor is on it, and no byte outside the text buffer differs from \<open>m\<close>.\<close>

definition screen_ok :: "mem \<Rightarrow> writer \<Rightarrow> bool" where
  "screen_ok m w \<longleftrightarrow> vga_inv w \<and> (\<forall>a. outside a \<longrightarrow> vmem w a = m a)"

definition kernel_inv :: "mem \<Rightarrow> 'kb kernel \<Rightarrow> bool" where
  "kernel_inv m s \<longleftrightarrow>
     proc_inv (k_procs s) \<and> kb_inv (KEY_BUFFER (k_keyboard s)) \<and> screen_ok m (k_writer s) \<and>
     fd_table_ok (FD_TABLE s) \<and> set (k_eoi s) \<subseteq> range as_u8"

text \<open>An update of one component keeps the invariant if it keeps that component's.\<close>

lemma kernel_inv_frame [simp]:
  "kernel_inv m (s\<lparr>k_mem := mm\<rparr>) = kernel_inv m s" "kernel_inv m (s\<lparr>k_serial := out\<rparr>) = kernel_inv m s"
  by (simp_all add: kernel_inv_def)

lemma kernel_inv_update [invariant_rules]:
  "kernel_inv m s \<Longrightarrow> proc_inv p \<Longrightarrow> kernel_inv m (s\<lparr>k_procs := p\<rparr>)"
  "kernel_inv m s \<Longrightarrow> kb_inv (KEY_BUFFER k) \<Longrightarrow> kernel_inv m (s\<lparr>k_keyboard := k\<rparr>)"
  "kernel_inv m s \<Longrightarrow> screen_ok m w \<Longrightarrow> kernel_inv m (s\<lparr>k_writer := w\<rparr>)"
  "kernel_inv m s \<Longrightarrow> fd_table_ok t \<Longrightarrow> kernel_inv m (s\<lparr>FD_TABLE := t\<rparr>)"
  "kernel_inv m s \<Longrightarrow> kernel_inv m (notify_end_of_interrupt (as_u8 i) s)"
  by (auto simp: kernel_inv_def notify_end_of_interrupt_def)

lemma kernel_invD:
  assumes "kernel_inv m s"
  shows "proc_inv (k_procs s)" "kb_inv (KEY_BUFFER (k_keyboard s))" "screen_ok m (k_writer s)" "fd_table_ok (FD_TABLE s)"
  using assms by (simp_all add: kernel_inv_def)

lemma screen_ok_step [invariant_rules]:
  assumes "screen_ok m w"
  shows "screen_ok m (kprint str w)" "screen_ok m (backspace w)" "screen_ok m (clear w)" "screen_ok m (set_color fg bg w)"
proof -
  have step: "screen_ok m (console_step act w)" for act
    using console_step_safe [of w act] assms by (auto simp: screen_ok_def)
  show "screen_ok m (kprint str w)" using step [of "Print str"] by simp
  show "screen_ok m (backspace w)" using step [of Erase] by simp
  show "screen_ok m (clear w)" using step [of Clear_Screen] by simp
  show "screen_ok m (set_color fg bg w)" using step [of "Set_Color fg bg"] by simp
qed

subsection \<open>Interrupts and keys\<close>

lemma take_interrupt_inv:
  assumes "take_interrupt prof K (as_u8 i) data s = Some (Ret s')" "kernel_inv m s"
  shows "kernel_inv m s' \<and> NEXT_PID (k_procs s') = NEXT_PID (k_procs s)"
proof -
  obtain s1 where s1: "irq_effect prof K i data s = Ret s1" "s' = notify_end_of_interrupt (as_u8 i) s1"
    using assms(1) by (auto simp: take_interrupt_eq)
  have "NEXT_PID t = NEXT_PID (k_procs s)" if "tick prof (k_procs s) = Ret t" for t
    using that by (auto simp: tick_def Let_def)
  then have "kernel_inv m s1 \<and> NEXT_PID (k_procs s1) = NEXT_PID (k_procs s)"
    using s1(1) assms(2) handle_interrupt_decoded [OF kernel_invD(2) [OF assms(2)], of K data]
      proc_inv_tick [OF kernel_invD(1) [OF assms(2)]]
    by (auto simp: irq_effect_def intro: invariant_rules split: if_splits)
  then show ?thesis by (auto simp: s1(2) notify_end_of_interrupt_def kernel_inv_def)
qed

lemma take_interrupts_inv:
  "take_interrupts prof K irqs s = Ret s' \<Longrightarrow> kernel_inv m s \<Longrightarrow>
   kernel_inv m s' \<and> NEXT_PID (k_procs s') = NEXT_PID (k_procs s)"
proof (induction irqs arbitrary: s)
  case (Cons irq irqs)
  then obtain s1 where "take_interrupt prof K (as_u8 (fst irq)) (snd irq) s = Some (Ret s1)" "take_interrupts prof K irqs s1 = Ret s'"
    by (cases irq) (auto split: option.split_asm)
  with Cons.IH [of s1] take_interrupt_inv [of prof K "fst irq" "snd irq" s s1 m] Cons.prems(2) show ?case by simp
qed simp

lemma read_key_ok:
  assumes "kb_inv (KEY_BUFFER k)"
  shows "\<exists>c k'. read_key K status data k = Ret (c, k') \<and> kb_inv (KEY_BUFFER k')"
proof (cases "kb_contents (KEY_BUFFER k)")
  case Nil
  obtain c k1 where d: "decode_scancode K data k = (c, k1)" by fastforce
  then have "KEY_BUFFER k1 = KEY_BUFFER k" using decode_scancode_buffer [of K data k] by simp
  then show ?thesis using key_fifo.pop_nil [OF assms Nil] d assms
    by (simp add: read_key_def try_read_char_def poll_char_def)
next
  case (Cons c cs)
  from read_key_buffered [OF assms this, of K status data] show ?thesis by blast
qed

lemma read_key_inv [invariant_rules]:
  "read_key K status data k = Ret (c, k') \<Longrightarrow> kb_inv (KEY_BUFFER k) \<Longrightarrow> kb_inv (KEY_BUFFER k')"
  using read_key_ok [of k K status data] by auto

subsection \<open>System calls that wait\<close>

abbreviation clock :: "'kb kernel \<Rightarrow> nat" where
  "clock s \<equiv> unat (TICK (k_procs s))"

text \<open>The number of interrupts in what a reader of keys meets.\<close>

definition env_irqs :: "(irqs \<times> u8 \<times> u8) list \<Rightarrow> nat" where
  "env_irqs env = (\<Sum>(irqs, _)\<leftarrow>env. length irqs)"

lemma env_irqs_simps [simp]:
  "env_irqs [] = 0" "env_irqs ((irqs, status, data) # env) = length irqs + env_irqs env"
  "env_irqs (env @ env') = env_irqs env + env_irqs env'"
  by (simp_all add: env_irqs_def)

lemma irq_count_le: "irq_count i irqs \<le> length irqs"
  by (simp add: irq_count_def)

text \<open>
  Taking interrupts and then asking for a key, as every reader does: no panic while the clock
  is far from its end, and the invariant is kept.
\<close>

lemma take_interrupts_returns:
  assumes "kernel_inv m s" "clock s + length irqs + n < 2 ^ 64"
  shows "\<exists>s1. take_interrupts prof K irqs s = Ret s1 \<and> kernel_inv m s1 \<and> clock s1 + n < 2 ^ 64 \<and>
    NEXT_PID (k_procs s1) = NEXT_PID (k_procs s)"
proof -
  obtain s1 where s1: "take_interrupts prof K irqs s = Ret s1" "interrupted K irqs s s1"
    using take_interrupts_ok [OF kernel_invD(1) [OF assms(1)] _ kernel_invD(2) [OF assms(1)], of irqs prof K] assms(2) by auto
  then have "clock s1 \<le> clock s + length irqs"
    using irq_count_le [of Timer irqs] by (simp add: interrupted_def)
  then show ?thesis using s1(1) take_interrupts_inv [OF s1(1) assms(1)] assms(2) by simp
qed

lemma stdin_first_inv:
  "stdin_first prof K env s = Ret (Some (c, env', s')) \<Longrightarrow> kernel_inv m s \<Longrightarrow>
   kernel_inv m s' \<and> NEXT_PID (k_procs s') = NEXT_PID (k_procs s)"
  by (induction prof K env s rule: stdin_first.induct)
    (fastforce dest!: take_interrupts_inv [where m = m] intro: invariant_rules kernel_invD(2)
      split: if_splits option.splits prod.splits)+

lemma stdin_rest_inv:
  "stdin_rest prof K n env s = Ret (Some (cs, s')) \<Longrightarrow> kernel_inv m s \<Longrightarrow>
   kernel_inv m s' \<and> NEXT_PID (k_procs s') = NEXT_PID (k_procs s)"
  by (induction prof K n env s arbitrary: cs rule: stdin_rest.induct)
    (fastforce dest!: take_interrupts_inv [where m = m] intro: invariant_rules kernel_invD(2)
      split: if_splits option.splits prod.splits)+

lemma stdin_first_returns:
  assumes "kernel_inv m s" "clock s + env_irqs env < 2 ^ 64"
  shows "\<exists>r. stdin_first prof K env s = Ret r \<and>
    (case r of None \<Rightarrow> True | Some (c, env', s') \<Rightarrow> clock s' + env_irqs env' < 2 ^ 64)"
  using assms
proof (induction env arbitrary: s)
  case (Cons entry env)
  obtain irqs status data where e: "entry = (irqs, status, data)" by (cases entry)
  obtain s1 where s1: "take_interrupts prof K irqs s = Ret s1" "kernel_inv m s1" "clock s1 + env_irqs env < 2 ^ 64"
    using take_interrupts_returns [OF Cons.prems(1), of irqs "env_irqs env" prof K] Cons.prems(2) by (auto simp: e)
  obtain c k where k: "read_key K status data (k_keyboard s1) = Ret (c, k)" "kb_inv (KEY_BUFFER k)"
    using read_key_ok [OF kernel_invD(2) [OF s1(2)], of K status data] by blast
  show ?case
    using Cons.IH [OF kernel_inv_update(2) [OF s1(2) k(2)]] s1 k(1)
    by (cases c) (auto simp: e split: option.splits)
qed simp

lemma stdin_rest_returns:
  "kernel_inv m s \<Longrightarrow> clock s + env_irqs env < 2 ^ 64 \<Longrightarrow> returns (stdin_rest prof K n env s)"
proof (induction n arbitrary: env s)
  case (Suc n)
  show ?case
  proof (cases env)
    case (Cons entry env1)
    obtain irqs status data where e: "entry = (irqs, status, data)" by (cases entry)
    obtain s1 where s1: "take_interrupts prof K irqs s = Ret s1" "kernel_inv m s1" "clock s1 + env_irqs env1 < 2 ^ 64"
      using take_interrupts_returns [OF Suc.prems(1), of irqs "env_irqs env1" prof K] Suc.prems(2) by (auto simp: e Cons)
    obtain c k where k: "read_key K status data (k_keyboard s1) = Ret (c, k)" "kb_inv (KEY_BUFFER k)"
      using read_key_ok [OF kernel_invD(2) [OF s1(2)], of K status data] by blast
    have "returns (stdin_rest prof K n env1 (s1\<lparr>k_keyboard := k\<rparr>))"
      by (rule Suc.IH) (use kernel_inv_update(2) [OF s1(2) k(2)] s1(3) in auto)
    then show ?thesis using s1(1) k(1) by (cases c) (auto simp: Cons e returns_iff)
  qed simp
qed simp

lemma read_stdin_returns:
  assumes "kernel_inv m s" "clock s + env_irqs env < 2 ^ 64"
  shows "returns (read_stdin prof K env buf n s)"
proof -
  obtain r where r: "stdin_first prof K env s = Ret r"
    "case r of None \<Rightarrow> True | Some (c, env', s') \<Rightarrow> clock s' + env_irqs env' < 2 ^ 64"
    using stdin_first_returns [OF assms] by blast
  show ?thesis
  proof (cases "\<exists>ch env1 s1. r = Some (Some ch, env1, s1)")
    case True
    then obtain ch env1 s1 where s1: "r = Some (Some ch, env1, s1)" by blast
    obtain x where "stdin_rest prof K (n - 1) env1 s1 = Ret x"
      using stdin_rest_returns [of m s1 env1 prof K "n - 1"] stdin_first_inv [of prof K env s "Some ch" env1 s1 m]
        r s1 assms(1) by (auto simp: returns_iff)
    then show ?thesis using r(1) s1 by (auto simp: read_stdin_def split: option.splits)
  qed (use r(1) in \<open>auto simp: read_stdin_def split: option.splits\<close>)
qed

lemma waitpid_kernel_returns:
  "kernel_inv m s \<Longrightarrow> clock s + sum_list (map length hlts) < 2 ^ 64 \<Longrightarrow> returns (waitpid_kernel prof K hlts target s)"
proof (induction hlts arbitrary: s)
  case Nil
  then show ?case by (subst waitpid_kernel.simps) (auto split: prod.splits sum.splits option.splits)
next
  case (Cons irqs hlts)
  obtain r p where w: "waitpid_once target (k_procs s) = (r, p)" by fastforce
  have p: "proc_inv p" "TICK p = TICK (k_procs s)"
    using proc_inv_wait [OF kernel_invD(1) [OF Cons.prems(1)], of target] w
    by (auto simp: waitpid_once_def Let_def split: if_splits option.splits)
  obtain s1 where "take_interrupts prof K irqs (s\<lparr>k_procs := p\<rparr>) = Ret s1" "kernel_inv m s1"
    "clock s1 + sum_list (map length hlts) < 2 ^ 64"
    using take_interrupts_returns [OF kernel_inv_update(1) [OF Cons.prems(1) p(1)], of irqs "sum_list (map length hlts)" prof K]
      Cons.prems(2) p(2) by auto
  then show ?case using Cons.IH [of s1] w
    by (subst waitpid_kernel.simps) (auto split: prod.splits sum.splits option.splits)
qed

lemma waitpid_kernel_inv:
  "waitpid_kernel prof K hlts target s = Ret (Some (r, s')) \<Longrightarrow> kernel_inv m s \<Longrightarrow> kernel_inv m s'"
proof (induction hlts arbitrary: s)
  case Nil
  then show ?case using proc_inv_wait [OF kernel_invD(1) [OF Nil.prems(2)], of target]
    by (subst (asm) waitpid_kernel.simps) (auto intro: invariant_rules split: prod.splits sum.splits option.splits)
next
  case (Cons irqs hlts)
  obtain x p where w: "waitpid_once target (k_procs s) = (x, p)" by fastforce
  then have i: "kernel_inv m (s\<lparr>k_procs := p\<rparr>)"
    using proc_inv_wait [OF kernel_invD(1) [OF Cons.prems(2)], of target] Cons.prems(2) by (auto intro: invariant_rules)
  show ?case using Cons.prems(1) i Cons.IH take_interrupts_inv [of prof K irqs "s\<lparr>k_procs := p\<rparr>" _ m]
    by (subst (asm) waitpid_kernel.simps) (auto simp: w split: sum.splits option.splits)
qed

end
