(* ===== verification/Kernel_Steps.thy ===== *)
theory Kernel_Steps
  imports Kernel_System
begin

text \<open>
  The steps of the running kernel: a system call, a batch of interrupts, a turn of the
  shell loop.  Each keeps the well-formedness of \<open>Kernel_System\<close>, and the only call that
  can panic is one that indexes the descriptor table with a number below three.
\<close>

section \<open>System calls keep the kernel well formed\<close>

lemma file_ok_read:
  assumes "file_ok f"
  shows "file_ok (f\<lparr>of_offset := saturating_add (of_offset f) (of_nat (fst (read_node (of_node f) tcks (of_offset f) out)))\<rparr>)"
proof (cases "node_text (of_node f) tcks")
  case None
  then show ?thesis using assms
    by (cases "of_node f") (auto simp: file_ok_def saturating_add_def)
next
  case (Some content)
  let ?n = "fst (read_node (of_node f) tcks (of_offset f) out)"
  have n: "?n \<le> length content - unat (of_offset f)"
    using Some by (simp add: read_node_text read_static_eq Let_def)
  have off: "unat (of_offset f) < 100" using assms Some by (cases "of_node f") (auto simp: file_ok_def)
  have len: "length content < 100" using length_node_text [OF Some] .
  have "unat (saturating_add (of_offset f) (of_nat ?n)) = unat (of_offset f) + ?n"
    using n off len by (intro unat_saturating_add) simp
  then have "unat (saturating_add (of_offset f) (of_nat ?n)) < 100"
    using n off len by simp
  then show ?thesis using Some by (cases "of_node f") (auto simp: file_ok_def)
qed

lemma fd_table_ok_ops [invariant_rules]:
  "fd_table_ok t \<Longrightarrow> file_ok f \<Longrightarrow> fd_table_ok (snd (fd_insert f t))"
  "fd_table_ok t \<Longrightarrow> file_ok f \<Longrightarrow> fd_table_ok (t[i := Some f])"
  "fd_table_ok t \<Longrightarrow> fd_table_ok (fd_take i t)"
proof -
  show "fd_table_ok t \<Longrightarrow> file_ok f \<Longrightarrow> fd_table_ok (snd (fd_insert f t))"
    by (induction f t rule: fd_insert.induct) (auto simp: fd_table_ok_def split: if_splits prod.splits)
qed (auto simp: fd_table_ok_def fd_take_def dest!: set_update_subset_insert [THEN subsetD])

lemma fd_lookup_ok: "fd_table_ok t \<Longrightarrow> fd_lookup t i = Some f \<Longrightarrow> file_ok f"
  unfolding fd_table_ok_def fd_lookup_def by (metis nth_mem option.discI)

text \<open>What holds of the kernel a call leaves behind, whichever way it comes back.\<close>

fun left_with :: "('k \<Rightarrow> bool) \<Rightarrow> 'k syscall_result outcome \<Rightarrow> bool" where
  "left_with P (Panic e) \<longleftrightarrow> True"
| "left_with P (Ret StillWaiting) \<longleftrightarrow> True"
| "left_with P (Ret (Returned r s)) \<longleftrightarrow> P s"
| "left_with P (Ret (NoReturn s)) \<longleftrightarrow> P s"

lemma left_with_obind [intro]: "(\<And>x. c = Ret x \<Longrightarrow> left_with P (f x)) \<Longrightarrow> left_with P (obind c f)"
  by (cases c) auto

lemma left_with_returned [simp]: "left_with P (returned p) \<longleftrightarrow> P (snd p)"
  by (cases p) simp

lemma read_stdin_inv: "kernel_inv m s \<Longrightarrow> left_with (kernel_inv m) (read_stdin prof K env buf n s)"
  unfolding read_stdin_def
  by (auto intro!: left_with_obind dest!: stdin_first_inv [where m = m] stdin_rest_inv [where m = m]
      simp del: obind_eq_Ret split: option.split prod.split)

lemma sys_read_inv:
  assumes "kernel_inv m s"
  shows "left_with (kernel_inv m) (sys_read prof K env fd buf count s)"
  using assms kernel_invD(4) [OF assms]
  by (auto simp: sys_read_def Let_def case_prod_beta read_stdin_inv
      intro!: left_with_obind invariant_rules file_ok_read dest: fd_lookup_ok split: option.split)

lemma sys_write_inv:
  assumes "kernel_inv m s"
  shows "left_with (kernel_inv m) (sys_write prof fd buf count s)"
  using assms kernel_invD(3) [OF assms]
  by (auto simp: sys_write_def Let_def intro!: left_with_obind invariant_rules
      split: option.split pseudo_node.split)

lemma sys_wait4_inv: "kernel_inv m s \<Longrightarrow> left_with (kernel_inv m) (sys_wait4 prof K hlts q status s)"
  unfolding sys_wait4_def Let_def
  by (auto intro!: left_with_obind dest!: waitpid_kernel_inv [where m = m] split: option.split prod.split sum.split)

lemma sys_procs_frame:
  "snd (sys_fork s) = s\<lparr>k_procs := snd (fork (k_procs s))\<rparr>"
  "\<exists>path. snd (sys_execve a s) \<in> {s, s\<lparr>k_procs := snd (execve path (k_procs s))\<rparr>}"
  "snd (sys_kill q sig s) = s\<lparr>k_procs := snd (kill q sig (k_procs s))\<rparr>"
  by (auto simp: sys_fork_def sys_execve_def sys_kill_def split: prod.split sum.split option.split) (metis snd_conv)+

lemma proc_inv_exit_call: "proc_inv p \<Longrightarrow> proc_inv (exit code p)"
  by (simp add: exit_def force_schedule_def Let_def proc_inv_exit)

lemma sys_procs_inv:
  assumes "kernel_inv m s"
  shows "NEXT_PID (k_procs (snd (sys_fork s))) \<noteq> 0 \<Longrightarrow> kernel_inv m (snd (sys_fork s))"
    and "kernel_inv m (snd (sys_execve a s))" and "kernel_inv m (snd (sys_kill q sig s))"
    and "kernel_inv m (sys_exit code s)"
  using assms kernel_invD(1) [OF assms] sys_procs_frame(2) [of a s]
  by (auto simp: sys_procs_frame(1,3) sys_exit_def
      intro!: kernel_inv_update(1) proc_inv_fork proc_inv_execve proc_inv_kill proc_inv_exit_call)

lemma sys_open_inv: "kernel_inv m s \<Longrightarrow> kernel_inv m (snd (sys_open path flags mode s))"
  using fd_table_ok_ops(1) [OF kernel_invD(4), of m s]
  by (auto simp: sys_open_def Let_def case_prod_beta file_ok_def intro!: invariant_rules dest: kernel_invD(4)
      split: option.split)

lemma sys_close_inv: "kernel_inv m s \<Longrightarrow> sys_close prof fd s = Ret x \<Longrightarrow> kernel_inv m (snd x)"
  by (auto simp: sys_close_def intro!: invariant_rules dest: kernel_invD(4) split: if_splits)

lemma left_with_mono: "left_with P c \<Longrightarrow> (\<And>s. P s \<Longrightarrow> Q s) \<Longrightarrow> left_with Q c"
  by (induction P c rule: left_with.induct) auto

text \<open>The PID counter wraps only in a fork.\<close>

lemma dispatch_inv:
  assumes "kernel_inv m s"
  shows "left_with (\<lambda>t. NEXT_PID (k_procs t) \<noteq> 0 \<longrightarrow> kernel_inv m t) (dispatch prof K env f s)"
proof -
  let ?ok = "left_with (\<lambda>t. NEXT_PID (k_procs t) \<noteq> 0 \<longrightarrow> kernel_inv m t)"
  have weaken: "left_with (kernel_inv m) c \<Longrightarrow> ?ok c" for c by (erule left_with_mono) simp
  have close: "?ok (obind (sys_close prof fd s) returned)" for fd
    by (rule left_with_obind) (simp add: sys_close_inv [OF assms])
  show ?thesis unfolding dispatch_def Let_def
    using assms by (simp add: weaken close sys_read_inv sys_write_inv sys_wait4_inv sys_procs_inv sys_open_inv)
qed

section \<open>The shell\<close>

lemma shell_output_inv [invariant_rules]:
  assumes "kernel_inv m s"
  shows "kernel_inv m (print_bytes bs s)" "kernel_inv m (println str s)" "kernel_inv m (shell_color fg bg s)"
    "kernel_inv m (on_writer backspace s)" "kernel_inv m (on_writer clear s)"
  using assms kernel_invD(3) [OF assms]
  by (auto simp: println_def print_bytes_def shell_color_def on_writer_def intro!: invariant_rules)

lemma println_all_inv [invariant_rules]: "kernel_inv m s \<Longrightarrow> kernel_inv m (println_all strs s)"
  unfolding println_all_def by (induction strs arbitrary: s) (auto intro: invariant_rules)

lemma execute_inv:
  assumes "kernel_inv m s" "execute line s = Done t"
  shows "kernel_inv m t"
  using assms
  by (auto simp: execute_def Let_def cmd_help_def cmd_clear_def cmd_echo_def cmd_uname_def cmd_version_def cmd_ps_def
      cmd_uptime_def cmd_halt_def cmd_reboot_def intro!: invariant_rules split: if_splits prod.splits)

lemma shell_output_frame [simp]:
  "k_procs (print_bytes bs s) = k_procs s" "k_procs (println str s) = k_procs s"
  "k_procs (shell_color fg bg s) = k_procs s" "k_procs (on_writer g s) = k_procs s"
  "k_procs (print_prompt s) = k_procs s"
  by (simp_all add: print_prompt_def Let_def println_def print_bytes_def shell_color_def on_writer_def)

lemma print_prompt_inv [invariant_rules]: "kernel_inv m s \<Longrightarrow> kernel_inv m (print_prompt s)"
  unfolding print_prompt_def Let_def by (intro shell_output_inv)

text \<open>
  Whatever keys and interrupts arrive, the position stays inside the line buffer, and reading a line
  panics at most when the tick counter overflows; \<open>room\<close> says that it cannot.
\<close>

fun line_ok :: "mem \<Rightarrow> bool \<Rightarrow> (nat \<times> u8 list \<times> 'e \<times> 'kb kernel) option outcome \<Rightarrow> bool" where
  "line_ok m room (Panic e) \<longleftrightarrow> \<not> room"
| "line_ok m room (Ret None) \<longleftrightarrow> True"
| "line_ok m room (Ret (Some (n, buf, env, s))) \<longleftrightarrow> kernel_inv m s \<and> n \<le> 255 \<and> length buf = MAX_CMD_LEN"

lemma line_ok_mono: "line_ok m room r \<Longrightarrow> (room' \<Longrightarrow> room) \<Longrightarrow> line_ok m room' r"
  by (cases "(m, room, r)" rule: line_ok.cases) auto

lemma read_line_ok:
  "kernel_inv m s \<Longrightarrow> pos \<le> 255 \<Longrightarrow> length buf = MAX_CMD_LEN \<Longrightarrow>
   line_ok m (clock s + env_irqs env < 2 ^ 64) (read_line prof K env pos buf s)"
proof (induction env arbitrary: pos buf s)
  case (Cons entry env)
  obtain irqs status data where e: "entry = (irqs, status, data)" by (cases entry)
  note room = take_interrupts_returns [OF Cons.prems(1), of irqs "env_irqs env" prof K]
  show ?case
  proof (cases "take_interrupts prof K irqs s")
    case (Ret s1)
    then have s1: "kernel_inv m s1" using take_interrupts_inv Cons.prems(1) by blast
    obtain c k where k: "read_key K status data (k_keyboard s1) = Ret (c, k)" "kb_inv (KEY_BUFFER k)"
      using read_key_ok [OF kernel_invD(2) [OF s1], of K status data] by blast
    note s2 = kernel_inv_update(2) [OF s1 k(2)]
    have "pos - 1 < 256" using Cons.prems(2) by simp
    then have "line_ok m (clock s1 + env_irqs env < 2 ^ 64) (read_line prof K (entry # env) pos buf s)"
      using Cons.IH [where s = "s1\<lparr>k_keyboard := k\<rparr>", OF s2] Cons.IH [where s = "on_writer g (s1\<lparr>k_keyboard := k\<rparr>)" for g]
        Cons.IH [where s = "print_bytes bs (s1\<lparr>k_keyboard := k\<rparr>)" for bs] Cons.prems(2,3) s2 shell_output_inv [OF s2]
      by (cases c) (simp_all add: e Ret k(1) put_index_def MAX_CMD_LEN_def Let_def)
    then show ?thesis by (rule line_ok_mono) (use room Ret in \<open>simp add: e\<close>)
  qed (use room in \<open>auto simp: e\<close>)
qed simp

lemma shell_iteration_ok:
  assumes "kernel_inv m s"
  shows "clock s + env_irqs env < 2 ^ 64 \<Longrightarrow> returns (shell_iteration prof K env s)"
    and "shell_iteration prof K env s = Ret (Some (Done t, env')) \<Longrightarrow> kernel_inv m t"
proof -
  have "line_ok m (clock s + env_irqs env < 2 ^ 64) (read_line prof K env 0 (replicate MAX_CMD_LEN 0) (print_prompt s))"
    using read_line_ok [OF print_prompt_inv [OF assms], of 0 "replicate MAX_CMD_LEN 0" env prof K] by simp
  then show "clock s + env_irqs env < 2 ^ 64 \<Longrightarrow> returns (shell_iteration prof K env s)"
    "shell_iteration prof K env s = Ret (Some (Done t, env')) \<Longrightarrow> kernel_inv m t"
    by (cases "(m, clock s + env_irqs env < 2 ^ 64, read_line prof K env 0 (replicate MAX_CMD_LEN 0) (print_prompt s))"
        rule: line_ok.cases; auto simp: shell_iteration_def slice_def MAX_CMD_LEN_def intro: execute_inv)+
qed

section \<open>The kernel as a step relation\<close>

text \<open>The kernel's statics before \<open>kernel_main\<close>, over a machine whose memory is \<open>m\<close>.\<close>

definition static_kernel :: "mem \<Rightarrow> 'kb kernel \<Rightarrow> bool" where
  "static_kernel m s \<longleftrightarrow> k_procs s = procs_static \<and> k_writer s = WRITER m \<and>
     KEY_BUFFER (k_keyboard s) = key_buffer_new \<and> FD_TABLE s = [] \<and> k_eoi s = []"

definition booted :: "profile \<Rightarrow> ('g, 'm, 'hw) platform \<Rightarrow> boot_info \<Rightarrow> mem \<Rightarrow> ('kb, 'g, 'm, 'hw) machine \<Rightarrow> 'kb kernel \<Rightarrow> bool" where
  "booted prof P boot m s k \<longleftrightarrow> static_kernel m (m_kernel s) \<and>
     (\<exists>s'. kernel_main prof P boot s = Ret s' \<and> k = shell_banner (m_kernel s'))"

text \<open>
  One step: interrupts between two instructions, a system call with the interrupts and keys that
  arrive while it waits, or a turn of the shell loop.  Only steps in which the PID counter has not
  wrapped are steps of the relation.
\<close>

inductive kernel_step :: "profile \<Rightarrow> ('kb, 'ev, 'kc) pc_keyboard \<Rightarrow> 'kb kernel \<Rightarrow> 'kb kernel \<Rightarrow> bool"
  for prof :: profile and K :: "('kb, 'ev, 'kc) pc_keyboard" where
  step_irqs: "take_interrupts prof K irqs s = Ret t \<Longrightarrow> kernel_step prof K s t"
| step_syscall: "dispatch prof K env f s = Ret (Returned r t) \<Longrightarrow> NEXT_PID (k_procs t) \<noteq> 0 \<Longrightarrow> kernel_step prof K s t"
| step_exit_call: "dispatch prof K env f s = Ret (NoReturn t) \<Longrightarrow> NEXT_PID (k_procs t) \<noteq> 0 \<Longrightarrow> kernel_step prof K s t"
| step_shell: "shell_iteration prof K keys s = Ret (Some (Done t, keys')) \<Longrightarrow> kernel_step prof K s t"

lemma booted_inv:
  assumes "booted prof P boot m s k"
  shows "kernel_inv m k"
proof -
  obtain s' where s': "kernel_main prof P boot s = Ret s'" "k = shell_banner (m_kernel s')"
    and st: "static_kernel m (m_kernel s)"
    using assms by (auto simp: booted_def)
  have "screen_ok m (vga_init m)" using vga_inv_init vga_init_outside by (simp add: screen_ok_def)
  then have "screen_ok m (k_writer (m_kernel s'))"
    using kernel_main_RetD [OF s'(1)] st by (auto simp: static_kernel_def vga_init_def [symmetric] intro: invariant_rules)
  then have "kernel_inv m (m_kernel s')"
    using kernel_main_RetD [OF s'(1)] st proc_inv_boot kb_inv_new
    by (simp add: kernel_inv_def static_kernel_def boot_procs_def fd_table_ok_def)
  then show ?thesis unfolding s'(2) shell_banner_def by (rule println_all_inv)
qed

interpretation running: invariant_system "booted prof P boot m s" "kernel_step prof K" "kernel_inv m" for prof P boot m s K
proof
  show "kernel_inv m k" if "booted prof P boot m s k" for k using booted_inv that .
  show "kernel_inv m t" if "kernel_inv m k" "kernel_step prof K k t" for k t
    using that(2)
  proof cases
    case (step_irqs irqs)
    then show ?thesis using take_interrupts_inv that(1) by blast
  next
    case (step_syscall env f r)
    then show ?thesis using dispatch_inv [OF that(1), of prof K env f] by simp
  next
    case (step_exit_call env f)
    then show ?thesis using dispatch_inv [OF that(1), of prof K env f] by simp
  next
    case (step_shell keys keys')
    then show ?thesis using shell_iteration_ok(2) [OF that(1)] by blast
  qed
qed

text \<open>The interrupts that arrive while a call waits, and the one use of a descriptor that panics.\<close>

definition call_irqs :: "syscall_env \<Rightarrow> nat" where
  "call_irqs env = env_irqs (env_keys env) + sum_list (map length (env_hlts env))"

definition fd_underflow :: "profile \<Rightarrow> syscall_frame \<Rightarrow> bool" where
  "fd_underflow prof f \<longleftrightarrow> prof = Dev \<and> rsi f \<noteq> 0 \<and> rdx f \<noteq> 0 \<and>
     (num f = SYS_READ \<and> (ucast (rdi f) :: i32) \<in> {1, 2} \<or> num f = SYS_WRITE \<and> (ucast (rdi f) :: i32) = 0)"

lemma dispatch_returns_iff:
  assumes "kernel_inv m s" "clock s + call_irqs env < 2 ^ 64"
  shows "returns (dispatch prof K env f s) \<longleftrightarrow> \<not> fd_underflow prof f"
proof (cases "num f = SYS_READ \<and> (ucast (rdi f) :: i32) = 0 \<or> num f = SYS_WAIT4")
  case True
  have room: "clock s + env_irqs (env_keys env) < 2 ^ 64" "clock s + sum_list (map length (env_hlts env)) < 2 ^ 64"
    using assms(2) by (simp_all add: call_irqs_def)
  obtain r where "waitpid_kernel prof K (env_hlts env) target s = Ret r"
    if "target = (if sint (ucast (rdi f) :: i32) \<le> 0 then None else Some (ucast (rdi f)))" for target
    using waitpid_kernel_returns [OF assms(1) room(2)] unfolding returns_iff by blast
  then have "returns (sys_wait4 prof K (env_hlts env) (ucast (rdi f)) (rsi f) s)"
    by (auto simp: sys_wait4_def Let_def split: option.split prod.split sum.split)
  then show ?thesis using True read_stdin_returns [OF assms(1) room(1), of prof K]
    by (auto simp: dispatch_def Let_def sys_read_def fd_underflow_def syscall_numbers)
next
  case False
  then show ?thesis using nonwaiting_call_panics_iff [of f prof K env s] by (auto simp: fd_underflow_def)
qed

section \<open>Properties\<close>

text \<open>
  Claim C1.  The state of the kernel is well formed at all times.  In every state the kernel reaches
  from a successful \<open>kernel_main\<close> by any interleaving of hardware interrupts, system calls and turns of
  the shell in which the PID counter has not wrapped: PIDs are distinct and below the counter,
  only zombies carry an exit code, no process is Blocked and signal 0 is never pending; the key
  buffer's indices are in range; the cursor is on the screen and no byte of memory outside the VGA
  text buffer has been touched by the console; every open text file stands at an offset below 100;
  and only the sixteen vectors of the interrupt controllers have been acknowledged.
\<close>

theorem kernel_wellformed:
  assumes "reachable (booted prof P boot m s) (kernel_step prof K) k"
  shows "distinct (pids (k_procs k)) \<and>
    (\<forall>p \<in> set (PROCESS_TABLE (k_procs k)). pid p < NEXT_PID (k_procs k) \<and> parent_pid p < NEXT_PID (k_procs k) \<and>
       (exit_code p \<noteq> 0 \<longrightarrow> proc_state p = Zombie) \<and> proc_state p \<noteq> Blocked \<and> \<not> bit (pending_signals p) 0) \<and>
    length (kb_buf (KEY_BUFFER (k_keyboard k))) = 256 \<and> kb_read (KEY_BUFFER (k_keyboard k)) < 256 \<and>
    kb_write (KEY_BUFFER (k_keyboard k)) < 256 \<and> kb_count (KEY_BUFFER (k_keyboard k)) \<le> 256 \<and>
    row (k_writer k) < 25 \<and> column_position (k_writer k) \<le> 80 \<and>
    (\<forall>a. a < 0xB8000 \<or> 0xB8000 + 4000 \<le> a \<longrightarrow> vmem (k_writer k) a = m a) \<and>
    (\<forall>f. Some f \<in> set (FD_TABLE k) \<longrightarrow> of_node f \<in> {ProcVersion, ProcUptime, ProcMeminfo, SysHostname} \<longrightarrow>
       unat (of_offset f) < 100) \<and>
    (\<forall>v \<in> set (k_eoi k). 32 \<le> v \<and> v < 48)"
proof -
  have i: "kernel_inv m k" using running.inv_reachable [OF assms] .
  have v: "32 \<le> as_u8 j \<and> as_u8 j < 48" for j by (cases j) (simp_all add: PIC_1_OFFSET_def)
  have kb: "kb_inv (KEY_BUFFER (k_keyboard k))" using kernel_invD(2) [OF i] .
  have procs: "distinct (pids (k_procs k)) \<and> (\<forall>p \<in> set (PROCESS_TABLE (k_procs k)). pid p < NEXT_PID (k_procs k) \<and>
      parent_pid p < NEXT_PID (k_procs k) \<and> (exit_code p \<noteq> 0 \<longrightarrow> proc_state p = Zombie) \<and> proc_state p \<noteq> Blocked \<and>
      \<not> bit (pending_signals p) 0)"
    using kernel_invD(1) [OF i] by (auto simp: proc_inv_def proc_ok_def word_less_nat_alt)
  have screen: "row (k_writer k) < 25 \<and> column_position (k_writer k) \<le> 80 \<and>
      (\<forall>a. a < 0xB8000 \<or> 0xB8000 + 4000 \<le> a \<longrightarrow> vmem (k_writer k) a = m a)"
    using kernel_invD(3) [OF i] by (simp add: screen_ok_def vga_inv_def BUFFER_HEIGHT_def BUFFER_WIDTH_def outside_def VGA_BUFFER_ADDR_def)
  have files: "\<forall>f. Some f \<in> set (FD_TABLE k) \<longrightarrow> of_node f \<in> {ProcVersion, ProcUptime, ProcMeminfo, SysHostname} \<longrightarrow>
      unat (of_offset f) < 100"
    using kernel_invD(4) [OF i] by (simp add: fd_table_ok_def file_ok_def)
  have "\<forall>v \<in> set (k_eoi k). 32 \<le> v \<and> v < 48" using i v unfolding kernel_inv_def by fastforce
  then show ?thesis using procs screen files kb by (simp add: kb_inv_def KEY_BUF_SIZE_def)
qed

text \<open>A run of the sample machine: boot, a timer interrupt and a key, and then a fork by the process.\<close>

lemma machine_sample_static: "static_kernel (\<lambda>_. 0) (m_kernel machine_sample)"
  by (simp add: static_kernel_def machine_sample_def user_kernel_def idle_keyboard_def)

lemma machine_sample_runs:
  "\<exists>k. reachable (booted Dev platform_sample boot_sample (\<lambda>_. 0) machine_sample) (kernel_step Dev echo_decoder) k \<and>
     clock k = 1 \<and> typed k = [0x61] \<and> pids (k_procs k) = [0, 1]"
proof -
  let ?R = "reachable (booted Dev platform_sample boot_sample (\<lambda>_. 0) machine_sample) (kernel_step Dev echo_decoder)"
  let ?irqs = "[(Timer, 0), (Keyboard, 0x61)]"
  obtain s' where s': "kernel_main Dev platform_sample boot_sample machine_sample = Ret s'"
    using kernel_main_sample_returns by blast
  let ?k = "shell_banner (m_kernel s')"
  have b: "booted Dev platform_sample boot_sample (\<lambda>_. 0) machine_sample ?k"
    using machine_sample_static s' by (auto simp: booted_def)
  note i = booted_inv [OF b]
  have f: "k_procs ?k = boot_procs" "k_keyboard ?k = k_keyboard (m_kernel machine_sample)"
    using kernel_main_RetD [OF s'] machine_sample_fields(3)
    by (simp_all add: shell_banner_def println_all_def println_def print_bytes_def on_writer_def boot_procs_def)
  have t: "TICK boot_procs = 0" "pids boot_procs = [0, 1]" by (simp_all add: boot_procs_eq pids_def idle_process_def)
  obtain k where k: "take_interrupts Dev echo_decoder ?irqs ?k = Ret k" "interrupted echo_decoder ?irqs ?k k"
    using take_interrupts_ok [OF kernel_invD(1) [OF i] _ kernel_invD(2) [OF i], of ?irqs Dev echo_decoder] f t by auto
  have "?R ?k" using b by (rule reachable_start)
  then have "?R k" by (rule reachable_step) (rule step_irqs [OF k(1)])
  moreover have "clock k = 1 \<and> typed k = [0x61] \<and> pids (k_procs k) = [0, 1]"
    using k(2) f t by (simp add: interrupted_def irq_count_def decode_byte_def decode_scancode_def echo_decoder_def KEY_BUF_SIZE_def
        machine_sample_def user_kernel_def idle_keyboard_def kb_contents_new)
  ultimately show ?thesis by blast
qed

theorem kernel_wellformed_witness:
  "\<exists>k. reachable (booted Dev platform_sample boot_sample (\<lambda>_. 0) machine_sample) (kernel_step Dev echo_decoder) k \<and>
     typed k = [0x61] \<and> kb_count (KEY_BUFFER (k_keyboard k)) \<le> 256 \<and> row (k_writer k) < 25 \<and>
     vmem (k_writer k) 0xB7FFF = 0"
proof -
  obtain k where k: "reachable (booted Dev platform_sample boot_sample (\<lambda>_. 0) machine_sample) (kernel_step Dev echo_decoder) k"
    "typed k = [0x61]"
    using machine_sample_runs by blast
  then show ?thesis using kernel_wellformed [OF k(1)] by auto
qed



end
