(* ===== verification/Kernel_Refinement.thy ===== *)
theory Kernel_Refinement
  imports Kernel_Steps
begin

text \<open>
  The kernel refines the process subsystem.  Seen through the process state, every step of the whole
  kernel is a sequence of steps of \<open>Process\<close>: interrupts are ticks, a call or a turn of the shell is
  the critical sections it runs.
\<close>

section \<open>Sequences of process steps\<close>

text \<open>The process state went from \<open>p\<close> to \<open>q\<close> by steps that leave the PID counter alone.\<close>

definition evolves :: "profile \<Rightarrow> procs \<Rightarrow> procs \<Rightarrow> bool" where
  "evolves prof p q \<longleftrightarrow> NEXT_PID q = NEXT_PID p \<and> (NEXT_PID p \<noteq> 0 \<longrightarrow> (fresh_step prof)\<^sup>*\<^sup>* p q)"

lemma evolves_refl [simp]: "evolves prof p p"
  by (simp add: evolves_def)

lemma evolves_trans [trans]: "evolves prof p q \<Longrightarrow> evolves prof q r \<Longrightarrow> evolves prof p r"
  by (auto simp: evolves_def)

lemma evolves_step: "proc_step prof p q \<Longrightarrow> NEXT_PID q = NEXT_PID p \<Longrightarrow> evolves prof p q"
  by (auto simp: evolves_def fresh_step_def)

lemma evolves_ops:
  "evolves prof p (snd (execve path p))" "evolves prof p (snd (kill pd sig p))" "evolves prof p (snd (waitpid_once target p))"
  "tick prof p = Ret q \<Longrightarrow> evolves prof p q" "evolves prof p (exit code p)"
proof -
  show "evolves prof p (snd (execve path p))"
    by (rule evolves_step [OF step_execve]) (simp add: execve_def split: option.split)
  show "evolves prof p (snd (kill pd sig p))"
    by (rule evolves_step [OF step_kill]) (simp add: kill_def split: option.split)
  show "evolves prof p (snd (waitpid_once target p))"
    by (rule evolves_step [OF step_wait]) (simp add: waitpid_once_def Let_def split: option.split)
  show "tick prof p = Ret q \<Longrightarrow> evolves prof p q"
    by (rule evolves_step [OF step_tick]) (auto simp: tick_def Let_def)
  let ?p1 = "exit_mark code p"
  let ?p2 = "?p1\<lparr>proc_log := proc_log ?p1 @
    [''[PROC] pid '' @ show_nat (unat (getpid ?p1)) @ '' exiting with code '' @ show_int (sint code)]\<rparr>"
  have "evolves prof p ?p1" by (rule evolves_step [OF step_exit]) (simp add: exit_mark_def Let_def)
  also have "evolves prof ?p1 ?p2" by (rule evolves_step [OF step_log]) simp
  also have "evolves prof ?p2 (schedule ?p2)" by (rule evolves_step [OF step_schedule]) simp
  finally show "evolves prof p (exit code p)" by (simp add: exit_def force_schedule_def Let_def)
qed

lemma take_irqs_evolves: "take_irqs prof irqs p = Ret q \<Longrightarrow> evolves prof p q"
  by (induction prof irqs p rule: take_irqs.induct) (auto dest: evolves_ops(4) intro: evolves_trans)

section \<open>The steps of the kernel\<close>

lemma take_interrupts_evolves: "take_interrupts prof K irqs s = Ret t \<Longrightarrow> evolves prof (k_procs s) (k_procs t)"
  using take_irqs_evolves take_interrupts_procs by blast

lemma stdin_first_evolves:
  "stdin_first prof K env s = Ret (Some (c, env', t)) \<Longrightarrow> evolves prof (k_procs s) (k_procs t)"
  by (induction prof K env s rule: stdin_first.induct)
    (fastforce dest: take_interrupts_evolves intro: evolves_trans split: if_splits option.splits)+

lemma stdin_rest_evolves:
  "stdin_rest prof K n env s = Ret (Some (cs, t)) \<Longrightarrow> evolves prof (k_procs s) (k_procs t)"
  by (induction prof K n env s arbitrary: cs rule: stdin_rest.induct)
    (fastforce dest: take_interrupts_evolves intro: evolves_trans split: if_splits option.splits)+

lemma waitpid_kernel_evolves:
  "waitpid_kernel prof K hlts target s = Ret (Some (r, t)) \<Longrightarrow> evolves prof (k_procs s) (k_procs t)"
proof (induction hlts arbitrary: s)
  case Nil
  then show ?case using evolves_ops(3) [of prof "k_procs s" target]
    by (subst (asm) waitpid_kernel.simps) (auto split: prod.splits sum.splits option.splits)
next
  case (Cons irqs hlts)
  obtain x p where w: "waitpid_once target (k_procs s) = (x, p)" by fastforce
  then have p: "evolves prof (k_procs s) p" using evolves_ops(3) [of prof "k_procs s" target] by simp
  then show ?case using Cons.prems Cons.IH take_interrupts_evolves [of prof K irqs "s\<lparr>k_procs := p\<rparr>"]
    by (subst (asm) waitpid_kernel.simps) (auto simp: w split: sum.splits option.splits, blast intro: evolves_trans)
qed

lemma read_line_evolves:
  "read_line prof K env pos buf s = Ret (Some (n, buf', env', t)) \<Longrightarrow> evolves prof (k_procs s) (k_procs t)"
proof (induction env arbitrary: pos buf s)
  case (Cons entry env)
  obtain irqs status data where e: "entry = (irqs, status, data)" by (cases entry)
  obtain s1 c k where r: "take_interrupts prof K irqs s = Ret s1" "read_key K status data (k_keyboard s1) = Ret (c, k)"
    using Cons.prems by (auto simp: e)
  have "evolves prof (k_procs s1) (k_procs t)"
    using Cons.prems Cons.IH [where s = "s1\<lparr>k_keyboard := k\<rparr>"] Cons.IH [where s = "on_writer backspace (s1\<lparr>k_keyboard := k\<rparr>)"]
      Cons.IH [where s = "print_bytes (char_to_utf8 (ucast (the c))) (s1\<lparr>k_keyboard := k\<rparr>)"]
    by (cases c) (auto simp: e r Let_def split: if_splits)
  then show ?case using take_interrupts_evolves [OF r(1)] evolves_trans by blast
qed simp

text \<open>A system call: the fork, or steps that leave the counter alone.\<close>

lemma sys_read_evolves: "left_with (\<lambda>t. evolves prof (k_procs s) (k_procs t)) (sys_read prof K env fd buf count s)"
proof -
  have "left_with (\<lambda>t. evolves prof (k_procs s) (k_procs t)) (read_stdin prof K env buf n s)" for n
    unfolding read_stdin_def
    by (auto intro!: left_with_obind dest!: stdin_first_evolves stdin_rest_evolves intro: evolves_trans
        simp del: obind_eq_Ret split: option.split prod.split) (blast intro: evolves_trans)
  then show ?thesis
    by (auto simp: sys_read_def Let_def case_prod_beta intro!: left_with_obind split: option.split)
qed

lemma sys_write_evolves: "left_with (\<lambda>t. evolves prof (k_procs s) (k_procs t)) (sys_write prof fd buf count s)"
  by (auto simp: sys_write_def Let_def intro!: left_with_obind split: option.split pseudo_node.split)

lemma sys_wait4_evolves: "left_with (\<lambda>t. evolves prof (k_procs s) (k_procs t)) (sys_wait4 prof K hlts q status s)"
  unfolding sys_wait4_def Let_def
  by (auto intro!: left_with_obind dest!: waitpid_kernel_evolves split: option.split prod.split sum.split)

lemma sys_files_evolve:
  "k_procs (snd (sys_open path flags mode s)) = k_procs s" "sys_close prof fd s = Ret x \<Longrightarrow> k_procs (snd x) = k_procs s"
  by (auto simp: sys_open_def sys_close_def Let_def case_prod_beta split: option.split if_splits)

lemma sys_execve_evolves: "evolves prof (k_procs s) (k_procs (snd (sys_execve a s)))"
  using sys_procs_frame(2) [of a s] evolves_ops(1) by fastforce

lemma dispatch_refines:
  "left_with (\<lambda>t. k_procs t = snd (fork (k_procs s)) \<or> evolves prof (k_procs s) (k_procs t)) (dispatch prof K env f s)"
proof -
  let ?ok = "left_with (\<lambda>t. k_procs t = snd (fork (k_procs s)) \<or> evolves prof (k_procs s) (k_procs t))"
  have weaken: "left_with (\<lambda>t. evolves prof (k_procs s) (k_procs t)) c \<Longrightarrow> ?ok c" for c by (erule left_with_mono) simp
  have close: "?ok (obind (sys_close prof fd s) returned)" for fd
    by (rule left_with_obind) (simp add: sys_files_evolve)
  show ?thesis unfolding dispatch_def Let_def
    by (simp add: weaken close sys_read_evolves sys_write_evolves sys_wait4_evolves sys_files_evolve sys_execve_evolves
        sys_procs_frame(1,3) evolves_ops sys_exit_def)
qed

lemma println_all_procs [simp]: "k_procs (println_all strs s) = k_procs s"
  unfolding println_all_def by (induction strs arbitrary: s) simp_all

lemma execute_procs: "execute line s = Done t \<Longrightarrow> k_procs t = k_procs s"
  by (auto simp: execute_def Let_def cmd_help_def cmd_clear_def cmd_echo_def cmd_uname_def cmd_version_def cmd_ps_def
      cmd_uptime_def cmd_halt_def cmd_reboot_def split: if_splits prod.splits)

lemma shell_iteration_evolves:
  "shell_iteration prof K env s = Ret (Some (Done t, env')) \<Longrightarrow> evolves prof (k_procs s) (k_procs t)"
  by (auto simp: shell_iteration_def dest!: read_line_evolves execute_procs split: option.splits)

lemma kernel_step_refines:
  assumes "kernel_step prof K s t" "NEXT_PID (k_procs s) \<noteq> 0" "NEXT_PID (k_procs t) \<noteq> 0"
  shows "(fresh_step prof)\<^sup>*\<^sup>* (k_procs s) (k_procs t)"
proof -
  have fork: "(fresh_step prof)\<^sup>*\<^sup>* (k_procs s) (k_procs t)" if "k_procs t = snd (fork (k_procs s))"
    using that assms(3) step_fork [of prof "k_procs s"] by (auto simp: fresh_step_def)
  from assms(1) have "k_procs t = snd (fork (k_procs s)) \<or> evolves prof (k_procs s) (k_procs t)"
  proof cases
    case (step_syscall env f r)
    then show ?thesis using dispatch_refines [of s prof K env f] by simp
  next
    case (step_exit_call env f)
    then show ?thesis using dispatch_refines [of s prof K env f] by simp
  qed (auto dest: take_interrupts_evolves shell_iteration_evolves)
  then show ?thesis using fork assms(2) by (auto simp: evolves_def)
qed

lemma proc_inv_fresh: "proc_inv p \<Longrightarrow> NEXT_PID p \<noteq> 0"
  by (auto simp: proc_inv_def)

lemma booted_procs: "booted prof P boot m s k \<Longrightarrow> k_procs k = boot_procs"
  by (auto simp: booted_def static_kernel_def shell_banner_def boot_procs_def dest!: kernel_main_RetD)

interpretation kernel_procs: simulation "booted prof P boot m s" "kernel_step prof K" "kernel_inv m"
    "(=) boot_procs" "fresh_step prof" k_procs for prof P boot m s K
proof
  show "boot_procs = k_procs k" if "booted prof P boot m s k" for k using booted_procs [OF that] by simp
  show "(fresh_step prof)\<^sup>*\<^sup>* (k_procs k) (k_procs t)" if "kernel_inv m k" "kernel_inv m t" "kernel_step prof K k t" for k t
    using kernel_step_refines [OF that(3)] kernel_invD(1) [OF that(1)] kernel_invD(1) [OF that(2)] by (simp add: proc_inv_fresh)
qed

section \<open>Properties\<close>

text \<open>
  Claim C3.  The kernel refines the process subsystem.  Whatever interleaving of hardware interrupts,
  system calls and shell turns led to a state of the whole kernel, its process state is one that the
  process subsystem reaches on its own from boot, by its forks, execs, exits, waits, kills, scheduling
  and ticks.  So what holds of every state of that subsystem holds inside the running kernel.
\<close>

theorem kernel_refines_processes:
  assumes "reachable (booted prof P boot m s) (kernel_step prof K) k"
  shows "reachable ((=) boot_procs) (fresh_step prof) (k_procs k)"
  using kernel_procs.sim_reachable [OF assms] .

theorem kernel_refines_processes_witness:
  "\<exists>k. reachable (booted Dev platform_sample boot_sample (\<lambda>_. 0) machine_sample) (kernel_step Dev echo_decoder) k \<and>
     clock k = 1 \<and> reachable ((=) boot_procs) (fresh_step Dev) (k_procs k)"
proof -
  obtain k where k: "reachable (booted Dev platform_sample boot_sample (\<lambda>_. 0) machine_sample) (kernel_step Dev echo_decoder) k"
    "clock k = 1"
    using machine_sample_runs by blast
  then show ?thesis using kernel_refines_processes [OF k(1)] by blast
qed

end
