(* ===== verification/Key_Stream.thy ===== *)
theory Key_Stream
  imports Kernel_Steps "HOL-Library.Sublist"
begin

text \<open>
  The bytes a reader of keys has before it: those in the key buffer and those that the interrupts to
  come will put there.  As long as they fit in the buffer, interrupts and polls move them along this
  stream and never lose, repeat or reorder one.
\<close>

section \<open>The stream of keys\<close>

text \<open>A poll at which the controller's output buffer is empty: its bytes have all come by interrupt.\<close>

fun by_interrupt :: "irqs \<times> u8 \<times> u8 \<Rightarrow> bool" where
  "by_interrupt (irqs, status, data) \<longleftrightarrow> status AND STATUS_OUTPUT_BUFFER_FULL = 0"

text \<open>The bytes a reader has before it: those in the buffer and those that will be decoded.\<close>

definition key_stream :: "('kb, 'ev, 'kc) pc_keyboard \<Rightarrow> (irqs \<times> u8 \<times> u8) list \<Rightarrow> 'kb kernel \<Rightarrow> u8 list" where
  "key_stream K env s = typed s @ fst (decoded K (concat (map fst env)) (KEYBOARD (k_keyboard s)))"

lemma quiet_irqs: "list_all quiet env \<Longrightarrow> concat (map fst env) = []"
  by (induction env) auto

lemma key_stream_quiet: "list_all quiet env \<Longrightarrow> key_stream K env s = typed s"
  unfolding key_stream_def by (subst quiet_irqs) simp_all

lemma key_stream_append_quiet: "list_all quiet env' \<Longrightarrow> key_stream K (env @ env') s = key_stream K env s"
  unfolding key_stream_def map_append concat_append by (subst quiet_irqs [of env']) simp_all

text \<open>As long as the buffer has room, interrupts move bytes within the stream.\<close>

lemma key_stream_interrupted:
  assumes "interrupted K irqs s s1" "length (key_stream K ((irqs, status, data) # env) s) \<le> KEY_BUF_SIZE"
  shows "key_stream K env s1 = key_stream K ((irqs, status, data) # env) s"
proof -
  obtain bs kb where d: "decoded K irqs (KEYBOARD (k_keyboard s)) = (bs, kb)" by fastforce
  have "length (typed s @ bs) \<le> KEY_BUF_SIZE"
    using assms(2) by (auto simp: key_stream_def decoded_append d Let_def split: prod.splits)
  then have "typed s1 = typed s @ bs" "KEYBOARD (k_keyboard s1) = kb"
    using assms(1) by (simp_all add: interrupted_def d)
  then show ?thesis by (simp add: key_stream_def decoded_append d Let_def split: prod.splits)
qed

text \<open>What a reader of keys leaves alone.\<close>

definition same_user :: "'kb kernel \<Rightarrow> 'kb kernel \<Rightarrow> bool" where
  "same_user s t \<longleftrightarrow> FD_TABLE t = FD_TABLE s \<and> k_mem t = k_mem s \<and> pids (k_procs t) = pids (k_procs s) \<and>
     NEXT_PID (k_procs t) = NEXT_PID (k_procs s)"

lemma same_user_simps [simp]:
  "same_user s (t\<lparr>k_keyboard := k\<rparr>) = same_user s t" "same_user s (t\<lparr>k_writer := w\<rparr>) = same_user s t"
  "same_user (s\<lparr>k_keyboard := k\<rparr>) t = same_user s t" "same_user (s\<lparr>k_writer := w\<rparr>) t = same_user s t" "same_user s s"
  by (simp_all add: same_user_def)

lemma same_user_trans: "same_user s t \<Longrightarrow> same_user t u \<Longrightarrow> same_user s u"
  by (simp add: same_user_def)

lemma same_user_interrupted: "interrupted K irqs s t \<Longrightarrow> same_user s t"
  by (simp add: same_user_def interrupted_def)

section \<open>A reader and its surroundings\<close>

text \<open>
  A state in which a reader can meet \<open>env\<close>: the clock and the key buffer have room for all of it, and
  keys come by interrupt only.
\<close>

definition ready :: "('kb, 'ev, 'kc) pc_keyboard \<Rightarrow> (irqs \<times> u8 \<times> u8) list \<Rightarrow> 'kb kernel \<Rightarrow> bool" where
  "ready K env s \<longleftrightarrow> proc_inv (k_procs s) \<and> kb_inv (KEY_BUFFER (k_keyboard s)) \<and> clock s + env_irqs env < 2 ^ 64 \<and>
     list_all by_interrupt env \<and> length (key_stream K env s) \<le> KEY_BUF_SIZE"

text \<open>The interrupts before a poll, and the poll.\<close>

lemma ready_interrupts:
  assumes "ready K ((irqs, status, data) # env) s"
  shows "\<exists>s1. take_interrupts prof K irqs s = Ret s1 \<and> ready K env s1 \<and>
    key_stream K env s1 = key_stream K ((irqs, status, data) # env) s \<and> same_user s s1 \<and> prefix (typed s) (typed s1)"
proof -
  have r: "proc_inv (k_procs s)" "kb_inv (KEY_BUFFER (k_keyboard s))" "clock s + length irqs + env_irqs env < 2 ^ 64"
    "length (key_stream K ((irqs, status, data) # env) s) \<le> KEY_BUF_SIZE" "list_all by_interrupt env"
    using assms by (simp_all add: ready_def)
  obtain s1 where s1: "take_interrupts prof K irqs s = Ret s1" "interrupted K irqs s s1"
    using take_interrupts_ok [OF r(1) _ r(2), of irqs prof K] r(3) by auto
  have st: "key_stream K env s1 = key_stream K ((irqs, status, data) # env) s"
    using key_stream_interrupted [OF s1(2) r(4)] .
  have "clock s1 + env_irqs env < 2 ^ 64"
    using s1(2) r(3) irq_count_le [of Timer irqs] by (simp add: interrupted_def)
  then have "ready K env s1" using s1(2) r(4,5) st by (simp add: ready_def interrupted_def)
  moreover have "prefix (typed s) (typed s1)"
  proof -
    have "length (typed s) \<le> KEY_BUF_SIZE" using kb_count_le [OF r(2)] by simp
    then show ?thesis using s1(2) by (simp add: interrupted_def take_append)
  qed
  ultimately show ?thesis using s1 st same_user_interrupted [OF s1(2)] by blast
qed

lemma ready_read_key:
  assumes "ready K env s" "status AND STATUS_OUTPUT_BUFFER_FULL = 0"
  shows "typed s = [] \<and> read_key K status data (k_keyboard s) = Ret (None, k_keyboard s) \<or>
    (\<exists>c cs k. typed s = c # cs \<and> read_key K status data (k_keyboard s) = Ret (Some c, k) \<and>
       typed (s\<lparr>k_keyboard := k\<rparr>) = cs \<and> ready K env (s\<lparr>k_keyboard := k\<rparr>) \<and>
       c # key_stream K env (s\<lparr>k_keyboard := k\<rparr>) = key_stream K env s)"
proof (cases "typed s")
  case Nil
  then show ?thesis using read_key_quiet [OF _ Nil assms(2), of K data] assms(1) by (intro disjI1) (simp add: ready_def)
next
  case (Cons c cs)
  have kb: "kb_inv (KEY_BUFFER (k_keyboard s))" using assms(1) by (simp add: ready_def)
  obtain k where k: "read_key K status data (k_keyboard s) = Ret (Some c, k)" "kb_inv (KEY_BUFFER k)"
    "kb_contents (KEY_BUFFER k) = cs" "KEYBOARD k = KEYBOARD (k_keyboard s)"
    using read_key_buffered [OF kb Cons, of K status data] by blast
  then have "c # key_stream K env (s\<lparr>k_keyboard := k\<rparr>) = key_stream K env s"
    using Cons by (simp add: key_stream_def)
  moreover have "ready K env (s\<lparr>k_keyboard := k\<rparr>)"
    using assms(1) k(2) calculation [symmetric] by (simp add: ready_def)
  ultimately show ?thesis using Cons k by auto
qed

text \<open>The two together: a poll finds no key, or takes the first of the stream.\<close>

lemma ready_poll:
  assumes "ready K ((irqs, status, data) # env) s"
  obtains (none) s1 where "take_interrupts prof K irqs s = Ret s1" "read_key K status data (k_keyboard s1) = Ret (None, k_keyboard s1)"
      "ready K env s1" "key_stream K env s1 = key_stream K ((irqs, status, data) # env) s" "same_user s s1" "typed s = []"
  | (key) s1 c k where "take_interrupts prof K irqs s = Ret s1" "read_key K status data (k_keyboard s1) = Ret (Some c, k)"
      "ready K env (s1\<lparr>k_keyboard := k\<rparr>)"
      "key_stream K ((irqs, status, data) # env) s = c # key_stream K env (s1\<lparr>k_keyboard := k\<rparr>)"
      "same_user s (s1\<lparr>k_keyboard := k\<rparr>)" "typed s = [] \<or> (\<exists>ts. typed s = c # ts \<and> prefix ts (kb_contents (KEY_BUFFER k)))"
proof -
  obtain s1 where s1: "take_interrupts prof K irqs s = Ret s1" "ready K env s1"
    "key_stream K env s1 = key_stream K ((irqs, status, data) # env) s" "same_user s s1" "prefix (typed s) (typed s1)"
    using ready_interrupts [OF assms, of prof] by blast
  have "status AND STATUS_OUTPUT_BUFFER_FULL = 0" using assms by (simp add: ready_def)
  from ready_read_key [OF s1(2) this, of data] show thesis
  proof (elim disjE exE conjE)
    assume a: "typed s1 = []" "read_key K status data (k_keyboard s1) = Ret (None, k_keyboard s1)"
    then have "typed s = []" using s1(5) by (metis prefix_Nil)
    then show thesis using none s1 a by blast
  next
    fix c cs k
    assume a: "typed s1 = c # cs" "read_key K status data (k_keyboard s1) = Ret (Some c, k)" "typed (s1\<lparr>k_keyboard := k\<rparr>) = cs"
      "ready K env (s1\<lparr>k_keyboard := k\<rparr>)" "c # key_stream K env (s1\<lparr>k_keyboard := k\<rparr>) = key_stream K env s1"
    have "typed s = [] \<or> (\<exists>ts. typed s = c # ts \<and> prefix ts (kb_contents (KEY_BUFFER k)))"
      using s1(5) a(1,3) by (cases "typed s") auto
    then show thesis using key [OF s1(1) a(2,4)] s1(3,4) a(5) by simp
  qed
qed

text \<open>Processes without pending signals, none of them dead, stay as they are while interrupts tick.\<close>

definition calm :: "procs \<Rightarrow> bool" where
  "calm p \<longleftrightarrow> (\<forall>q \<in> set (PROCESS_TABLE p). pending_signals q = 0 \<and> proc_state q \<noteq> Zombie)"

lemma calm_tick: "calm p \<Longrightarrow> tick prof p = Ret q \<Longrightarrow> PROCESS_TABLE q = PROCESS_TABLE p"
proof -
  have "update_first P deliver ps = ps" if "\<forall>q \<in> set ps. pending_signals q = 0" for P and ps
    using that by (induction ps) (auto simp: deliver_def)
  then show "calm p \<Longrightarrow> tick prof p = Ret q \<Longrightarrow> PROCESS_TABLE q = PROCESS_TABLE p"
    by (auto simp: tick_def Let_def dispatch_signals_def calm_def split: if_splits)
qed

lemma calm_irqs: "take_irqs prof irqs p = Ret q \<Longrightarrow> calm p \<Longrightarrow> calm q"
proof (induction prof irqs p rule: take_irqs.induct)
  case (2 prof irqs p)
  then obtain p1 where p1: "tick prof p = Ret p1" "take_irqs prof irqs p1 = Ret q" by auto
  have "calm p1" using calm_tick [OF "2.prems"(2) p1(1)] "2.prems"(2) by (simp add: calm_def)
  then show ?case using "2.IH" p1(2) by blast
qed simp_all

lemma calm_interrupts: "take_interrupts prof K irqs s = Ret t \<Longrightarrow> calm (k_procs s) \<Longrightarrow> calm (k_procs t)"
  using calm_irqs take_interrupts_procs by blast

lemma calm_not_zombie: "calm p \<Longrightarrow> \<not> current_is_zombie p"
  by (auto simp: calm_def current_is_zombie_def dest!: find_Some_in split: option.splits)

end
