(* ===== verification/Kernel_Shell.thy ===== *)
theory Kernel_Shell
  imports Key_Stream
begin

text \<open>
  The shell while interrupts arrive.  The keys of a line come in through the keyboard interrupt, at
  any moment between the polls of the line editor and mixed with timer ticks; the shell still sees
  them once each and in order.
\<close>

section \<open>The line editor\<close>

lemma read_line_interrupts:
  "take_interrupts prof K irqs s = Ret s1 \<Longrightarrow>
   read_line prof K ((irqs, status, data) # env) pos buf s = read_line prof K (([], status, data) # env) pos buf s1"
  by simp

text \<open>The editor has the bytes \<open>line\<close> in its buffer.\<close>

definition holds_line :: "u8 list \<Rightarrow> u8 list \<Rightarrow> bool" where
  "holds_line buf line \<longleftrightarrow> length buf = MAX_CMD_LEN \<and> length line \<le> 255 \<and> take (length line) buf = line"

text \<open>A key of the line, or the key that ends it, when the editor polls.\<close>

lemma read_line_poll:
  assumes "ready K env s" "status AND STATUS_OUTPUT_BUFFER_FULL = 0"
    and "key_stream K env s = ks @ e # rest" "ends_line e \<or> e = 0x03" "\<forall>ch \<in> set ks. \<not> ends_line ch \<and> ch \<noteq> 0x03"
    and "holds_line buf line"
  shows "(\<exists>s1 line1 ks1 buf1. read_line prof K (([], status, data) # env @ polls) (length line) buf s =
        read_line prof K (env @ polls) (length line1) buf1 s1 \<and>
      ready K env s1 \<and> key_stream K env s1 = ks1 @ e # rest \<and> foldl edit_key line1 ks1 = foldl edit_key line ks \<and>
      set ks1 \<subseteq> set ks \<and> length ks1 \<le> length ks \<and> holds_line buf1 line1 \<and> same_user s s1) \<or>
    (\<exists>s1. ks = [] \<and> read_line prof K (([], status, data) # env @ polls) (length line) buf s =
        Ret (Some (length (committed e line), buf, env @ polls, s1)) \<and>
      key_stream K env s1 = rest \<and> same_user s s1)"
proof (cases "typed s")
  case Nil
  have kb: "kb_inv (KEY_BUFFER (k_keyboard s))" using assms(1) by (simp add: ready_def)
  then have "read_line prof K (([], status, data) # env @ polls) (length line) buf s = read_line prof K (env @ polls) (length line) buf s"
    using read_key_quiet [OF kb Nil assms(2), of K data] by simp
  then show ?thesis using assms(1,3,6) same_user_simps(5) [of s]
    by (intro disjI1 exI [of _ s] exI [of _ line] exI [of _ ks] exI [of _ buf]) auto
next
  case (Cons c cs)
  have kb: "kb_inv (KEY_BUFFER (k_keyboard s))" using assms(1) by (simp add: ready_def)
  have tail: "key_stream K env (s\<lparr>k_keyboard := k, k_writer := w\<rparr>) = xs"
    if "kb_contents (KEY_BUFFER k) = cs" "KEYBOARD k = KEYBOARD (k_keyboard s)" "ks @ e # rest = c # xs" for k w xs
    using that Cons assms(3) by (simp add: key_stream_def)
  show ?thesis
  proof (cases ks)
    case Nil
    then have "c = e" using Cons assms(3) by (simp add: key_stream_def)
    then show ?thesis using read_line_end [OF kb Cons, of prof K status data "env @ polls" line buf] assms(4) tail [of _ rest] Nil
      by (intro disjI2) auto
  next
    case (Cons c' ks1)
    then have "c' = c" using \<open>typed s = c # cs\<close> assms(3) by (simp add: key_stream_def)
    then obtain k w buf1 where r: "read_line prof K (([], status, data) # env @ polls) (length line) buf s =
        read_line prof K (env @ polls) (length (edit_key line c)) buf1 (s\<lparr>k_keyboard := k, k_writer := w\<rparr>)"
      "kb_inv (KEY_BUFFER k)" "kb_contents (KEY_BUFFER k) = cs" "KEYBOARD k = KEYBOARD (k_keyboard s)"
      "holds_line buf1 (edit_key line c)"
      using read_line_key [OF kb \<open>typed s = c # cs\<close>, of buf line prof K status data "env @ polls"] assms(5,6) Cons
      unfolding holds_line_def by (metis edit_key_bound list.set_intros(1))
    note st = tail [OF r(3,4), of "ks1 @ e # rest" w]
    have "ready K env (s\<lparr>k_keyboard := k, k_writer := w\<rparr>)"
      using assms(1,3) r(2) st Cons \<open>c' = c\<close> by (simp add: ready_def)
    then show ?thesis unfolding r(1) using r(2-) st Cons \<open>c' = c\<close>
      by (intro disjI1 exI [of _ "s\<lparr>k_keyboard := k, k_writer := w\<rparr>"] exI [of _ "edit_key line c"] exI [of _ ks1] exI [of _ buf1]) auto
  qed
qed

text \<open>With all keys there, the editor needs one poll for each.\<close>

lemma read_line_polls:
  assumes "kb_inv (KEY_BUFFER (k_keyboard s))" "typed s = ks @ e # rest" "list_all quiet polls" "length ks < length polls"
    and "ends_line e \<or> e = 0x03" "\<forall>ch \<in> set ks. \<not> ends_line ch \<and> ch \<noteq> 0x03" "holds_line buf line"
  shows "\<exists>s1 env1 buf1. read_line prof K polls (length line) buf s =
      Ret (Some (length (committed e (foldl edit_key line ks)), buf1, env1, s1)) \<and>
    key_stream K env1 s1 = rest \<and> same_user s s1 \<and> holds_line buf1 (committed e (foldl edit_key line ks))"
proof -
  obtain k w buf1 where "read_line prof K polls (length line) buf s =
      Ret (Some (length (committed e (foldl edit_key line ks)), buf1, drop (Suc (length ks)) polls,
        s\<lparr>k_keyboard := k, k_writer := w\<rparr>))" "kb_contents (KEY_BUFFER k) = rest" "length buf1 = MAX_CMD_LEN"
    "take (length (committed e (foldl edit_key line ks))) buf1 = committed e (foldl edit_key line ks)"
    using read_line_typed [OF assms(1,2,5,6,3,4)] assms(7) unfolding holds_line_def by blast
  moreover have "list_all quiet (drop (Suc (length ks)) polls)"
    using assms(3) by (auto simp: list_all_iff dest: in_set_dropD)
  ultimately show ?thesis using assms(7) edit_line_bound [of line ks]
    by (simp add: key_stream_quiet holds_line_def committed_def)
qed

lemma read_line_stream:
  assumes "ready K env s" "list_all quiet polls" "length ks < length polls" "key_stream K env s = ks @ e # rest"
    and "ends_line e \<or> e = 0x03" "\<forall>ch \<in> set ks. \<not> ends_line ch \<and> ch \<noteq> 0x03" "holds_line buf line"
  shows "\<exists>s1 env1 buf1. read_line prof K (env @ polls) (length line) buf s =
      Ret (Some (length (committed e (foldl edit_key line ks)), buf1, env1, s1)) \<and>
    key_stream K env1 s1 = rest \<and> same_user s s1 \<and> holds_line buf1 (committed e (foldl edit_key line ks))"
  using assms
proof (induction env arbitrary: s ks buf line)
  case Nil
  then show ?case using read_line_polls [of s ks e rest polls buf line prof K] by (simp add: ready_def key_stream_def)
next
  case (Cons entry env)
  obtain irqs status data where e: "entry = (irqs, status, data)" by (cases entry)
  obtain s1 where s1: "take_interrupts prof K irqs s = Ret s1" "ready K env s1" "key_stream K env s1 = ks @ e # rest" "same_user s s1"
    using ready_interrupts [of K irqs status data env s prof] Cons.prems(1,4) by (auto simp: e)
  have step: "read_line prof K ((entry # env) @ polls) (length line) buf s =
      read_line prof K (([], status, data) # env @ polls) (length line) buf s1"
    unfolding e append_Cons by (rule read_line_interrupts [OF s1(1)])
  have "status AND STATUS_OUTPUT_BUFFER_FULL = 0" using Cons.prems(1) by (simp add: e ready_def)
  from read_line_poll [OF s1(2) this s1(3) Cons.prems(5-7), of prof data polls] show ?case
  proof (elim disjE exE conjE)
    fix s2 line2 ks2 buf2
    assume a: "read_line prof K (([], status, data) # env @ polls) (length line) buf s1 = read_line prof K (env @ polls) (length line2) buf2 s2"
      "ready K env s2" "key_stream K env s2 = ks2 @ e # rest" "foldl edit_key line2 ks2 = foldl edit_key line ks" "set ks2 \<subseteq> set ks"
      "length ks2 \<le> length ks" "holds_line buf2 line2" "same_user s1 s2"
    have l: "length ks2 < length polls" "\<forall>ch \<in> set ks2. \<not> ends_line ch \<and> ch \<noteq> 0x03"
      using Cons.prems(3,6) a(5,6) by auto
    show ?thesis
      using Cons.IH [OF a(2) Cons.prems(2) l(1) a(3) Cons.prems(5) l(2) a(7)] same_user_trans [OF same_user_trans [OF s1(4) a(8)]]
      unfolding step a(1,4) by blast
  next
    fix s2
    assume a: "ks = []" "read_line prof K (([], status, data) # env @ polls) (length line) buf s1 =
        Ret (Some (length (committed e line), buf, env @ polls, s2))" "key_stream K env s2 = rest" "same_user s1 s2"
    then show ?thesis using same_user_trans [OF s1(4) a(4)] Cons.prems(2,7) unfolding step
      by (auto simp: key_stream_append_quiet committed_def holds_line_def)
  qed
qed

section \<open>Properties\<close>


text \<open>
  The keys of \<open>echi\<close>, backspace, \<open>o hi\<close>, return and one key more, each by an interrupt of its own
  with a timer tick before it, while the editor polls after every second one.
\<close>

definition shell_keys :: "u8 list" where
  "shell_keys = [0x65, 0x63, 0x68, 0x69, 0x08, 0x6F, 0x20, 0x68, 0x69]"

definition key_irqs :: "u8 list \<Rightarrow> irqs" where
  "key_irqs ks = concat (map (\<lambda>ch. [(Timer, 0), (Keyboard, ch)]) ks)"

definition shell_env :: "(irqs \<times> u8 \<times> u8) list" where
  "shell_env = [(key_irqs [0x65, 0x63], 0, 0), (key_irqs [0x68, 0x69], 0, 0), (key_irqs [0x08, 0x6F], 0, 0),
     (key_irqs [0x20, 0x68], 0, 0), (key_irqs [0x69, 0x0A, 0x78], 0, 0)]"

lemma shell_env_facts:
  "env_irqs shell_env = 22" "list_all by_interrupt shell_env" "list_all quiet (replicate 10 ([], 0, 0))"
  "fst (decoded echo_decoder (concat (map fst shell_env)) ()) = shell_keys @ 0x0A # [0x78]"
  by (simp_all add: shell_env_def key_irqs_def shell_keys_def decode_byte_def decode_scancode_def echo_decoder_def list_all_iff)

lemma shell_keys_facts:
  "edit_line shell_keys = bytes ''echo hi''" "\<forall>ch \<in> set shell_keys. \<not> ends_line ch \<and> ch \<noteq> 0x03"
  "execute (bytes ''echo hi'') s = Done (cmd_echo (bytes ''hi'') s)" "length shell_keys = 9"
  by (simp_all add: edit_line_def shell_keys_def edit_key_def bytes_def byte_of_def ends_line_def execute_def from_utf8_def
      trim_utf8_def white_space_def split_command_def upt_rec)


end
