(* ===== verification/Kernel_Stdin.thy ===== *)
theory Kernel_Stdin
  imports Key_Stream
begin

text \<open>
  Reads of standard input while interrupts arrive: the call waits for a first key and then takes what
  is there, up to the end of a line.
\<close>

lemma line_take_mono: "prefix xs ys \<Longrightarrow> prefix (line_take n xs) (line_take n ys)"
proof (induction n xs arbitrary: ys rule: line_take.induct)
  case (3 n c cs)
  then obtain ds where "ys = c # ds" "prefix cs ds" by (cases ys) auto
  then show ?case using "3.IH" [of ds] by auto
qed simp_all

lemma length_line_take: "length (line_take n xs) \<le> n"
  by (induction n xs rule: line_take.induct) auto

text \<open>
  What a read of \<open>n\<close> bytes takes of a stream: the first byte, whatever it is, and then up to the end
  of a line.
\<close>

fun stdin_take :: "nat \<Rightarrow> u8 list \<Rightarrow> u8 list" where
  "stdin_take n [] = []"
| "stdin_take n (c # cs) = c # line_take (n - 1) cs"

lemma quiet_ready: "list_all quiet polls \<Longrightarrow> list_all by_interrupt polls \<and> env_irqs polls = 0"
  by (induction polls) (auto simp: env_irqs_def)

section \<open>The two loops\<close>

text \<open>One poll of the loop that waits for the first key: it takes it, or there is none yet.\<close>

lemma stdin_first_poll:
  assumes "ready K (entry # env) s" "calm (k_procs s)" "key_stream K (entry # env) s = c # rest"
  shows "(\<exists>s1. stdin_first prof K (entry # env) s = Ret (Some (Some c, env, s1)) \<and> ready K env s1 \<and>
      key_stream K env s1 = rest \<and> same_user s s1 \<and> (\<forall>cs. typed s = c # cs \<longrightarrow> prefix cs (typed s1))) \<or>
    (\<exists>s1. stdin_first prof K (entry # env) s = stdin_first prof K env s1 \<and> ready K env s1 \<and>
      key_stream K env s1 = c # rest \<and> same_user s s1 \<and> typed s = [] \<and> calm (k_procs s1))"
proof -
  obtain irqs status data where e: "entry = (irqs, status, data)" by (cases entry)
  have "ready K ((irqs, status, data) # env) s" using assms(1) by (simp add: e)
  then show ?thesis
  proof (cases rule: ready_poll [where prof = prof])
    case (none s1)
    note calm = calm_interrupts [OF none(1) assms(2)]
    show ?thesis using none assms(3) calm calm_not_zombie [OF calm]
      by (intro disjI2 exI [of _ s1]) (simp add: e del: kb_contents_eq_Nil)
  next
    case (key s1 c' k)
    note calm = calm_not_zombie [OF calm_interrupts [OF key(1) assms(2)]]
    have "c' = c" "key_stream K env (s1\<lparr>k_keyboard := k\<rparr>) = rest" using key(4) assms(3) by (simp_all add: e)
    then show ?thesis using key calm
      by (intro disjI1 exI [of _ "s1\<lparr>k_keyboard := k\<rparr>"]) (auto simp: e simp del: kb_contents_eq_Nil)
  qed
qed

text \<open>Waiting for the first key: it is the first of the stream.\<close>

lemma stdin_first_stream:
  assumes "ready K (env @ polls) s" "calm (k_procs s)" "list_all quiet polls" "polls \<noteq> []"
    and "key_stream K (env @ polls) s = c # rest"
  shows "\<exists>env1 s1. stdin_first prof K (env @ polls) s = Ret (Some (Some c, env1, s1)) \<and> ready K env1 s1 \<and>
     key_stream K env1 s1 = rest \<and> same_user s s1 \<and> suffix env1 (env @ polls) \<and> length polls \<le> Suc (length env1) \<and>
     (\<forall>cs. typed s = c # cs \<longrightarrow> prefix cs (typed s1))"
  using assms
proof (induction env arbitrary: s)
  case Nil
  obtain entry polls' where p: "polls = entry # polls'" using Nil.prems(4) by (cases polls) auto
  have "typed s = c # rest" using key_stream_quiet [OF Nil.prems(3), of K s] Nil.prems(5) by simp
  then show ?case using stdin_first_poll [of K entry polls' s c rest prof] Nil.prems(1,2,5) by (auto simp: p suffix_Cons)
next
  case (Cons entry env)
  from stdin_first_poll [of K entry "env @ polls" s c rest prof] Cons.prems(1,2,5)
  consider (key) s1 where "stdin_first prof K (entry # env @ polls) s = Ret (Some (Some c, env @ polls, s1))" "ready K (env @ polls) s1"
      "key_stream K (env @ polls) s1 = rest" "same_user s s1" "\<forall>cs. typed s = c # cs \<longrightarrow> prefix cs (typed s1)"
    | (none) s1 where "stdin_first prof K (entry # env @ polls) s = stdin_first prof K (env @ polls) s1" "ready K (env @ polls) s1"
      "key_stream K (env @ polls) s1 = c # rest" "same_user s s1" "typed s = []" "calm (k_procs s1)"
    unfolding append_Cons by blast
  then show ?case
  proof cases
    case key
    then show ?thesis by (intro exI [of _ "env @ polls"] exI [of _ s1]) (simp add: suffix_Cons)
  next
    case none
    then show ?thesis using Cons.IH [OF none(2,6) Cons.prems(3,4) none(3)] same_user_trans [OF none(4)]
      by (auto simp: suffix_Cons simp del: kb_contents_eq_Nil)
  qed
qed

text \<open>
  Taking the rest: at least what was in the buffer up to the end of a line, at most the line that the
  stream begins with.
\<close>

lemma stdin_rest_stream:
  "ready K env s \<Longrightarrow> n \<le> length env \<Longrightarrow>
   \<exists>cs env1 s1. stdin_rest prof K n env s = Ret (Some (cs, s1)) \<and> prefix (line_take n (typed s)) cs \<and>
     prefix cs (line_take n (key_stream K env s)) \<and> cs @ key_stream K env1 s1 = key_stream K env s \<and>
     suffix env1 env \<and> same_user s s1"
proof (induction n arbitrary: env s)
  case 0
  then show ?case by (intro exI [of _ "[]"] exI [of _ env] exI [of _ s]) simp
next
  case (Suc n)
  obtain irqs status data env0 where e: "env = (irqs, status, data) # env0" using Suc.prems(2) by (cases env) auto
  have "ready K ((irqs, status, data) # env0) s" using Suc.prems(1) by (simp add: e)
  then show ?case
  proof (cases rule: ready_poll [where prof = prof])
    case (none s1)
    then show ?thesis
      by (intro exI [of _ "[]"] exI [of _ env0] exI [of _ s1]) (simp add: e suffix_Cons del: kb_contents_eq_Nil)
  next
    case (key s1 c k)
    let ?s2 = "s1\<lparr>k_keyboard := k\<rparr>"
    show ?thesis
    proof (cases "c = 0x0A \<or> c = 0x0D")
      case True
      then show ?thesis using key by (intro exI [of _ "[c]"] exI [of _ env0] exI [of _ ?s2])
          (auto simp: e suffix_Cons simp del: kb_contents_eq_Nil)
    next
      case False
      obtain cs env1 s3 where r: "stdin_rest prof K n env0 ?s2 = Ret (Some (cs, s3))" "prefix (line_take n (kb_contents (KEY_BUFFER k))) cs"
        "prefix cs (line_take n (key_stream K env0 ?s2))" "cs @ key_stream K env1 s3 = key_stream K env0 ?s2"
        "suffix env1 env0" "same_user ?s2 s3"
        using Suc.IH [OF key(3)] Suc.prems(2) by (auto simp: e)
      have "prefix (line_take (Suc n) (typed s)) (c # cs)"
        using key(6) False prefix_order.trans [OF line_take_mono r(2)] by (auto simp del: kb_contents_eq_Nil)
      then show ?thesis using r(1,3-) key(1,2,4) False same_user_trans [OF key(5) r(6)]
        by (intro exI [of _ "c # cs"] exI [of _ env1] exI [of _ s3]) (auto simp: e suffix_Cons)
    qed
  qed
qed

section \<open>Properties\<close>


text \<open>The keys \<open>h\<close>, \<open>i\<close>, return and \<open>x\<close> arrive by interrupt while the call polls.\<close>

definition stdin_env :: "(irqs \<times> u8 \<times> u8) list" where
  "stdin_env = [([(Timer, 0)], 0, 0), ([(Keyboard, 0x68), (Timer, 0)], 0, 0), ([(Keyboard, 0x69), (Keyboard, 0x0A), (Keyboard, 0x78)], 0, 0)]"

lemma stdin_env_facts:
  "env_irqs stdin_env = 6" "list_all by_interrupt stdin_env" "list_all quiet (replicate 5 ([], 0, 0))"
  "key_stream echo_decoder stdin_env (user_kernel m) = [0x68, 0x69, 0x0A, 0x78]"
  by (simp_all add: stdin_env_def list_all_iff key_stream_def user_kernel_def idle_keyboard_def kb_contents_new decode_byte_def
      decode_scancode_def echo_decoder_def)


end
