(* ===== verification/Build_Script.thy ===== *)
theory Build_Script
  imports Prelude
begin

text \<open>
  The build script of the kernel crate (\<open>kernel/build.rs\<close>).  What it does is print directives for Cargo;
  the environment of the process is an argument.
\<close>

text \<open>
  \<open>PathBuf::join\<close> with a relative file name: a separator is added unless the directory is empty or
  ends in one.
\<close>

definition path_join :: "string \<Rightarrow> string \<Rightarrow> string" where
  "path_join dir name = (if dir = [] \<or> last dir = CHR ''/'' then dir @ name else dir @ ''/'' @ name)"

text \<open>The lines printed; \<open>unwrap\<close> panics when the variable is not set.\<close>

definition build_main :: "(string \<Rightarrow> string option) \<Rightarrow> string list outcome" where
  "build_main env =
     (case env ''CARGO_MANIFEST_DIR'' of
        None \<Rightarrow> Panic (Explicit ''called `Result::unwrap()` on an `Err` value: NotPresent'')
      | Some manifest_dir \<Rightarrow>
          let linker_script = path_join manifest_dir ''linker.ld''
          in Ret [''cargo:rerun-if-changed='' @ linker_script,
                  ''cargo:rerun-if-changed=build.rs'',
                  ''cargo:rustc-link-arg=-T'' @ linker_script,
                  ''cargo:rustc-link-arg=-no-pie'',
                  ''cargo:rustc-link-arg=--no-relax''])"

text \<open>The linker script that is passed to the linker is the one whose changes rerun the script, in the crate's directory.\<close>

lemma build_main_links_watched_script:
  assumes "env ''CARGO_MANIFEST_DIR'' = Some dir" "dir \<noteq> []" "last dir \<noteq> CHR ''/''"
  shows "\<exists>lines. build_main env = Ret lines \<and>
    ''cargo:rustc-link-arg=-T'' @ dir @ ''/linker.ld'' \<in> set lines \<and>
    ''cargo:rerun-if-changed='' @ dir @ ''/linker.ld'' \<in> set lines \<and>
    length (filter (\<lambda>line. take 21 line = ''cargo:rustc-link-arg='') lines) = 3"
  using assms by (simp add: build_main_def path_join_def Let_def)

end
