(* ===== verification/Spec2Isabelle.thy ===== *)
theory Spec2Isabelle
  imports Initramfs Net Framebuffer Locking Kernel_Refinement Kernel_Shell Kernel_Stdin Build_Script
begin

text \<open>
  \<^bold>\<open>A verification library for ComputeKERNEL\<close>, an x86-64 kernel written in Rust (\<open>src/\<close>).

  \<^bold>\<open>The program.\<close>  \<open>kernel_main\<close> sets up the serial port, the screen, the segment and interrupt
  tables, the interrupt controllers, the heap, the PCI bus, the keyboard and the process table,
  enables interrupts and runs a shell inside the kernel.  Timer interrupts drive the scheduler and
  the delivery of signals; keyboard interrupts fill a ring buffer that the shell and reads of standard
  input empty.  The system call layer works on the process table, on a table of open pseudo files
  and on both consoles.  The file systems, the network formats, the framebuffer, ACPI and the device
  drivers are libraries of the kernel that \<open>kernel_main\<close> does not call.

  \<^bold>\<open>Conventions.\<close>  Machine integers are words of their width.  Fallible code returns a sum with
  the error on the left, and code that can panic an \<open>outcome\<close> (\<open>Ret\<close> or \<open>Panic\<close>).  Arithmetic
  that the source leaves unchecked takes a \<open>profile\<close>: \<open>Dev\<close> panics on overflow, \<open>Release\<close> wraps
  around.  Strings are their UTF-8 bytes as characters or as \<open>u8\<close> lists, slices and vectors are
  lists, statics are fields of records that operations take and return.  What the hardware does is an
  argument: values of ports, the interrupts taken at each \<open>hlt\<close>, the register with the page table.
  A critical section that runs with interrupts disabled is one definition, so interleavings are
  sequences of such steps.

  \<^bold>\<open>Theories and the code they model\<close> (paths below \<open>src/kernel/src/\<close>).
  \<^item> \<open>Prelude\<close>: outcomes, profiles, checked arithmetic, printing of numbers, byte orders; the locale
    \<open>invariant_system\<close> of transition systems with an invariant and \<open>simulation\<close> between them.
  \<^item> \<open>Process_Table\<close>, \<open>Scheduler\<close>, \<open>Signal\<close>, \<open>Process\<close>: \<open>process/mod.rs\<close>, \<open>scheduler.rs\<close>,
    \<open>signal.rs\<close>.  \<open>procs\<close> holds the statics of the three files; \<open>proc_step\<close> is the relation of all
    critical sections.  Shown: an invariant of every reachable state (an interpretation of
    \<open>invariant_system\<close>), that scheduling is round robin and starves nobody, what fork, exit, wait
    and signals do, and two ways in which waiting and death by a signal go wrong.
  \<^item> \<open>Vga\<close>: \<open>drivers/vga.rs\<close>, the writer over a byte memory; it refines an abstract console of 25
    lines and never writes outside the text buffer.
  \<^item> \<open>Keyboard\<close>: \<open>drivers/keyboard.rs\<close>; the ring buffer interprets the locale \<open>bounded_fifo\<close>, and keys
    reach the readers in order.
  \<^item> \<open>Interrupts\<close>: \<open>arch/x86_64/interrupts.rs\<close>, \<open>idt.rs\<close>: all handlers, the table and the masks;
    it also declares \<open>kernel\<close>, the record of the statics of these components.
  \<^item> \<open>Fd_Table\<close>, \<open>Syscall\<close>: \<open>syscall/mod.rs\<close>.  The table of open files interprets \<open>slot_table\<close>;
    \<open>dispatch\<close> is the whole call on the kernel state.  Its properties are in \<open>Syscall_Files\<close> (opening,
    closing and reading pseudo files), \<open>Syscall_Safety\<close> (what a call leaves alone, that failed calls
    change nothing, that reads stay in the buffer, when a call that does not wait panics),
    \<open>Syscall_Process\<close> (exit and wait, and that \<open>wait4\<close> refines \<open>waitpid\<close>) and \<open>Syscall_Console\<close>
    (standard output).
  \<^item> \<open>Shell\<close>: \<open>shell.rs\<close>: the line editor, the commands and the loop.
  \<^item> \<open>Vfs\<close>, \<open>Initramfs\<close>: \<open>fs/\<close>.  A file system is a record of functions; the locales \<open>vfs_reader\<close>
    and \<open>text_file\<close> are the contracts of reading.  Shown: listing agrees with lookup, the pseudo file
    systems agree with the system calls, an archive mounts and reads back, the parser terminates, and
    exactly which archives make the parser or a read panic.
  \<^item> \<open>Net\<close>: \<open>net/\<close>; the locales \<open>wire_format\<close> and \<open>exact_wire_format\<close> for round trips, the IPv4
    checksum, the panics of the parsers.
  \<^item> \<open>Memory\<close>: \<open>memory/\<close>; the frame allocator interprets the locale \<open>frame_source\<close>, in which mapping
    the heap is proved correct.
  \<^item> \<open>Pci\<close>: \<open>drivers/pci.rs\<close> and the device drivers; enumeration finds every function that responds.
  \<^item> \<open>Framebuffer\<close>: \<open>drivers/framebuffer.rs\<close>; a rectangle is painted and nothing else.
  \<^item> \<open>Locking\<close>: the spin locks of the kernel.  Each operation is the sequence of its lock and
    interrupt-flag actions; \<open>cpu_step\<close> runs it on one processor with nested interrupts.  Shown: which
    operations can deadlock.  A discipline that can be computed is sound for all of them, by another
    interpretation of \<open>invariant_system\<close>.
  \<^item> \<open>Boot\<close>: \<open>main.rs\<close>, \<open>arch/x86_64/gdt.rs\<close>, \<open>drivers/serial.rs\<close>, \<open>drivers/acpi_driver.rs\<close> and the init
    program \<open>src/init/src/main.rs\<close>.  \<open>machine\<close> is the whole machine; shown: booting establishes
    the state the other theories start from.  The locale \<open>serial_line\<close> is the contract of the UART.
  \<^item> \<open>Kernel_System\<close>, \<open>Kernel_Steps\<close>: the kernel as one transition system.  \<open>kernel_step\<close> is a batch of
    interrupts, a system call or a turn of the shell; \<open>kernel_inv\<close> joins the invariants of the
    components, and \<open>invariant_system\<close> is interpreted for it from the states \<open>kernel_main\<close> leaves.
    Shown: every reachable state is well formed, and the one situation in which the running kernel panics.
  \<^item> \<open>Kernel_Refinement\<close>: seen through its processes, the whole kernel is the process subsystem; an
    interpretation of the locale \<open>simulation\<close>, which extends \<open>invariant_system\<close>.
  \<^item> \<open>Key_Stream\<close>, \<open>Kernel_Shell\<close>, \<open>Kernel_Stdin\<close>: the bytes a reader of keys has before it.  The shell
    and reads of standard input take them once each and in order, under every interleaving of their
    polls with interrupts.
  \<^item> \<open>Build_Script\<close>: \<open>src/kernel/build.rs\<close>.
  \<^item> This theory: the interrupts of a booted kernel, and death by a signal from \<open>kill\<close> to \<open>wait4\<close>.

  \<^bold>\<open>Parameters.\<close>  Code outside \<open>src/\<close> is an argument, and what is assumed of it a named definition
  with an instance that satisfies it: \<open>pc_keyboard\<close> (the decoder, nothing assumed), \<open>x86_64\<close> and
  \<open>x86_64_ok\<close> (address types), \<open>mapper_ok\<close> (\<open>map_to\<close> maps one page and takes at most three frames for
  tables), \<open>gdt_crate_ok\<close> (descriptors get the next free entries), \<open>bootloader_ok\<close> (the offset is
  reported when the mapping is configured), \<open>config_mechanism\<close> (the PCI
  configuration ports), \<open>debug_text\<close> (printing of crate types), the UART and the ACPI table parser.

  \<^bold>\<open>Bounds.\<close>  Loops that wait (\<open>waitpid\<close>, reading standard input, the line editor) recurse over the list
  of what happens at each wait and return \<open>None\<close> when it ends; every statement that they return
  gives a list for which they do.  \<open>shell_loop\<close> has a bound on the number of lines, because
  \<open>shell::run\<close> never returns; \<open>init_main\<close> runs over the results of starting a shell for the same
  reason.  All other recursion is total, \<open>checksum_fold\<close> and \<open>parse_entries\<close> by measures of their own.

  \<^bold>\<open>Not modelled.\<close>  The module declarations and re-exports (no code), the unit structs of the device
  nodes and of the pseudo file systems and the unused \<open>ScreenChar\<close> (no operation has one), the static
  arrays of the interrupt stacks (their addresses are arguments), the log line of the archive parser,
  the text dumps of derived \<open>Debug\<close> instances, the inside of the heap allocator (a crate, given the
  range that \<open>memory_init\<close> maps), user-mode execution (the kernel has none: no process ever runs code)
  and weak memory or more than one processor (the kernel starts one).
\<close>

section \<open>Interrupts of a booted kernel\<close>

text \<open>
  Claim C10.  Once \<open>kernel_main\<close> has reached the shell, any sequence of fewer than 2 to the 64 hardware
  interrupts is served without a panic, in both build profiles and whatever the keyboard
  decoder does: each is acknowledged once, in order, the process table keeps its two processes and
  stays well formed, the tick counter equals the number of timer interrupts, the key buffer holds the
  first 256 bytes decoded from the keyboard interrupts, in order, and the descriptor table, user
  memory and the screen are unchanged.
\<close>

theorem interrupts_after_boot:
  fixes P :: "('g, 'm, 'hw) platform" and s :: "('kb, 'g, 'm, 'hw) machine"
  assumes "kernel_main prof P boot s = Ret s'"
    and "k_procs (m_kernel s) = procs_static" and "KEY_BUFFER (k_keyboard (m_kernel s)) = key_buffer_new"
    and "length irqs < 2 ^ 64"
  shows "\<exists>k. take_interrupts prof K irqs (m_kernel s') = Ret k \<and> proc_inv (k_procs k) \<and> pids (k_procs k) = [0, 1] \<and>
    unat (ticks (k_procs k)) = irq_count Timer irqs \<and> kb_inv (KEY_BUFFER (k_keyboard k)) \<and>
    kb_contents (KEY_BUFFER (k_keyboard k)) = take 256 (fst (decoded K irqs (KEYBOARD (k_keyboard (m_kernel s))))) \<and>
    k_eoi k = k_eoi (m_kernel s) @ map (as_u8 \<circ> fst) irqs \<and>
    FD_TABLE k = FD_TABLE (m_kernel s) \<and> k_mem k = k_mem (m_kernel s') \<and> k_writer k = k_writer (m_kernel s')"
proof -
  note k = kernel_main_RetD [OF assms(1)]
  have p: "k_procs (m_kernel s') = boot_procs" "k_keyboard (m_kernel s') = k_keyboard (m_kernel s)"
    using k assms(2) by (simp_all add: boot_procs_def)
  have "TICK boot_procs = 0" "pids boot_procs = [0, 1]" by (simp_all add: boot_procs_eq pids_def idle_process_def)
  then show ?thesis
    using take_interrupts_ok [of "m_kernel s'" irqs prof K] assms(3,4) k
    by (auto simp: p proc_inv_boot kb_inv_new kb_contents_new interrupted_def ticks_def KEY_BUF_SIZE_def)
qed

theorem interrupts_after_boot_witness:
  "\<exists>s' k. kernel_main Dev platform_sample boot_sample machine_sample = Ret s' \<and>
     take_interrupts Dev echo_decoder [(Timer, 0), (Keyboard, 0x61), (Timer, 0)] (m_kernel s') = Ret k \<and>
     unat (ticks (k_procs k)) = 2 \<and> k_eoi k = [0x20, 0x21, 0x20] \<and> kb_contents (KEY_BUFFER (k_keyboard k)) = [0x61]"
proof -
  obtain s' where s': "kernel_main Dev platform_sample boot_sample machine_sample = Ret s'"
    using kernel_main_sample_returns by blast
  have b: "KEY_BUFFER (k_keyboard (m_kernel machine_sample)) = key_buffer_new" "k_eoi (m_kernel machine_sample) = []"
    by (simp_all add: machine_sample_def user_kernel_def idle_keyboard_def)
  have d: "fst (decoded echo_decoder [(Timer, 0), (Keyboard, 0x61), (Timer, 0)] kb) = [0x61]" for kb
    by (simp add: decode_byte_def decode_scancode_def echo_decoder_def)
  show ?thesis
    using interrupts_after_boot [OF s' machine_sample_fields(3) b(1), of "[(Timer, 0), (Keyboard, 0x61), (Timer, 0)]" echo_decoder] s' b(2)
    unfolding d by (auto simp: irq_count_def PIC_1_OFFSET_def)
qed

section \<open>Death by a signal\<close>

text \<open>A signal sent and then dispatched at the next timer tick of its target.\<close>

lemma deliver_sole_signal:
  assumes "pending_signals p = 0" "sig \<in> set terminating_signals"
  shows "deliver (p\<lparr>pending_signals := sig_bit sig\<rparr>) = p\<lparr>proc_state := Zombie, exit_code := 128 + ucast sig\<rparr>"
proof -
  have "sig = SIGKILL \<or> sig = SIGTERM \<or> sig = SIGINT \<or> sig = SIGQUIT" using assms(2) by (auto simp: terminating_signals_def)
  then show ?thesis using assms(1)
    by (auto simp: deliver_def terminating_sig_def sig_bit_def signal_numbers)
qed

lemma tick_kills:
  assumes "find_pid q s = Some c" "pending_signals c = 0" "sig \<in> set terminating_signals"
    and "unat (TICK s) + 1 < 2 ^ 64"
  shows "\<exists>t. tick prof ((snd (kill q sig s))\<lparr>CURRENT_PID := q\<rparr>) = Ret t \<and> pids t = pids s \<and>
    find_pid q t = Some (c\<lparr>proc_state := Zombie, exit_code := 128 + ucast sig\<rparr>)"
proof -
  have sig: "sig \<le> 31" "sig \<noteq> 0" using assms(3) by (auto simp: terminating_signals_def signal_numbers)
  let ?s = "(snd (kill q sig s))\<lparr>CURRENT_PID := q\<rparr>"
  have f: "find_pid q ?s = Some (c\<lparr>pending_signals := sig_bit sig\<rparr>)" "pids ?s = pids s" "TICK ?s = TICK s"
    using kill_ok(2) [OF assms(1) sig] assms(2) by (auto simp: kill_def pids_def map_update_first split: option.splits)
  obtain t where "tick prof ?s = Ret t" "PROCESS_TABLE t = PROCESS_TABLE (dispatch_signals q ?s)"
    using arith_add_ok [of "TICK s" 1 prof] assms(4) f(3) by (auto simp: tick_def Let_def current_pid_def dispatch_signals_def)
  then show ?thesis using find_pid_dispatch [of q q ?s] f deliver_sole_signal [OF assms(2,3)]
    by (auto simp: pids_def dispatch_signals_def map_update_first)
qed

text \<open>
  Claim C23.  A kill is seen by the parent.  A process sends SIGKILL, SIGTERM, SIGINT or SIGQUIT to
  another that has no signal pending; at the next timer interrupt during which the target is
  current it becomes a zombie, and a wait4 by its parent for its PID returns the PID at
  once and stores the bytes of the status, 128 plus the signal in the second and 0 in the others;
  the target, and nothing else, is gone from the process table.
\<close>

theorem kill_status_reaches_parent:
  assumes "distinct (pids (k_procs s))" and "find_pid (pid c) (k_procs s) = Some c" and "pending_signals c = 0"
    and "sig \<in> set terminating_signals" and "0 < sint (pid c)" and "clock s + 1 < 2 ^ 64"
    and "num f1 = SYS_KILL" and "ucast (rdi f1) = pid c" and "ucast (rsi f1) = sig"
    and "num f2 = SYS_WAIT4" and "ucast (rdi f2) = pid c" and "rsi f2 \<noteq> 0"
  shows "\<exists>s1 s2 s3. dispatch prof K env1 f1 s = Ret (Returned 0 s1) \<and>
    take_interrupts prof K [(Timer, data)] (s1\<lparr>k_procs := (k_procs s1)\<lparr>CURRENT_PID := pid c\<rparr>\<rparr>) = Ret s2 \<and>
    dispatch prof K env2 f2 (s2\<lparr>k_procs := (k_procs s2)\<lparr>CURRENT_PID := parent_pid c\<rparr>\<rparr>) =
      Ret (Returned (uint (pid c)) s3) \<and>
    load_bytes (k_mem s3) (rsi f2) 4 = [0, 128 + sig, 0, 0] \<and>
    pids (k_procs s3) = remove1 (pid c) (pids (k_procs s))"
proof -
  let ?code = "128 + ucast sig :: i32"
  have sig: "sig \<le> 31" "sig \<noteq> 0" using assms(4) by (auto simp: terminating_signals_def signal_numbers)
  let ?p1 = "snd (kill (pid c) sig (k_procs s))"
  have 1: "dispatch prof K env1 f1 s = Ret (Returned 0 (s\<lparr>k_procs := ?p1\<rparr>))"
    using kill_ok(1) [OF assms(2) sig] assms(7-9)
    by (cases "kill (pid c) sig (k_procs s)") (simp add: dispatch_def syscall_numbers sys_kill_def)
  obtain t where t: "tick prof (?p1\<lparr>CURRENT_PID := pid c\<rparr>) = Ret t" "pids t = pids (k_procs s)"
    "find_pid (pid c) t = Some (c\<lparr>proc_state := Zombie, exit_code := ?code\<rparr>)"
    using tick_kills [OF assms(2-4,6)] by blast
  let ?s2 = "notify_end_of_interrupt (as_u8 Timer) (s\<lparr>k_procs := t\<rparr>)"
  have 2: "take_interrupts prof K [(Timer, data)] (s\<lparr>k_procs := ?p1\<lparr>CURRENT_PID := pid c\<rparr>\<rparr>) = Ret ?s2"
    using t(1) by (simp add: take_interrupt_eq [of prof K Timer, simplified] irq_effect_def)
  obtain p3 where w: "waitpid_once (Some (pid c)) (t\<lparr>CURRENT_PID := parent_pid c\<rparr>) = (Inr (Some (pid c, ?code)), p3)"
    "pids p3 = remove1 (pid c) (pids (k_procs s))"
    using waitpid_once_zombie [of "t\<lparr>CURRENT_PID := parent_pid c\<rparr>" "pid c"] t(2,3) assms(1) by (auto simp: pids_def)
  let ?s3 = "?s2\<lparr>k_procs := p3, k_mem := store_bytes (rsi f2) [0, ucast ?code, 0, 0] (k_mem s)\<rparr>"
  have 3: "dispatch prof K env2 f2 (?s2\<lparr>k_procs := t\<lparr>CURRENT_PID := parent_pid c\<rparr>\<rparr>) = Ret (Returned (uint (pid c)) ?s3)"
    using assms(5,10-12) w(1)
    by (simp add: dispatch_def syscall_numbers sys_wait4_def waitpid_kernel.simps wait_status_bytes notify_end_of_interrupt_def)
  have c: "ucast ?code = 128 + sig" using assms(4) by (auto simp: terminating_signals_def signal_numbers)
  have "load_bytes (k_mem ?s3) (rsi f2) 4 = [0, 128 + sig, 0, 0]"
    using load_store_bytes [of 4 "[0, ucast ?code, 0, 0]" "rsi f2" "k_mem s"] by (simp add: c)
  then show ?thesis using 1 2 3 w(2)
    by (intro exI [of _ "s\<lparr>k_procs := ?p1\<rparr>"] exI [of _ ?s2] exI [of _ ?s3]) (simp add: notify_end_of_interrupt_def)
qed

theorem kill_status_reaches_parent_witness:
  "\<exists>s1 s2 s3. dispatch Dev echo_decoder no_env (syscall SYS_KILL 2 9 0) ((user_kernel (\<lambda>_. 0xAA))\<lparr>k_procs := two_procs\<rparr>) =
       Ret (Returned 0 s1) \<and>
     take_interrupts Dev echo_decoder [(Timer, 0)] (s1\<lparr>k_procs := (k_procs s1)\<lparr>CURRENT_PID := 2\<rparr>\<rparr>) = Ret s2 \<and>
     dispatch Dev echo_decoder no_env (syscall SYS_WAIT4 2 0x5000 0) (s2\<lparr>k_procs := (k_procs s2)\<lparr>CURRENT_PID := 1\<rparr>\<rparr>) =
       Ret (Returned 2 s3) \<and>
     load_bytes (k_mem s3) 0x5000 4 = [0, 137, 0, 0]"
proof -
  let ?s = "(user_kernel (\<lambda>_. 0xAA))\<lparr>k_procs := two_procs\<rparr>"
  let ?c = "PROCESS_TABLE two_procs ! 2"
  have "distinct (pids (k_procs ?s))" "pid ?c = 2" "find_pid (pid ?c) (k_procs ?s) = Some ?c"
    "parent_pid ?c = 1" "pending_signals ?c = 0" "clock ?s = 0" "9 \<in> set terminating_signals"
    by (simp_all add: two_procs_eq boot_procs_eq idle_process_def pids_def terminating_signals_def signal_numbers)
  with kill_status_reaches_parent [of ?s ?c 9 "syscall SYS_KILL 2 9 0" "syscall SYS_WAIT4 2 0x5000 0"
      Dev echo_decoder no_env 0 no_env]
  show ?thesis by (auto simp: syscall_def)
qed

end
